(* ===== verification/Prelude.thy ===== *)
theory Prelude
  imports Main
begin

text \<open>
  Shared vocabulary of the development.

  JavaScript strings are represented by the list of their UTF-8 bytes, as an
  Isabelle \<^typ>\<open>string\<close>; a Node \<open>Buffer\<close> is a byte list as well, so both
  have the type \<^typ>\<open>string\<close> and \<open>Buffer.from(s)\<close> is the identity.
  Prefix tests, concatenation and splitting at ASCII characters agree with
  the operations on code units.  Objects and \<open>Map\<close>s, whose iteration order
  the program relies on, are association lists in insertion order.
  Exceptions are values of the sum type \<open>exn + 'a\<close>.
\<close>

named_theorems js_simps \<open>equations that evaluate the JavaScript primitives\<close>
named_theorems inv_intros \<open>preservation of the components' invariants\<close>

section \<open>Exceptions\<close>

text \<open>The error classes of \<open>core/exceptions.ts\<close>, plain \<open>Error\<close> and \<open>TypeError\<close>.\<close>

datatype exn =
    HttpNotFoundError string
  | HttpForbiddenError string
  | DisplayableError string
  | PlainError string
  | TypeError

type_synonym 'a result = "exn + 'a"

fun is_ok :: "'e + 'a \<Rightarrow> bool" where
  "is_ok (Inl _) = False"
| "is_ok (Inr _) = True"

text \<open>The HTTP status that the error handler of the proxy takes from an error.\<close>

fun httpStatusCode :: "exn \<Rightarrow> nat option" where
  "httpStatusCode (HttpNotFoundError _) = Some 404"
| "httpStatusCode (HttpForbiddenError _) = Some 403"
| "httpStatusCode _ = None"

lemma find_found: "find P xs = Some x \<Longrightarrow> x \<in> set xs \<and> P x"
  by (auto simp: find_Some_iff)

fun mapM_res :: "('a \<Rightarrow> 'e + 'b) \<Rightarrow> 'a list \<Rightarrow> 'e + 'b list" where
  "mapM_res f [] = Inr []"
| "mapM_res f (x # xs) =
     (case f x of Inl e \<Rightarrow> Inl e
      | Inr y \<Rightarrow> (case mapM_res f xs of Inl e \<Rightarrow> Inl e | Inr ys \<Rightarrow> Inr (y # ys)))"

lemma mapM_res_Inr [simp]:
  "(\<And>x. x \<in> set xs \<Longrightarrow> f x = Inr (g x)) \<Longrightarrow> mapM_res f xs = Inr (map g xs)"
  by (induction xs) auto

lemma mapM_res_cong [fundef_cong]:
  "xs = ys \<Longrightarrow> (\<And>x. x \<in> set ys \<Longrightarrow> f x = g x) \<Longrightarrow> mapM_res f xs = mapM_res g ys"
  by (induction xs arbitrary: ys) (auto split: sum.splits)

section \<open>Strings and buffers\<close>

text \<open>\<open>buf.slice(start, end)\<close>: negative positions count from the end, and both are clamped.\<close>

definition clamp_index :: "int \<Rightarrow> int \<Rightarrow> int" where
  "clamp_index n i = (if i < 0 then max 0 (n + i) else min i n)"

definition js_slice :: "int \<Rightarrow> int \<Rightarrow> 'a list \<Rightarrow> 'a list" where
  "js_slice s e xs =
     (let n = int (length xs); s' = clamp_index n s; e' = clamp_index n e
      in take (nat (e' - s')) (drop (nat s') xs))"

lemma js_slice_nat [js_simps]:
  "js_slice (int a) (int b) xs = take (b - a) (drop a xs)"
proof (cases "a \<le> length xs")
  case True
  then show ?thesis
  proof (cases "b \<le> length xs")
    case False
    with True have "length (drop a xs) \<le> b - a" "nat (int (length xs) - int a) = length xs - a"
      by auto
    with False True show ?thesis by (simp add: js_slice_def clamp_index_def)
  qed (simp add: js_slice_def clamp_index_def nat_minus_as_int)
qed (simp add: js_slice_def clamp_index_def)

definition starts_with :: "string \<Rightarrow> string \<Rightarrow> bool" where
  "starts_with p s = (take (length p) s = p)"

definition ends_with :: "string \<Rightarrow> string \<Rightarrow> bool" where
  "ends_with p s = starts_with (rev p) (rev s)"

lemma starts_with_iff: "starts_with p s \<longleftrightarrow> (\<exists>r. s = p @ r)"
  unfolding starts_with_def by (metis append_eq_conv_conj)

lemma ends_with_iff: "ends_with p s \<longleftrightarrow> (\<exists>r. s = r @ p)"
  unfolding ends_with_def starts_with_iff by (metis rev_append rev_rev_ident)

lemma starts_with_append [simp]: "starts_with p (p @ r)"
  by (simp add: starts_with_def)

lemma starts_with_simps [simp]:
  "starts_with [] s" "starts_with (c # p) [] = False"
  "starts_with (c # p) (d # s) = (c = d \<and> starts_with p s)"
  by (auto simp: starts_with_def)

lemma ends_with_append [simp]: "ends_with p (r @ p)"
  by (auto simp: ends_with_iff)

text \<open>\<open>s.replace(/suffix$/, r)\<close> for a literal suffix.\<close>

definition replace_suffix :: "string \<Rightarrow> string \<Rightarrow> string \<Rightarrow> string" where
  "replace_suffix p r s =
     (if ends_with p s then take (length s - length p) s @ r else s)"

lemma replace_suffix_append [simp]: "replace_suffix p r (s @ p) = s @ r"
  by (simp add: replace_suffix_def)

text \<open>\<open>s.replace(p, r)\<close> with a string pattern replaces the first occurrence only.\<close>

fun replace_first :: "string \<Rightarrow> string \<Rightarrow> string \<Rightarrow> string" where
  "replace_first p r s =
     (if starts_with p s then r @ drop (length p) s
      else case s of [] \<Rightarrow> [] | c # cs \<Rightarrow> c # replace_first p r cs)"

declare replace_first.simps [simp del]

text \<open>\<open>s.includes(p)\<close>.\<close>

fun includes_str :: "string \<Rightarrow> string \<Rightarrow> bool" where
  "includes_str p [] = (p = [])"
| "includes_str p (c # cs) = (starts_with p (c # cs) \<or> includes_str p cs)"

text \<open>\<open>s.split(c)\<close> for a one-character separator: never empty.\<close>

fun split_ch :: "char \<Rightarrow> string \<Rightarrow> string list" where
  "split_ch d [] = [[]]"
| "split_ch d (c # cs) =
     (if c = d then [] # split_ch d cs
      else (case split_ch d cs of [] \<Rightarrow> [[c]] | w # ws \<Rightarrow> (c # w) # ws))"

fun join_ch :: "string \<Rightarrow> string list \<Rightarrow> string" where
  "join_ch d [] = []"
| "join_ch d [w] = w"
| "join_ch d (w # v # ws) = w @ d @ join_ch d (v # ws)"

lemma split_ch_not_Nil [simp]: "split_ch d s \<noteq> []"
  by (induction s) (auto split: list.splits)

lemma split_ch_absent: "d \<notin> set s \<Longrightarrow> split_ch d s = [s]"
  by (induction s) auto

lemma split_ch_append: "d \<notin> set w \<Longrightarrow> split_ch d (w @ d # s) = w # split_ch d s"
  by (induction w) auto

lemma split_ch_no_sep: "w \<in> set (split_ch d s) \<Longrightarrow> d \<notin> set w"
  by (induction s arbitrary: w) (auto split: list.splits if_splits)

lemma set_split_ch: "w \<in> set (split_ch d s) \<Longrightarrow> set w \<subseteq> set s"
  by (induction s arbitrary: w) (fastforce split: list.splits if_splits)+

lemma set_join_ch: "set (join_ch d ws) \<subseteq> set d \<union> \<Union> (set ` set ws)"
  by (induction d ws rule: join_ch.induct) auto

lemma join_split: "join_ch [d] (split_ch d s) = s"
proof (induction s)
  case (Cons c cs)
  then show ?case
    by (cases "split_ch d cs") (auto, (case_tac list; simp)+)
qed simp

lemma split_join:
  "ws \<noteq> [] \<Longrightarrow> (\<And>w. w \<in> set ws \<Longrightarrow> d \<notin> set w) \<Longrightarrow> split_ch d (join_ch [d] ws) = ws"
  by (induction "[d]" ws rule: join_ch.induct) (auto simp: split_ch_absent split_ch_append)

text \<open>\<open>s.trim()\<close> for the ASCII white space.\<close>

definition is_space :: "char \<Rightarrow> bool" where
  "is_space c \<longleftrightarrow> c \<in> set [CHR '' '', CHR 0x09, CHR 0x0A, CHR 0x0B, CHR 0x0C, CHR 0x0D]"

definition trim :: "string \<Rightarrow> string" where
  "trim s = rev (dropWhile is_space (rev (dropWhile is_space s)))"

lemma dropWhile_none: "(\<And>c. c \<in> set s \<Longrightarrow> \<not> P c) \<Longrightarrow> dropWhile P s = s"
  by (cases s) auto

lemma trim_id: "(\<And>c. c \<in> set s \<Longrightarrow> \<not> is_space c) \<Longrightarrow> trim s = s"
  using dropWhile_none [of s is_space] dropWhile_none [of "rev s" is_space]
  by (simp add: trim_def)

lemma trim_idem: "trim (trim s) = trim s"
proof -
  let ?u = "dropWhile is_space s"
  have drop: "dropWhile is_space xs = [] \<or> \<not> is_space (hd (dropWhile is_space xs))" for xs
    using hd_dropWhile [of is_space xs] by blast
  have "?u = trim s @ rev (takeWhile is_space (rev ?u))"
    by (metis rev_append rev_rev_ident takeWhile_dropWhile_id trim_def)
  then have "trim s = [] \<or> hd (trim s) = hd ?u" by (metis hd_append2)
  moreover have "trim s = [] \<or> ?u \<noteq> []" by (metis dropWhile.simps(1) rev.simps(1) trim_def)
  moreover have same: "xs = [] \<or> \<not> is_space (hd xs) \<Longrightarrow> dropWhile is_space xs = xs" for xs
    by (cases xs) auto
  ultimately have "dropWhile is_space (trim s) = trim s"
    using drop [of s] by metis
  moreover have "dropWhile is_space (rev (trim s)) = rev (trim s)"
    unfolding trim_def rev_rev_ident by (rule same [OF drop])
  ultimately show ?thesis by (simp add: trim_def [of "trim s"])
qed

lemma set_trim: "set (trim s) \<subseteq> set s"
  unfolding trim_def by (metis set_dropWhileD set_rev subsetI)

text \<open>A text in double quotes.\<close>

definition quoted :: "string \<Rightarrow> string" where
  "quoted s = CHR 0x22 # s @ [CHR 0x22]"

text \<open>\<open>s.toLowerCase()\<close> on ASCII.\<close>

definition lower_char :: "char \<Rightarrow> char" where
  "lower_char c = (let n = of_char c :: nat in
     if 65 \<le> n \<and> n \<le> 90 then char_of (n + 32) else c)"

definition to_lower :: "string \<Rightarrow> string" where
  "to_lower s = map lower_char s"

lemma length_to_lower [simp]: "length (to_lower s) = length s"
  by (simp add: to_lower_def)

lemma lower_char_idem [simp]: "lower_char (lower_char c) = lower_char c"
  by (simp add: lower_char_def Let_def)

lemma to_lower_idem [simp]: "to_lower (to_lower s) = to_lower s"
  by (simp add: to_lower_def)

section \<open>Ordered objects\<close>

text \<open>
  \<open>obj[k] = v\<close> and \<open>map.set(k, v)\<close>: an existing key keeps its position, a new
  one goes to the end; \<open>delete obj[k]\<close> removes it.
\<close>

type_synonym ('k, 'v) obj = "('k \<times> 'v) list"

fun obj_set :: "'k \<Rightarrow> 'v \<Rightarrow> ('k, 'v) obj \<Rightarrow> ('k, 'v) obj" where
  "obj_set k v [] = [(k, v)]"
| "obj_set k v ((k', v') # m) = (if k' = k then (k, v) # m else (k', v') # obj_set k v m)"

abbreviation obj_get :: "('k, 'v) obj \<Rightarrow> 'k \<Rightarrow> 'v option" where
  "obj_get m k \<equiv> map_of m k"

definition obj_del :: "'k \<Rightarrow> ('k, 'v) obj \<Rightarrow> ('k, 'v) obj" where
  "obj_del k m = filter (\<lambda>p. fst p \<noteq> k) m"

abbreviation keys :: "('k, 'v) obj \<Rightarrow> 'k list" where
  "keys m \<equiv> map fst m"

abbreviation keyset :: "('k, 'v) obj \<Rightarrow> 'k set" where
  "keyset m \<equiv> set (keys m)"

text \<open>\<open>{...a, ...b}\<close>: the entries of \<open>b\<close> are written over those of \<open>a\<close> in order.\<close>

definition obj_merge :: "('k, 'v) obj \<Rightarrow> ('k, 'v) obj \<Rightarrow> ('k, 'v) obj" where
  "obj_merge a b = foldl (\<lambda>m (k, v). obj_set k v m) a b"

lemma obj_get_set [simp]: "obj_get (obj_set k v m) k' = (if k' = k then Some v else obj_get m k')"
  by (induction m) auto

lemma obj_get_del [simp]: "obj_get (obj_del k m) k' = (if k' = k then None else obj_get m k')"
  by (induction m) (auto simp: obj_del_def)

lemma keyset_obj_set [simp]: "fst ` set (obj_set k v m) = insert k (fst ` set m)"
  by (induction m rule: obj_set.induct) (simp_all add: insert_commute)

lemma set_keys_obj_del [simp]: "fst ` set (obj_del k m) = fst ` set m - {k}"
  by (auto simp: obj_del_def)

lemma distinct_obj_set [intro]: "distinct (keys m) \<Longrightarrow> distinct (keys (obj_set k v m))"
  by (induction m) auto

lemma distinct_obj_del [intro]: "distinct (keys m) \<Longrightarrow> distinct (keys (obj_del k m))"
  by (induction m) (auto simp: obj_del_def)

lemma obj_set_new: "k \<notin> fst ` set m \<Longrightarrow> obj_set k v m = m @ [(k, v)]"
  by (induction m) auto

lemma obj_set_id: "obj_get m k = Some v \<Longrightarrow> distinct (keys m) \<Longrightarrow> obj_set k v m = m"
  by (induction m) auto

lemma length_obj_set:
  "length (obj_set k v m) = (if k \<in> fst ` set m then length m else Suc (length m))"
  by (induction m rule: obj_set.induct) simp_all

lemma obj_get_None_iff: "obj_get m k = None \<longleftrightarrow> k \<notin> fst ` set m"
  by (simp add: map_of_eq_None_iff)

lemma obj_get_merge:
  "distinct (keys b) \<Longrightarrow>
   obj_get (obj_merge a b) k = (case obj_get b k of None \<Rightarrow> obj_get a k | Some v \<Rightarrow> Some v)"
proof (induction b arbitrary: a)
  case (Cons p b)
  obtain k' v' where p: "p = (k', v')" by (cases p)
  have "obj_get b k' = None" using Cons.prems by (simp add: p obj_get_None_iff)
  moreover have "obj_merge a (p # b) = obj_merge (obj_set k' v' a) b"
    by (simp add: obj_merge_def p)
  ultimately show ?case using Cons
    by (simp add: p split: option.splits)
qed (simp add: obj_merge_def)

lemma distinct_obj_merge: "distinct (keys a) \<Longrightarrow> distinct (keys (obj_merge a b))"
  by (induction b arbitrary: a) (auto simp: obj_merge_def split: prod.splits)

end
