(* ===== verification/Caches.thy ===== *)
theory Caches
  imports Prelude
begin

text \<open>
  \<open>src/util/cacheFactory.ts\<close> and \<open>src/util/queue.ts\<close>: the expiring cache that
  the pending transactions, the identity cache and the domain caches are
  instances of, and the FIFO queue of the storage callbacks and of the upload
  progress.  \<open>Date.now()\<close> is the argument \<open>now\<close>; each method reads the clock
  once.  The interface of the cache that its clients rely on is the locale
  \<open>expiring_store\<close>, interpreted at the end on the model of the class.
\<close>

section \<open>CacheFactory\<close>

text \<open>The limit \<open>Infinity\<close> is \<^const>\<open>None\<close>.\<close>

record ('k, 'v) cache =
  ttlMs :: int
  entries :: "('k, int \<times> 'v) obj"
  limit :: "nat option"

definition new_cache :: "int \<Rightarrow> nat option \<Rightarrow> ('k, 'v) cache" where
  "new_cache ttl lim =
     \<lparr>ttlMs = ttl, entries = [], limit = (if lim = Some 0 then None else lim)\<rparr>"

text \<open>The test \<open>id?.exp && Date.now() > id.exp\<close>; an expiry of 0 counts as absent.\<close>

definition is_expired :: "int \<Rightarrow> int \<times> 'v \<Rightarrow> bool" where
  "is_expired now e = (fst e \<noteq> 0 \<and> now > fst e)"

definition checkExpired :: "int \<Rightarrow> 'k \<Rightarrow> ('k, 'v) cache \<Rightarrow> ('k, 'v) cache" where
  "checkExpired now k c =
     (case obj_get (entries c) k of
        None \<Rightarrow> c
      | Some e \<Rightarrow> if is_expired now e then c\<lparr>entries := obj_del k (entries c)\<rparr> else c)"

definition dropFirst :: "('k, 'v) cache \<Rightarrow> ('k, 'v) cache" where
  "dropFirst c =
     (case entries c of [] \<Rightarrow> c | (k, _) # _ \<Rightarrow> c\<lparr>entries := obj_del k (entries c)\<rparr>)"

definition add :: "int \<Rightarrow> 'k \<Rightarrow> 'v \<Rightarrow> ('k, 'v) cache \<Rightarrow> ('k, 'v) cache" where
  "add now k v c =
     (let c' = (if limit c = Some (length (entries c)) then dropFirst c else c)
      in c'\<lparr>entries := obj_set k (now + ttlMs c', v) (entries c')\<rparr>)"

definition get :: "int \<Rightarrow> 'k \<Rightarrow> ('k, 'v) cache \<Rightarrow> ('k, 'v) cache \<times> 'v option" where
  "get now k c =
     (let c' = checkExpired now k c in (c', map_option snd (obj_get (entries c') k)))"

definition has :: "int \<Rightarrow> 'k \<Rightarrow> ('k, 'v) cache \<Rightarrow> ('k, 'v) cache \<times> bool" where
  "has now k c =
     (let c' = checkExpired now k c in (c', obj_get (entries c') k \<noteq> None))"

definition rm :: "'k \<Rightarrow> ('k, 'v) cache \<Rightarrow> ('k, 'v) cache \<times> bool" where
  "rm k c = (c\<lparr>entries := obj_del k (entries c)\<rparr>, obj_get (entries c) k \<noteq> None)"

definition cache_size :: "('k, 'v) cache \<Rightarrow> nat" where
  "cache_size c = length (entries c)"

definition clear :: "int \<Rightarrow> ('k, 'v) cache \<Rightarrow> ('k, 'v) cache" where
  "clear now c = foldl (\<lambda>c k. checkExpired now k c) c (keys (entries c))"

definition drop_all :: "('k, 'v) cache \<Rightarrow> ('k, 'v) cache" where
  "drop_all c = c\<lparr>entries := []\<rparr>"

definition toObj :: "('k, 'v) cache \<Rightarrow> ('k, int \<times> 'v) obj" where
  "toObj c = obj_merge [] (entries c)"

subsection \<open>Invariant: a key occurs once and the limit is respected\<close>

definition cache_inv :: "('k, 'v) cache \<Rightarrow> bool" where
  "cache_inv c \<longleftrightarrow> distinct (keys (entries c)) \<and>
     (\<forall>n. limit c = Some n \<longrightarrow> 0 < n \<and> length (entries c) \<le> n)"

lemma cache_inv_new [inv_intros]: "cache_inv (new_cache ttl lim)"
  by (auto simp: cache_inv_def new_cache_def split: if_splits)

lemma length_obj_del: "length (obj_del k m) \<le> length m"
  by (simp add: obj_del_def)

lemma obj_del_hd:
  "distinct (keys ((k, v) # m)) \<Longrightarrow> obj_del k ((k, v) # m) = m"
  by (auto simp: obj_del_def filter_id_conv)

lemma checkExpired_fields [simp]:
  "ttlMs (checkExpired now k c) = ttlMs c" "limit (checkExpired now k c) = limit c"
  by (auto simp: checkExpired_def split: option.splits)

lemma dropFirst_fields [simp]:
  "ttlMs (dropFirst c) = ttlMs c" "limit (dropFirst c) = limit c"
  by (auto simp: dropFirst_def split: list.splits)

lemma dropFirst_entries:
  "distinct (keys (entries c)) \<Longrightarrow> entries (dropFirst c) = tl (entries c)"
  by (auto simp: dropFirst_def obj_del_hd split: list.splits)

lemma add_fields [simp]: "ttlMs (add now k v c) = ttlMs c" "limit (add now k v c) = limit c"
  by (auto simp: add_def Let_def)

lemma cache_inv_checkExpired [inv_intros]: "cache_inv c \<Longrightarrow> cache_inv (checkExpired now k c)"
  using length_obj_del [of k "entries c"]
  by (auto simp: cache_inv_def checkExpired_def split: option.splits)

lemma cache_inv_get [inv_intros]: "cache_inv c \<Longrightarrow> cache_inv (fst (get now k c))"
  by (simp add: get_def Let_def cache_inv_checkExpired)

lemma cache_inv_has [inv_intros]: "cache_inv c \<Longrightarrow> cache_inv (fst (has now k c))"
  by (simp add: has_def Let_def cache_inv_checkExpired)

lemma cache_inv_rm [inv_intros]: "cache_inv c \<Longrightarrow> cache_inv (fst (rm k c))"
  using length_obj_del [of k "entries c"] by (auto simp: cache_inv_def rm_def)

lemma cache_inv_clear [inv_intros]: "cache_inv c \<Longrightarrow> cache_inv (clear now c)"
proof -
  have "cache_inv d \<Longrightarrow> cache_inv (foldl (\<lambda>c k. checkExpired now k c) d ks)" for d ks
    by (induction ks arbitrary: d) (auto intro: cache_inv_checkExpired)
  then show "cache_inv c \<Longrightarrow> cache_inv (clear now c)" by (simp add: clear_def)
qed

lemma cache_inv_drop_all [inv_intros]: "cache_inv c \<Longrightarrow> cache_inv (drop_all c)"
  by (auto simp: cache_inv_def drop_all_def)

lemma cache_inv_add [inv_intros]:
  assumes "cache_inv c" shows "cache_inv (add now k v c)"
proof -
  let ?c = "if limit c = Some (length (entries c)) then dropFirst c else c"
  have d: "distinct (keys (entries ?c))" and l: "\<And>n. limit c = Some n \<Longrightarrow> length (entries ?c) < n"
    using assms by (auto simp: cache_inv_def dropFirst_entries map_tl distinct_tl)
  have o: "length (obj_set k e (entries ?c)) \<le> Suc (length (entries ?c))" for e
    by (simp add: length_obj_set)
  have a: "entries (add now k v c) = obj_set k (now + ttlMs c, v) (entries ?c)"
    by (simp add: add_def Let_def)
  have "0 < n \<and> length (entries (add now k v c)) \<le> n" if "limit c = Some n" for n
    using l [OF that] o [of "(now + ttlMs c, v)"] unfolding a by linarith
  moreover have "distinct (keys (entries (add now k v c)))"
    unfolding a using d by (rule distinct_obj_set)
  ultimately show ?thesis by (simp add: cache_inv_def)
qed

text \<open>Operations as data, so that the invariant lifts to every run of the class.\<close>

datatype ('k, 'v) cache_op =
    OpAdd int 'k 'v | OpGet int 'k | OpHas int 'k | OpRm 'k | OpClear int | OpDrop

fun cache_step :: "('k, 'v) cache \<Rightarrow> ('k, 'v) cache_op \<Rightarrow> ('k, 'v) cache" where
  "cache_step c (OpAdd now k v) = add now k v c"
| "cache_step c (OpGet now k) = fst (get now k c)"
| "cache_step c (OpHas now k) = fst (has now k c)"
| "cache_step c (OpRm k) = fst (rm k c)"
| "cache_step c (OpClear now) = clear now c"
| "cache_step c OpDrop = drop_all c"

lemma cache_inv_step: "cache_inv c \<Longrightarrow> cache_inv (cache_step c x)"
  by (cases x) (auto intro: inv_intros)

lemma cache_inv_run: "cache_inv c \<Longrightarrow> cache_inv (foldl cache_step c xs)"
  by (induction xs arbitrary: c) (auto intro: cache_inv_step)

lemma cache_limit_run: "limit (foldl cache_step c xs) = limit c"
proof (induction xs arbitrary: c)
  case (Cons x xs)
  have "limit (foldl (\<lambda>c k. checkExpired now k c) d ks) = limit d"
    for now d and ks :: "'a list"
    by (induction ks arbitrary: d) auto
  then have "limit (cache_step c x) = limit c"
    by (cases x) (auto simp: get_def has_def rm_def clear_def drop_all_def Let_def)
  with Cons show ?case by simp
qed simp

subsection \<open>Lookup laws\<close>

definition live :: "int \<Rightarrow> ('k, 'v) cache \<Rightarrow> 'k \<Rightarrow> 'v option" where
  "live now c k =
     (case obj_get (entries c) k of
        None \<Rightarrow> None | Some e \<Rightarrow> if is_expired now e then None else Some (snd e))"

lemma limit_get: "limit (fst (get t k c)) = limit c"
  by (simp add: get_def Let_def)

lemma limit_rm: "limit (fst (rm k c)) = limit c"
  by (simp add: rm_def)

lemma snd_get: "snd (get now k c) = live now c k"
  by (auto simp: get_def live_def checkExpired_def Let_def split: option.splits)

lemma snd_has: "snd (has now k c) = (live now c k \<noteq> None)"
  by (auto simp: has_def live_def checkExpired_def Let_def split: option.splits)

lemma live_get:
  "live t' (fst (get t k c)) k' =
     (if k' = k \<and> live t c k = None then None else live t' c k')"
  by (auto simp: get_def live_def checkExpired_def Let_def split: option.splits)

lemma live_rm: "live t (fst (rm k c)) k' = (if k' = k then None else live t c k')"
  by (auto simp: rm_def live_def)

lemma live_add_same:
  "live t (add now k v c) k = (if is_expired t (now + ttlMs c, v) then None else Some v)"
  by (simp add: live_def add_def Let_def)

lemma live_add_other:
  "limit c = None \<Longrightarrow> k' \<noteq> k \<Longrightarrow> live t (add now k v c) k' = live t c k'"
  by (simp add: live_def add_def Let_def)

lemma entries_foldl_checkExpired:
  "distinct (keys (entries d)) \<Longrightarrow>
   entries (foldl (\<lambda>c k. checkExpired now k c) d ks) =
     filter (\<lambda>(k, e). \<not> (k \<in> set ks \<and> is_expired now e)) (entries d)"
proof (induction ks arbitrary: d)
  case (Cons k ks)
  have e: "entries (checkExpired now k d) =
      filter (\<lambda>(k', e). \<not> (k' = k \<and> is_expired now e)) (entries d)" (is "_ = ?R")
  proof (cases "obj_get (entries d) k")
    case None
    then have "\<And>x. x \<in> set (entries d) \<Longrightarrow> fst x \<noteq> k"
      by (force simp: map_of_eq_None_iff)
    then have "?R = entries d" by (intro filter_True) force
    with None show ?thesis by (simp add: checkExpired_def)
  next
    case (Some e)
    then have u: "\<And>x. x \<in> set (entries d) \<Longrightarrow> fst x = k \<Longrightarrow> snd x = e"
      using Cons.prems by (metis map_of_is_SomeI option.inject prod.collapse)
    then have "?R = (if is_expired now e then obj_del k (entries d) else entries d)"
      unfolding obj_del_def by (auto intro!: filter_cong filter_True)
    with Some show ?thesis by (simp add: checkExpired_def)
  qed
  then have "distinct (keys (entries (checkExpired now k d)))"
    using Cons.prems by (simp add: distinct_map inj_on_def)
  with Cons.IH [OF this] e show ?case
    by (auto simp: filter_filter intro!: filter_cong)
qed simp

lemma entries_clear:
  assumes "cache_inv c"
  shows "entries (clear now c) = filter (\<lambda>(_, e). \<not> is_expired now e) (entries c)"
  using assms unfolding clear_def cache_inv_def
  by (auto simp: entries_foldl_checkExpired intro!: filter_cong) force

section \<open>The interface of an expiring store\<close>

locale expiring_store =
  fixes put :: "int \<Rightarrow> 'k \<Rightarrow> 'v \<Rightarrow> 's \<Rightarrow> 's"
    and look :: "int \<Rightarrow> 'k \<Rightarrow> 's \<Rightarrow> 's \<times> 'v option"
    and remove :: "'k \<Rightarrow> 's \<Rightarrow> 's \<times> bool"
    and view :: "int \<Rightarrow> 's \<Rightarrow> 'k \<Rightarrow> 'v option"
    and ttl :: "'s \<Rightarrow> int"
    and ok :: "'s \<Rightarrow> bool"
  assumes look_view: "snd (look t k s) = view t s k"
    and view_look: "view t' (fst (look t k s)) k' =
          (if k' = k \<and> view t s k = None then None else view t' s k')"
    and view_put_live: "ok s \<Longrightarrow> t \<le> now + ttl s \<Longrightarrow> view t (put now k v s) k = Some v"
    and view_put_stale: "ok s \<Longrightarrow> now + ttl s \<noteq> 0 \<Longrightarrow> now + ttl s < t \<Longrightarrow>
          view t (put now k v s) k = None"
    and view_put_other: "ok s \<Longrightarrow> k' \<noteq> k \<Longrightarrow> view t (put now k v s) k' = view t s k'"
    and view_remove: "view t (fst (remove k s)) k' = (if k' = k then None else view t s k')"
    and ok_put: "ok s \<Longrightarrow> ok (put now k v s)"
    and ok_look: "ok s \<Longrightarrow> ok (fst (look t k s))"
    and ok_remove: "ok s \<Longrightarrow> ok (fst (remove k s))"
begin

lemma look_put: "ok s \<Longrightarrow> t \<le> now + ttl s \<Longrightarrow> snd (look t k (put now k v s)) = Some v"
  by (simp add: look_view view_put_live)

lemma look_put_other: "ok s \<Longrightarrow> k' \<noteq> k \<Longrightarrow> snd (look t k' (put now k v s)) = snd (look t k' s)"
  by (simp add: look_view view_put_other)

lemma look_removed: "snd (look t k (fst (remove k s))) = None"
  by (simp add: look_view view_remove)

text \<open>A removed key stays absent while other keys are read, stored and removed.\<close>

lemma absent_look: "view t s k = None \<Longrightarrow> view t (fst (look t' k' s)) k = None"
  by (simp add: view_look)

lemma absent_put_other:
  "ok s \<Longrightarrow> k' \<noteq> k \<Longrightarrow> view t s k = None \<Longrightarrow> view t (put now k' v s) k = None"
  by (simp add: view_put_other)

end

definition unlimited :: "('k, 'v) cache \<Rightarrow> bool" where
  "unlimited c \<longleftrightarrow> cache_inv c \<and> limit c = None"

interpretation cf: expiring_store add get rm live ttlMs unlimited
proof unfold_locales
  show "unlimited s \<Longrightarrow> t \<le> now + ttlMs s \<Longrightarrow> live t (add now k v s) k = Some v"
    for s :: "('a, 'b) cache" and t now k v
    by (simp add: live_add_same is_expired_def)
qed (simp_all add: snd_get live_get live_rm live_add_same live_add_other is_expired_def
       unlimited_def cache_inv_add cache_inv_get cache_inv_rm limit_get limit_rm)

lemma unlimited_new: "unlimited (new_cache ttl None)"
  by (simp add: unlimited_def cache_inv_new) (simp add: new_cache_def)

section \<open>Properties of the cache\<close>

text \<open>C24: after any sequence of operations on a new cache, every key occurs once and the
  number of entries is at most the limit.\<close>

theorem cache_bounded_on_every_run:
  assumes "c = foldl cache_step (new_cache ttl lim) xs"
  shows "distinct (keys (entries c)) \<and>
    (\<forall>n. lim = Some n \<longrightarrow> 0 < n \<longrightarrow> cache_size c \<le> n)"
proof -
  have i: "cache_inv c" unfolding assms by (intro cache_inv_run cache_inv_new)
  have l: "limit c = (if lim = Some 0 then None else lim)"
    unfolding assms cache_limit_run by (simp add: new_cache_def)
  have "cache_size c \<le> n" if "lim = Some n" "0 < n" for n
    using i l that unfolding cache_inv_def cache_size_def by simp
  with i show ?thesis unfolding cache_inv_def by blast
qed

lemma cache_bounded_witness:
  "cache_size (foldl cache_step (new_cache 10 (Some 2))
     [OpAdd 0 1 ''a'', OpAdd 1 2 ''b'', OpAdd 2 (3::nat) ''c'']) \<le> 2"
  by (rule cache_bounded_on_every_run [OF refl, THEN conjunct2, rule_format, OF refl])
    (rule zero_less_numeral)

section \<open>Queue\<close>

type_synonym 'a queue = "'a list"

definition enqueue :: "'a \<Rightarrow> 'a queue \<Rightarrow> 'a queue" where
  "enqueue x q = q @ [x]"

definition dequeue :: "'a queue \<Rightarrow> 'a queue \<times> 'a option" where
  "dequeue q = (case q of [] \<Rightarrow> ([], None) | x # xs \<Rightarrow> (xs, Some x))"

definition peek :: "'a queue \<Rightarrow> 'a option" where
  "peek q = (case q of [] \<Rightarrow> None | x # _ \<Rightarrow> Some x)"

definition isEmpty :: "'a queue \<Rightarrow> bool" where
  "isEmpty q = (length q = 0)"

end
