(* ===== verification/Codec.thy ===== *)
theory Codec
  imports Prelude
begin

text \<open>
  The string codecs of the JavaScript runtime that the program uses:
  \<open>Buffer.toString('hex')\<close> and \<open>Buffer.from(s, 'hex')\<close>, the decimal form of
  integers, and \<open>Number(s)\<close>/\<open>parseInt(s)\<close> on digits, with their round trips.
\<close>

section \<open>Hexadecimal\<close>

definition hex_digit :: "nat \<Rightarrow> char" where
  "hex_digit n = (if n < 10 then char_of (n + 48) else char_of (n + 87))"

definition hex_val :: "char \<Rightarrow> nat option" where
  "hex_val c = (let n = of_char c :: nat in
     if 48 \<le> n \<and> n \<le> 57 then Some (n - 48)
     else if 97 \<le> n \<and> n \<le> 102 then Some (n - 87)
     else if 65 \<le> n \<and> n \<le> 70 then Some (n - 55) else None)"

fun hex_encode :: "string \<Rightarrow> string" where
  "hex_encode [] = []"
| "hex_encode (c # s) =
     hex_digit (of_char c div 16) # hex_digit (of_char c mod 16) # hex_encode s"

text \<open>Decoding stops at the first pair that is not hexadecimal, and drops an odd last digit.\<close>

fun hex_decode :: "string \<Rightarrow> string" where
  "hex_decode (c # d # s) =
     (case (hex_val c, hex_val d) of
        (Some a, Some b) \<Rightarrow> char_of (16 * a + b) # hex_decode s
      | _ \<Rightarrow> [])"
| "hex_decode _ = []"

lemma hex_val_digit: "n < 16 \<Longrightarrow> hex_val (hex_digit n) = Some n"
  by (auto simp: hex_val_def hex_digit_def Let_def)

lemma of_char_less: "(of_char c :: nat) < 256"
  using nat_of_char_less_256 [of c] by simp

lemma of_char_div16: "(of_char c :: nat) div 16 < 16"
  using of_char_less [of c] by (intro less_mult_imp_div_less) simp

lemma hex_decode_encode [simp]: "hex_decode (hex_encode s) = s"
proof (induction s)
  case (Cons c s)
  then show ?case by (simp add: hex_val_digit of_char_div16)
qed simp

lemma length_hex_encode [simp]: "length (hex_encode s) = 2 * length s"
  by (induction s) auto

lemma hex_encode_inj: "hex_encode s = hex_encode t \<longleftrightarrow> s = t"
  by (metis hex_decode_encode)

definition is_hex_lower :: "char \<Rightarrow> bool" where
  "is_hex_lower c \<longleftrightarrow> c \<in> set ''0123456789abcdef''"

definition is_hex :: "char \<Rightarrow> bool" where
  "is_hex c \<longleftrightarrow> c \<in> set ''0123456789abcdefABCDEF''"

lemma hex_digit_lower: "n < 16 \<Longrightarrow> is_hex_lower (hex_digit n)"
proof -
  have "list_all (\<lambda>n. is_hex_lower (hex_digit n)) [0..<16]" by code_simp
  then show "n < 16 \<Longrightarrow> is_hex_lower (hex_digit n)" by (simp add: list_all_iff)
qed

lemma is_hex_lower_encode: "c \<in> set (hex_encode s) \<Longrightarrow> is_hex_lower c"
proof (induction s)
  case (Cons d s)
  then show ?case by (auto intro: hex_digit_lower of_char_div16)
qed simp

lemma is_hex_if_lower: "is_hex_lower c \<Longrightarrow> is_hex c"
  by (auto simp: is_hex_lower_def is_hex_def)

text \<open>The prefix \<open>0x\<close>.\<close>

definition strip0x :: "string \<Rightarrow> string" where
  "strip0x s = (if starts_with ''0x'' s then drop 2 s else s)"

definition with0x :: "string \<Rightarrow> string" where
  "with0x s = (if starts_with ''0x'' s then s else ''0x'' @ s)"

lemma strip0x_hex [simp]: "strip0x (hex_encode s) = hex_encode s"
proof -
  have "\<not> starts_with ''0x'' (hex_encode s)"
  proof
    assume "starts_with ''0x'' (hex_encode s)"
    then have "CHR ''x'' \<in> set (hex_encode s)" by (auto simp: starts_with_iff)
    then show False using is_hex_lower_encode by (fastforce simp: is_hex_lower_def)
  qed
  then show ?thesis by (simp add: strip0x_def)
qed

section \<open>Decimal\<close>

definition digit_char :: "nat \<Rightarrow> char" where
  "digit_char n = char_of (48 + n)"

definition is_digit :: "char \<Rightarrow> bool" where
  "is_digit c \<longleftrightarrow> (let n = of_char c :: nat in 48 \<le> n \<and> n \<le> 57)"

definition digit_val :: "char \<Rightarrow> nat" where
  "digit_val c = of_char c - 48"

fun show_nat :: "nat \<Rightarrow> string" where
  "show_nat n = (if n < 10 then [digit_char n] else show_nat (n div 10) @ [digit_char (n mod 10)])"

declare show_nat.simps [simp del]

definition show_int :: "int \<Rightarrow> string" where
  "show_int i = (if i < 0 then ''-'' @ show_nat (nat (- i)) else show_nat (nat i))"

definition dec_val :: "string \<Rightarrow> nat" where
  "dec_val s = foldl (\<lambda>a c. 10 * a + digit_val c) 0 s"

definition read_nat :: "string \<Rightarrow> nat option" where
  "read_nat s = (if s \<noteq> [] \<and> list_all is_digit s then Some (dec_val s) else None)"

lemma digit_char [simp]:
  "n < 10 \<Longrightarrow> is_digit (digit_char n)" "n < 10 \<Longrightarrow> digit_val (digit_char n) = n"
  by (simp_all add: is_digit_def digit_val_def digit_char_def Let_def)

lemma show_nat_digits: "list_all is_digit (show_nat n)"
  by (induction n rule: show_nat.induct) (subst show_nat.simps, auto)

lemma show_nat_not_Nil [simp]: "show_nat n \<noteq> []"
  by (subst show_nat.simps) auto

lemma dec_val_show [simp]: "dec_val (show_nat n) = n"
proof (induction n rule: show_nat.induct)
  case (1 n)
  show ?case
  proof (cases "n < 10")
    case False
    then have "dec_val (show_nat n) = 10 * dec_val (show_nat (n div 10)) + n mod 10"
      by (subst show_nat.simps) (simp add: dec_val_def)
    with 1 False show ?thesis by simp
  qed (subst show_nat.simps, simp add: dec_val_def)
qed

lemma read_show_nat [simp]: "read_nat (show_nat n) = Some n"
  by (simp add: read_nat_def show_nat_digits)

lemma show_nat_inj: "show_nat m = show_nat n \<longleftrightarrow> m = n"
  by (metis dec_val_show)

lemma hd_show_nat: "n \<noteq> 0 \<Longrightarrow> hd (show_nat n) \<noteq> CHR ''0''"
proof (induction n rule: show_nat.induct)
  case (1 n)
  show ?case
  proof (cases "n < 10")
    case True
    have "digit_val (CHR ''0'') = 0" by (simp add: digit_val_def)
    moreover have "hd (show_nat n) = digit_char n" using True by (subst show_nat.simps) simp
    ultimately show ?thesis using True 1 by (metis digit_char(2))
  next
    case False
    then have "hd (show_nat n) = hd (show_nat (n div 10))" by (subst show_nat.simps) simp
    with False 1 show ?thesis by simp
  qed
qed

section \<open>Index keys\<close>

text \<open>The entries of an array as \<open>for ... in\<close> sees them.\<close>

definition index_entries :: "nat \<Rightarrow> 'a list \<Rightarrow> (string \<times> 'a) list" where
  "index_entries n xs = map (\<lambda>(i, x). (show_nat i, x)) (enumerate n xs)"

lemma index_entries_simps [simp]:
  "index_entries n [] = []" "index_entries n (x # xs) = (show_nat n, x) # index_entries (Suc n) xs"
  by (simp_all add: index_entries_def)

end
