(* ===== verification/Cookies.thy ===== *)
theory Cookies
  imports Codec
begin

text \<open>
  \<open>src/util/cookieString.ts\<close>: the \<open>key=value;key=value\<close> strings in which the
  Point data of a foreign domain is kept, and \<open>src/name_service/registry.ts\<close>,
  which reads that data.  \<open>keccak256\<close> and the checksum of an address come from
  libraries and are parameters.
\<close>

section \<open>Cookie strings\<close>

definition parse_pair :: "string \<Rightarrow> (string \<times> string) option" where
  "parse_pair pair =
     (case split_ch CHR ''='' pair of
        [a, b] \<Rightarrow> (let k = trim a; v = trim b in if k \<noteq> [] \<and> v \<noteq> [] then Some (k, v) else None)
      | _ \<Rightarrow> None)"

definition parseCookieString :: "string \<Rightarrow> (string, string) obj" where
  "parseCookieString str =
     foldl (\<lambda>m pair. case parse_pair pair of None \<Rightarrow> m | Some (k, v) \<Rightarrow> obj_set k v m)
       [] (split_ch CHR '';'' str)"

definition encodeCookieString :: "(string, string) obj \<Rightarrow> string" where
  "encodeCookieString obj =
     replace_suffix '';'' [] (concat (map (\<lambda>(k, v). k @ CHR ''='' # v @ '';'') obj))"

text \<open>A string property is true when it is present and not empty.\<close>

definition truthy :: "string option \<Rightarrow> bool" where
  "truthy x = (case x of None \<Rightarrow> False | Some s \<Rightarrow> s \<noteq> [])"

definition mergeAndResolveConflicts ::
  "string \<Rightarrow> (string, string) obj \<Rightarrow> (string, string) obj" where
  "mergeAndResolveConflicts old obj =
     (let prevData = parseCookieString old;
          prevData' =
            (if truthy (obj_get obj ''pn_alias'')
             then obj_del ''pn_routes'' (obj_del ''pn_root'' prevData)
             else if truthy (obj_get obj ''pn_root'') then obj_del ''pn_alias'' prevData
             else prevData)
      in obj_merge prevData' obj)"

subsection \<open>Round trip\<close>

text \<open>A field that survives: not empty, no separator inside, no white space at its ends.\<close>

definition clean_field :: "string \<Rightarrow> bool" where
  "clean_field s \<longleftrightarrow> s \<noteq> [] \<and> CHR '';'' \<notin> set s \<and> CHR ''='' \<notin> set s \<and> trim s = s"

definition clean_cookies :: "(string, string) obj \<Rightarrow> bool" where
  "clean_cookies obj \<longleftrightarrow> distinct (keys obj) \<and>
     list_all (\<lambda>(k, v). clean_field k \<and> clean_field v) obj"

definition cookie_pair :: "string \<times> string \<Rightarrow> string" where
  "cookie_pair = (\<lambda>(k, v). k @ CHR ''='' # v)"

lemma concat_pairs:
  "obj \<noteq> [] \<Longrightarrow> concat (map (\<lambda>(k, v). k @ CHR ''='' # v @ '';'') obj) = join_ch '';'' (map cookie_pair obj) @ '';''"
proof (induction obj)
  case (Cons p ps)
  then show ?case by (cases ps) (auto simp: cookie_pair_def split: prod.splits)
qed simp

lemma encode_join: "encodeCookieString obj = join_ch '';'' (map cookie_pair obj)"
proof (cases "obj = []")
  case False
  then show ?thesis by (simp add: encodeCookieString_def concat_pairs)
qed (simp add: encodeCookieString_def replace_suffix_def ends_with_def starts_with_def)

lemma parse_cookie_pair:
  "clean_field k \<Longrightarrow> clean_field v \<Longrightarrow> parse_pair (cookie_pair (k, v)) = Some (k, v)"
  by (simp add: parse_pair_def clean_field_def cookie_pair_def split_ch_append split_ch_absent)

lemma foldl_parse_pairs:
  "list_all (\<lambda>(k, v). clean_field k \<and> clean_field v) obj \<Longrightarrow> distinct (keys (m @ obj)) \<Longrightarrow>
   foldl (\<lambda>m pair. case parse_pair pair of None \<Rightarrow> m | Some (k, v) \<Rightarrow> obj_set k v m) m
     (map cookie_pair obj) = m @ obj"
proof (induction obj arbitrary: m)
  case (Cons p ps)
  obtain k v where p: "p = (k, v)" by (cases p)
  have "obj_set k v m = m @ [(k, v)]" using Cons.prems by (intro obj_set_new) (auto simp: p)
  moreover have "parse_pair (cookie_pair (k, v)) = Some (k, v)"
    using Cons.prems by (intro parse_cookie_pair) (auto simp: p)
  ultimately show ?case using Cons by (simp add: p)
qed simp

lemma parse_encode_cookies:
  assumes "clean_cookies obj" "obj \<noteq> []"
  shows "parseCookieString (encodeCookieString obj) = obj"
proof -
  have "split_ch CHR '';'' (join_ch '';'' (map cookie_pair obj)) = map cookie_pair obj"
    using assms
    by (intro split_join) (auto simp: clean_cookies_def list_all_iff clean_field_def cookie_pair_def)
  with assms show ?thesis
    by (simp add: parseCookieString_def encode_join clean_cookies_def foldl_parse_pairs)
qed

lemma parse_empty: "parseCookieString [] = []"
  by (simp add: parseCookieString_def parse_pair_def)

text \<open>Writing an object of clean fields as a cookie string and reading it back gives the
  same object, in the same order.\<close>

theorem cookie_roundtrip:
  assumes "clean_cookies obj"
  shows "parseCookieString (encodeCookieString obj) = obj"
  using assms parse_encode_cookies
  by (cases "obj = []")
    (simp_all add: encodeCookieString_def replace_suffix_def ends_with_def starts_with_def parse_empty)

lemma cookie_roundtrip_witness:
  "parseCookieString (encodeCookieString [(''pn_key'', ''ab''), (''pn_alias'', ''me'')]) =
     [(''pn_key'', ''ab''), (''pn_alias'', ''me'')]"
  by (rule cookie_roundtrip) code_simp

subsection \<open>What parsing guarantees\<close>

lemma parsed_entries:
  "distinct (keys (parseCookieString s)) \<and>
   list_all (\<lambda>(k, v). k \<noteq> [] \<and> v \<noteq> []) (parseCookieString s)"
proof -
  let ?f = "\<lambda>m pair. case parse_pair pair of None \<Rightarrow> m | Some (k, v) \<Rightarrow> obj_set k v m"
  have set_obj_set: "set (obj_set k v m) \<subseteq> insert (k, v) (set m)" for k v and m :: "(string, string) obj"
    by (induction m) (auto split: if_splits)
  have "distinct (keys m) \<and> list_all (\<lambda>(k, v). k \<noteq> [] \<and> v \<noteq> []) m \<Longrightarrow>
        distinct (keys (foldl ?f m ps)) \<and> list_all (\<lambda>(k, v). k \<noteq> [] \<and> v \<noteq> []) (foldl ?f m ps)" for m ps
  proof (induction ps arbitrary: m)
    case (Cons p ps)
    have "distinct (keys (?f m p)) \<and> list_all (\<lambda>(k, v). k \<noteq> [] \<and> v \<noteq> []) (?f m p)"
    proof (cases "parse_pair p")
      case (Some kv)
      obtain k v where kv: "kv = (k, v)" by (cases kv)
      have "k \<noteq> [] \<and> v \<noteq> []"
        using Some by (auto simp: parse_pair_def kv Let_def split: list.splits if_splits)
      with Some kv Cons.prems set_obj_set [of k v m] show ?thesis
        by (auto simp: list_all_iff)
    qed (use Cons.prems in simp)
    with Cons.IH show ?case by simp
  qed simp
  then show ?thesis by (simp add: parseCookieString_def)
qed

lemma set_obj_set_mem: "e \<in> set (obj_set k v m) \<Longrightarrow> e = (k, v) \<or> e \<in> set m"
  by (induction m) (auto split: if_splits)

lemma clean_cookies_set:
  "clean_cookies m \<Longrightarrow> clean_field k \<Longrightarrow> clean_field v \<Longrightarrow> clean_cookies (obj_set k v m)"
  unfolding clean_cookies_def list_all_iff by (auto dest!: set_obj_set_mem)

lemma encoded_chars:
  "\<forall>(k, v) \<in> set m. CHR 0x00 \<notin> set k \<and> CHR 0x00 \<notin> set v \<Longrightarrow> CHR 0x00 \<notin> set (encodeCookieString m)"
  using set_join_ch [of "'';''" "map cookie_pair m"]
  unfolding encode_join by (fastforce simp: cookie_pair_def)

lemma encoded_not_Nil: "m \<noteq> [] \<Longrightarrow> encodeCookieString m \<noteq> []"
proof -
  assume "m \<noteq> []"
  then obtain p ps where "m = p # ps" by (cases m) auto
  then show ?thesis unfolding encode_join by (cases ps) (auto simp: cookie_pair_def split: prod.splits)
qed

lemma parse_pair_clean:
  assumes "parse_pair p = Some (k, v)" "CHR '';'' \<notin> set p"
  shows "clean_field k \<and> clean_field v \<and> set k \<union> set v \<subseteq> set p"
proof -
  obtain a b where ab: "split_ch CHR ''='' p = [a, b]" "k = trim a" "v = trim b" "k \<noteq> []" "v \<noteq> []"
    using assms(1) by (auto simp: parse_pair_def Let_def split: list.splits if_splits)
  have p: "p = a @ CHR ''='' # b" using join_split [of "CHR ''=''" p] ab(1) by simp
  have "CHR ''='' \<notin> set a" "CHR ''='' \<notin> set b"
    using split_ch_no_sep [of _ "CHR ''=''" p] ab(1) by auto
  with ab p assms(2) set_trim [of a] set_trim [of b] show ?thesis
    by (auto simp: clean_field_def trim_idem)
qed

text \<open>Whatever the string, what is read from it is clean and made of its characters.\<close>

lemma parsed_clean:
  "clean_cookies (parseCookieString s) \<and>
   (\<forall>(k, v) \<in> set (parseCookieString s). set k \<union> set v \<subseteq> set s)"
proof -
  let ?f = "\<lambda>m pair. case parse_pair pair of None \<Rightarrow> m | Some (k, v) \<Rightarrow> obj_set k v m"
  let ?ok = "\<lambda>m. clean_cookies m \<and> (\<forall>(k, v) \<in> set m. set k \<union> set v \<subseteq> set s)"
  have "set ps \<subseteq> set (split_ch CHR '';'' s) \<Longrightarrow> ?ok m \<Longrightarrow> ?ok (foldl ?f m ps)" for m ps
  proof (induction ps arbitrary: m)
    case (Cons p ps)
    have p: "CHR '';'' \<notin> set p" "set p \<subseteq> set s"
      using Cons.prems(1) split_ch_no_sep [of p "CHR '';''" s] set_split_ch [of p "CHR '';''" s] by auto
    have "?ok (?f m p)"
    proof (cases "parse_pair p")
      case (Some kv)
      obtain k v where kv: "kv = (k, v)" by (cases kv)
      have new: "clean_field k \<and> clean_field v" "set k \<union> set v \<subseteq> set s"
        using parse_pair_clean [of p k v] Some kv p by auto
      have "clean_cookies (obj_set k v m)"
        using Cons.prems(2) new(1) by (simp add: clean_cookies_set)
      moreover have "\<forall>(k, v) \<in> set (obj_set k v m). set k \<union> set v \<subseteq> set s"
        using Cons.prems(2) new(2) by (auto dest!: set_obj_set_mem)
      ultimately show ?thesis using Some kv by simp
    qed (use Cons.prems in simp)
    with Cons show ?case by simp
  qed simp
  from this [of "split_ch CHR '';'' s" "[]"] show ?thesis
    by (simp add: parseCookieString_def clean_cookies_def)
qed

lemma obj_get_mergeAndResolve:
  assumes "distinct (keys obj)"
  shows "obj_get (mergeAndResolveConflicts old obj) k =
    (case obj_get obj k of Some v \<Rightarrow> Some v
     | None \<Rightarrow>
         if truthy (obj_get obj ''pn_alias'') \<and> k \<in> {''pn_root'', ''pn_routes''} then None
         else if \<not> truthy (obj_get obj ''pn_alias'') \<and> truthy (obj_get obj ''pn_root'') \<and> k = ''pn_alias''
              then None
         else obj_get (parseCookieString old) k)"
  using assms by (auto simp: mergeAndResolveConflicts_def Let_def obj_get_merge split: option.splits)

text \<open>After a merge the record keeps at most one of the two ways to say where a domain
  lives: a new alias removes the stored root and routes, a new root removes the stored alias,
  and every other stored field survives unless the new object overwrites it.\<close>

theorem merge_resolves_conflicts:
  assumes "distinct (keys obj)"
  shows "(truthy (obj_get obj ''pn_alias'') \<longrightarrow>
      obj_get (mergeAndResolveConflicts old obj) ''pn_root'' = obj_get obj ''pn_root'' \<and>
      obj_get (mergeAndResolveConflicts old obj) ''pn_routes'' = obj_get obj ''pn_routes'') \<and>
    (\<not> truthy (obj_get obj ''pn_alias'') \<longrightarrow> truthy (obj_get obj ''pn_root'') \<longrightarrow>
      obj_get (mergeAndResolveConflicts old obj) ''pn_alias'' = obj_get obj ''pn_alias'') \<and>
    (k \<notin> {''pn_root'', ''pn_routes'', ''pn_alias''} \<longrightarrow>
      obj_get (mergeAndResolveConflicts old obj) k =
        (case obj_get obj k of Some v \<Rightarrow> Some v | None \<Rightarrow> obj_get (parseCookieString old) k))"
  using assms by (auto simp: obj_get_mergeAndResolve split: option.splits)

lemma merge_resolves_conflicts_witness:
  "obj_get (mergeAndResolveConflicts ''pn_root=a;pn_routes=b;pn_key=k'' [(''pn_alias'', ''me'')])
     ''pn_root'' = None"
  using merge_resolves_conflicts [of "[(''pn_alias'', ''me'')]"
      "''pn_root=a;pn_routes=b;pn_key=k''"]
  by (simp add: truthy_def)

section \<open>Registry data of a foreign domain\<close>

definition isValidPublicKeyString :: "string \<Rightarrow> bool" where
  "isValidPublicKeyString key =
     (let k = strip0x key in length k = 128 \<and> list_all is_hex k)"

definition getAddressFromPublicKey :: "(string \<Rightarrow> string) \<Rightarrow> string \<Rightarrow> string" where
  "getAddressFromPublicKey keccak key =
     (let h = keccak (hex_decode (replace_first ''0x'' [] key)) in drop (length h - 20) h)"

record point_domain =
  pointAddress :: string
  pointPublicKey :: string
  pd_identity :: string
  isAlias :: bool
  routesId :: string
  rootDirId :: string

definition or_empty :: "string option \<Rightarrow> string" where
  "or_empty x = (case x of None \<Rightarrow> [] | Some s \<Rightarrow> s)"

definition registry_values :: "string option \<Rightarrow> (string, string) obj" where
  "registry_values content =
     (case content of
        None \<Rightarrow> parseCookieString []
      | Some c \<Rightarrow>
          if starts_with ''ipfs://'' c
          then [(''pn_routes'', ''ipfs://ignore''), (''pn_root'', c), (''pn_key'', [])]
          else parseCookieString c)"

definition parseDomainRegistry ::
  "(string \<Rightarrow> string) \<Rightarrow> (string \<Rightarrow> string) \<Rightarrow> string option \<Rightarrow> point_domain" where
  "parseDomainRegistry keccak checksum content =
     (let values = registry_values content;
          key = or_empty (obj_get values ''pn_key'');
          address = (if isValidPublicKeyString key
                     then checksum (''0x'' @ hex_encode (getAddressFromPublicKey keccak key)) else []);
          alias = truthy (obj_get values ''pn_alias'')
      in \<lparr>pointAddress = address,
          pointPublicKey = key,
          pd_identity = or_empty (obj_get values ''pn_alias''),
          isAlias = alias,
          routesId = (if alias then [] else or_empty (obj_get values ''pn_routes'')),
          rootDirId = (if alias then [] else or_empty (obj_get values ''pn_root''))\<rparr>)"

lemma parseDomainRegistry_alias:
  "isAlias (parseDomainRegistry H ck c) \<Longrightarrow>
     routesId (parseDomainRegistry H ck c) = [] \<and> rootDirId (parseDomainRegistry H ck c) = [] \<and>
     pd_identity (parseDomainRegistry H ck c) \<noteq> []"
  by (auto simp: parseDomainRegistry_def Let_def truthy_def or_empty_def split: option.splits)

lemma parseDomainRegistry_ipfs:
  "starts_with ''ipfs://'' c \<Longrightarrow>
     parseDomainRegistry H ck (Some c) =
       \<lparr>pointAddress = [], pointPublicKey = [], pd_identity = [], isAlias = False,
        routesId = ''ipfs://ignore'', rootDirId = c\<rparr>"
  by (simp add: parseDomainRegistry_def registry_values_def truthy_def or_empty_def
      isValidPublicKeyString_def strip0x_def starts_with_def)

text \<open>What a domain writes for itself is what a resolver reads: the data merged by
  \<open>mergeAndResolveConflicts\<close> and encoded is parsed to the new alias, and an aliased domain
  never yields routes or a root of its own.\<close>

theorem alias_registry_roundtrip:
  assumes "clean_cookies (mergeAndResolveConflicts old obj)" "distinct (keys obj)"
    and "obj_get obj ''pn_alias'' = Some a" "a \<noteq> []"
    and "\<not> starts_with ''ipfs://'' (encodeCookieString (mergeAndResolveConflicts old obj))"
  shows "\<exists>d. parseDomainRegistry H ck (Some (encodeCookieString (mergeAndResolveConflicts old obj))) = d \<and>
    pd_identity d = a \<and> isAlias d \<and> routesId d = [] \<and> rootDirId d = []"
proof -
  let ?m = "mergeAndResolveConflicts old obj"
  have "?m \<noteq> []" using obj_get_mergeAndResolve [OF assms(2), of old "''pn_alias''"] assms(3) by auto
  then have p: "parseCookieString (encodeCookieString ?m) = ?m" by (rule parse_encode_cookies [OF assms(1)])
  have a: "obj_get ?m ''pn_alias'' = Some a" using assms(2,3) by (simp add: obj_get_mergeAndResolve)
  show ?thesis
    using assms(4,5) by (simp add: parseDomainRegistry_def Let_def registry_values_def p a truthy_def or_empty_def)
qed

lemma alias_registry_roundtrip_witness:
  "\<exists>d. parseDomainRegistry (\<lambda>x. x) (\<lambda>x. x)
     (Some (encodeCookieString (mergeAndResolveConflicts ''pn_key=k'' [(''pn_alias'', ''me'')]))) = d \<and>
     pd_identity d = ''me'' \<and> isAlias d \<and> routesId d = [] \<and> rootDirId d = []"
  by (rule alias_registry_roundtrip) code_simp+

end
