(* ===== verification/Util.thy ===== *)
theory Util
  imports Codec
begin

text \<open>
  The helpers of \<open>src/util\<close>: paths below a local root (\<open>readFileByPath.ts\<close>),
  storage identifiers, the Merkle tree of a file's chunks (\<open>merkle.ts\<close>), the
  gzip prologue, the log stream's back-off (\<open>createUdpStream.ts\<close>) and the
  contract sources (\<open>contract.ts\<close>).  The file system is a function from paths
  to contents, gzip and the digest are parameters.
\<close>

section \<open>Splitting and identifiers\<close>

definition splitAndTakeLastPart :: "string \<Rightarrow> char \<Rightarrow> string option \<Rightarrow> string option" where
  "splitAndTakeLastPart s splitter dflt =
     (let parts = split_ch splitter s in if length parts \<le> 1 then dflt else Some (last parts))"

definition isValidStorageId :: "string \<Rightarrow> bool" where
  "isValidStorageId id' =
     (\<exists>s \<in> set [id', if starts_with ''0x'' (to_lower id') then drop 2 id' else id'].
        length s = 64 \<and> list_all is_hex s)"

definition isZeroStorageId :: "string \<Rightarrow> bool" where
  "isZeroStorageId id' =
     (\<exists>s \<in> set [id', if starts_with ''0x'' (to_lower id') then drop 2 id' else id'].
        1 \<le> length s \<and> length s \<le> 64 \<and> list_all (\<lambda>c. c = CHR ''0'') s)"

definition areScalarArraysEqual :: "'a list \<Rightarrow> 'a list \<Rightarrow> bool" where
  "areScalarArraysEqual a1 a2 =
     (length a1 = length a2 \<and> list_all (\<lambda>(x, y). x = y) (zip a1 a2))"

lemma areScalarArraysEqual_iff [simp]: "areScalarArraysEqual a1 a2 \<longleftrightarrow> a1 = a2"
proof -
  have "length a1 = length a2 \<Longrightarrow> list_all (\<lambda>(x, y). x = y) (zip a1 a2) \<longleftrightarrow> a1 = a2"
    by (induction a1 a2 rule: list_induct2) auto
  then show ?thesis by (auto simp: areScalarArraysEqual_def)
qed

lemma isValidStorageId_hex: "length h = 32 \<Longrightarrow> isValidStorageId (hex_encode h)"
  using is_hex_lower_encode is_hex_if_lower
  by (auto simp: isValidStorageId_def list_all_iff)

section \<open>Paths below a local root\<close>

text \<open>Node's \<open>path.normalize\<close> and \<open>path.join\<close> for POSIX.  The accumulator holds the
  segments in reverse.\<close>

fun norm_segs :: "bool \<Rightarrow> string list \<Rightarrow> string list \<Rightarrow> string list" where
  "norm_segs is_abs acc [] = rev acc"
| "norm_segs is_abs acc (s # ss) =
     (if s = [] \<or> s = ''.'' then norm_segs is_abs acc ss
      else if s = ''..'' then
        (case acc of
           [] \<Rightarrow> norm_segs is_abs (if is_abs then [] else [s]) ss
         | t # ts \<Rightarrow> norm_segs is_abs (if t = ''..'' then s # acc else ts) ss)
      else norm_segs is_abs (s # acc) ss)"

definition path_normalize :: "string \<Rightarrow> string" where
  "path_normalize p =
     (if p = [] then ''.''
      else let is_abs = starts_with ''/'' p;
               trail = ends_with ''/'' p;
               body = join_ch ''/'' (norm_segs is_abs [] (split_ch CHR ''/'' p));
               body' = (if body = [] \<and> \<not> is_abs then ''.'' else body);
               body'' = (if body' \<noteq> [] \<and> trail then body' @ ''/'' else body')
           in if is_abs then ''/'' @ body'' else body'')"

definition path_join :: "string \<Rightarrow> string \<Rightarrow> string" where
  "path_join a b =
     (if a = [] \<and> b = [] then ''.'' else if a = [] then path_normalize b
      else if b = [] then path_normalize a else path_normalize (a @ ''/'' @ b))"

text \<open>\<open>fullPath.indexOf(localRoot) !== 0\<close> holds when \<open>localRoot\<close> is no prefix.  \<open>exists\<close> is
  \<open>fs.statSync\<close> not throwing.\<close>

definition getFullPathFromLocalRoot ::
  "(string \<Rightarrow> bool) \<Rightarrow> string \<Rightarrow> string \<Rightarrow> string result" where
  "getFullPathFromLocalRoot exists localRoot filePath =
     (let fullPath = path_join localRoot filePath in
      if CHR 0x00 \<in> set filePath then Inl (PlainError ''Null bytes are not allowed'')
      else if \<not> starts_with localRoot fullPath
      then Inl (PlainError ''Directory traversal is not allowed'')
      else if \<not> exists fullPath then Inl (HttpNotFoundError ''This route or file is not found'')
      else Inr fullPath)"

definition readFileByPath ::
  "(string \<Rightarrow> string option) \<Rightarrow> string \<Rightarrow> string \<Rightarrow> string result" where
  "readFileByPath fs localRoot filePath =
     (case getFullPathFromLocalRoot (\<lambda>p. fs p \<noteq> None) localRoot filePath of
        Inl e \<Rightarrow> Inl e
      | Inr p \<Rightarrow> (case fs p of Some c \<Rightarrow> Inr c | None \<Rightarrow> Inl (PlainError ''ENOENT'')))"

lemma norm_segs_no_dots:
  "''..'' \<notin> set ss \<Longrightarrow>
     norm_segs a acc ss = rev acc @ filter (\<lambda>s. s \<noteq> [] \<and> s \<noteq> ''.'') ss"
  by (induction a acc ss rule: norm_segs.induct) auto

lemma norm_segs_append:
  "norm_segs a acc (xs @ ys) = norm_segs a (rev (norm_segs a acc xs)) ys"
  by (induction a acc xs rule: norm_segs.induct) (auto split: list.splits)

lemma split_ch_append2:
  "split_ch d (xs @ d # ys) = split_ch d xs @ split_ch d ys"
  by (induction xs) (auto split: list.splits simp: append_eq_Cons_conv)

lemma join_ch_append:
  "xs \<noteq> [] \<Longrightarrow> ys \<noteq> [] \<Longrightarrow> join_ch d (xs @ ys) = join_ch d xs @ d @ join_ch d ys"
  by (induction d xs rule: join_ch.induct) (cases ys; auto)+

text \<open>A root as \<open>path.resolve\<close> returns it: absolute, normalised, not ending in a slash.\<close>

definition clean_root :: "string \<Rightarrow> bool" where
  "clean_root r \<longleftrightarrow> (\<exists>segs. segs \<noteq> [] \<and> r = ''/'' @ join_ch ''/'' segs \<and>
     list_all (\<lambda>s. s \<noteq> [] \<and> s \<noteq> ''.'' \<and> s \<noteq> ''..'' \<and> CHR ''/'' \<notin> set s) segs)"

lemma path_join_below:
  assumes "clean_root r" "p \<noteq> []" "''..'' \<notin> set (split_ch CHR ''/'' p)"
  shows "path_join r p = r \<or> (\<exists>rest. path_join r p = r @ ''/'' @ rest)"
proof -
  obtain segs where s: "segs \<noteq> []" "r = ''/'' @ join_ch ''/'' segs"
    and l: "list_all (\<lambda>s. s \<noteq> [] \<and> s \<noteq> ''.'' \<and> s \<noteq> ''..'' \<and> CHR ''/'' \<notin> set s) segs"
    using assms(1) by (auto simp: clean_root_def)
  have sp: "split_ch CHR ''/'' r = [] # segs"
    using s l split_join [of segs "CHR ''/''"] by (auto simp: list_all_iff)
  have fs: "filter (\<lambda>s. s \<noteq> [] \<and> s \<noteq> ''.'') segs = segs"
    using l by (auto simp: list_all_iff intro: filter_True)
  have j: "join_ch ''/'' segs \<noteq> []"
    using s(1) l by (cases segs; cases "tl segs") (auto simp: list_all_iff)
  have nd: "''..'' \<notin> set segs" using l by (auto simp: list_all_iff)
  define q where "q = filter (\<lambda>s. s \<noteq> [] \<and> s \<noteq> ''.'') (split_ch CHR ''/'' p)"
  have "norm_segs True [] (split_ch CHR ''/'' (r @ CHR ''/'' # p)) = segs @ q"
    unfolding split_ch_append2 sp
    using norm_segs_no_dots [of "([] # segs) @ split_ch CHR ''/'' p" True "[]"] fs nd assms(3)
    by (simp add: q_def)
  then show ?thesis using assms(2) s j
    by (cases "q = []") (auto simp: path_join_def path_normalize_def Let_def join_ch_append)
qed

text \<open>A path the proxy serves from a local root has no null byte, exists, and starts with the
  root; when the requested path has no dot-dot segment it lies strictly inside the root.\<close>

theorem local_path_confined:
  assumes "getFullPathFromLocalRoot ex r p = Inr f" "clean_root r" "p \<noteq> []"
  shows "CHR 0x00 \<notin> set p \<and> ex f \<and> starts_with r f \<and>
    (''..'' \<notin> set (split_ch CHR ''/'' p) \<longrightarrow> f = r \<or> starts_with (r @ ''/'') f)"
proof -
  have f: "f = path_join r p" and "CHR 0x00 \<notin> set p" "ex f" "starts_with r f"
    using assms(1) by (auto simp: getFullPathFromLocalRoot_def Let_def split: if_splits)
  moreover have "f = r \<or> starts_with (r @ ''/'') f" if "''..'' \<notin> set (split_ch CHR ''/'' p)"
    using path_join_below [OF assms(2,3) that] starts_with_append [of "r @ ''/''"] f by auto
  ultimately show ?thesis by blast
qed

lemma local_path_confined_witness:
  "starts_with ''/srv/public'' ''/srv/public/a.html''"
proof -
  have "getFullPathFromLocalRoot (\<lambda>_. True) ''/srv/public'' ''b/../a.html'' = Inr ''/srv/public/a.html''"
    by code_simp
  moreover have "clean_root ''/srv/public''"
    unfolding clean_root_def by (rule exI [of _ "[''srv'', ''public'']"]) simp
  ultimately show ?thesis using local_path_confined by blast
qed

text \<open>The prefix test is on characters, not on segments: a sibling directory whose name starts
  with the root's name passes it.\<close>

lemma sibling_directory_accepted:
  "getFullPathFromLocalRoot (\<lambda>_. True) ''/srv/public'' ''../public2/secret'' = Inr ''/srv/public2/secret''"
  by code_simp

section \<open>The Merkle tree\<close>

fun derive :: "(string \<Rightarrow> string) \<Rightarrow> bool \<Rightarrow> string list \<Rightarrow> string list" where
  "derive digest initial [] = []"
| "derive digest initial [x] =
     [digest (if initial then [CHR 0x00] @ x @ x else x @ x)]"
| "derive digest initial (x # y # vs) =
     digest (if initial then [CHR 0x00] @ x @ y else x @ y) # derive digest initial vs"

lemma length_derive [simp]: "length (derive d i vs) = (length vs + 1) div 2"
  by (induction d i vs rule: derive.induct) auto

text \<open>The \<open>do\<close> loop: the levels after the first, up to the first of length at most one.\<close>

function merkle_levels :: "(string \<Rightarrow> string) \<Rightarrow> bool \<Rightarrow> string list \<Rightarrow> string list list" where
  "merkle_levels digest initial level =
     (let level' = derive digest initial level in
      if length level' > 1 then level' # merkle_levels digest False level' else [level'])"
  by pat_completeness auto
termination by (relation "measure (\<lambda>(_, _, l). length l)") auto

declare merkle_levels.simps [simp del]

definition merkle :: "string list \<Rightarrow> (string \<Rightarrow> string) \<Rightarrow> string list" where
  "merkle values digest = values @ concat (merkle_levels digest True values)"

definition merkle_root :: "string list \<Rightarrow> (string \<Rightarrow> string) \<Rightarrow> string" where
  "merkle_root values digest = last (merkle values digest)"

text \<open>The byte strings a level hashes, and those of the whole tree.\<close>

fun level_inputs :: "bool \<Rightarrow> string list \<Rightarrow> string list" where
  "level_inputs initial [] = []"
| "level_inputs initial [x] = [if initial then [CHR 0x00] @ x @ x else x @ x]"
| "level_inputs initial (x # y # vs) =
     (if initial then [CHR 0x00] @ x @ y else x @ y) # level_inputs initial vs"

function tree_inputs :: "(string \<Rightarrow> string) \<Rightarrow> bool \<Rightarrow> string list \<Rightarrow> string list" where
  "tree_inputs digest initial level =
     (let level' = derive digest initial level in
      level_inputs initial level @
      (if length level' > 1 then tree_inputs digest False level' else []))"
  by pat_completeness auto
termination by (relation "measure (\<lambda>(_, _, l). length l)") auto

declare tree_inputs.simps [simp del]

lemma derive_inputs: "derive d i vs = map d (level_inputs i vs)"
  by (induction i vs rule: level_inputs.induct) auto

lemma level_inputs_inj:
  "level_inputs i xs = level_inputs i ys \<Longrightarrow> length xs = length ys \<Longrightarrow>
   (\<And>x. x \<in> set xs \<union> set ys \<Longrightarrow> length x = n) \<Longrightarrow> xs = ys"
proof (induction i xs arbitrary: ys rule: level_inputs.induct)
  case (2 i x)
  then obtain y where "ys = [y]" by (cases ys) auto
  with 2 show ?case by (auto split: if_splits)
next
  case (3 i x y vs)
  then obtain x' y' ws where ys: "ys = x' # y' # ws"
    by (cases ys; cases "tl ys") auto
  have l: "length x = length x'" using 3(4) [of x] 3(4) [of x'] by (simp add: ys)
  have "x @ y = x' @ y'" using 3(2) by (simp add: ys split: if_splits)
  then have "x = x'" "y = y'" using l by simp_all
  moreover have "vs = ws" using 3(2-4) by (intro 3(1)) (auto simp: ys)
  ultimately show ?case by (simp add: ys)
qed auto

lemma merkle_levels_not_Nil [simp]: "merkle_levels d i vs \<noteq> []"
  by (subst merkle_levels.simps) (simp add: Let_def)

lemma merkle_levels_last:
  "values \<noteq> [] \<Longrightarrow> \<exists>r. last (merkle_levels d i values) = [r] \<and> merkle_levels d i values \<noteq> []"
proof (induction d i "values" rule: merkle_levels.induct)
  case (1 d i vs)
  let ?l = "derive d i vs"
  have "?l \<noteq> []" using 1(2) by (cases vs; cases "tl vs") auto
  show ?case
  proof (cases "length ?l > 1")
    case True
    with 1(1) [OF refl True] \<open>?l \<noteq> []\<close> show ?thesis by (subst (1 2) merkle_levels.simps) (auto simp: Let_def)
  next
    case False
    with \<open>?l \<noteq> []\<close> have "\<exists>r. ?l = [r]" by (cases ?l) auto
    with False show ?thesis by (subst (1 2) merkle_levels.simps) (auto simp: Let_def)
  qed
qed

lemma merkle_root_last: "values \<noteq> [] \<Longrightarrow> last (merkle_levels d True values) = [merkle_root values d]"
proof -
  assume "values \<noteq> []"
  then obtain r where r: "last (merkle_levels d True values) = [r]" "merkle_levels d True values \<noteq> []"
    using merkle_levels_last by blast
  then have "concat (merkle_levels d True values) = concat (butlast (merkle_levels d True values)) @ [r]"
    by (metis append_butlast_last_id concat.simps concat_append append_Nil2)
  then show ?thesis using r by (simp add: merkle_root_def merkle_def)
qed

lemma levels_root_inj:
  "last (merkle_levels d i xs) = last (merkle_levels d i ys) \<Longrightarrow> length xs = length ys \<Longrightarrow>
   (\<And>x. x \<in> set xs \<union> set ys \<Longrightarrow> length x = n) \<Longrightarrow> (\<And>x. length (d x) = n) \<Longrightarrow>
   inj_on d (set (tree_inputs d i xs) \<union> set (tree_inputs d i ys)) \<Longrightarrow> xs = ys"
proof (induction d i xs arbitrary: ys rule: merkle_levels.induct)
  case (1 d i xs)
  let ?x = "derive d i xs" and ?y = "derive d i ys"
  have len: "length ?x = length ?y" using 1(3) by simp
  have in_x: "set (level_inputs i xs) \<subseteq> set (tree_inputs d i xs)"
    and in_y: "set (level_inputs i ys) \<subseteq> set (tree_inputs d i ys)"
    by (subst tree_inputs.simps, simp add: Let_def)+
  have "?x = ?y"
  proof (cases "length ?x > 1")
    case True
    have "last (merkle_levels d False ?x) = last (merkle_levels d False ?y)"
      using 1(2) True len merkle_levels_last [of ?x d False] merkle_levels_last [of ?y d False]
      by (subst (asm) (1 2) merkle_levels.simps) (auto simp: Let_def)
    moreover have "inj_on d (set (tree_inputs d False ?x) \<union> set (tree_inputs d False ?y))"
      using 1(6) True len by (subst (asm) (1 2) tree_inputs.simps) (auto simp: Let_def intro: inj_on_subset)
    moreover have "\<And>x. x \<in> set ?x \<union> set ?y \<Longrightarrow> length x = n"
      using 1(5) by (auto simp: derive_inputs)
    ultimately show ?thesis using 1(1) [OF refl True, of ?y] 1(5) len by blast
  next
    case False
    with len have "\<not> length ?y > 1" by linarith
    with False 1(2) show ?thesis
      by (subst (asm) (1 2) merkle_levels.simps) (auto simp: Let_def)
  qed
  moreover have "inj_on d (set (level_inputs i xs) \<union> set (level_inputs i ys))"
    by (rule inj_on_subset [OF 1(6)]) (use in_x in_y in blast)
  ultimately have "level_inputs i xs = level_inputs i ys"
    unfolding derive_inputs by (rule map_inj_on)
  then show ?case using 1(3,4) by (rule level_inputs_inj)
qed



lemma merkle_prefix: "take (length values) (merkle values d) = values"
  by (simp add: merkle_def)

text \<open>The chunk count is needed: an odd level repeats its last node, so a file and the same file
  with its last chunk repeated have the same root, whatever the digest.\<close>

lemma merkle_odd_duplicate:
  "merkle_root [a, b, c] d = merkle_root [a, b, c, c] d"
  by (simp add: merkle_root_def merkle_def merkle_levels.simps Let_def)

section \<open>Gzip prologue\<close>

definition PN_GZIP_PROLOGUE :: string where
  "PN_GZIP_PROLOGUE = ''PN^GZ'' @ [CHR 0x05, CHR 0x06] @ ''*#''"

definition gzip_pn :: "(string \<Rightarrow> string) \<Rightarrow> string \<Rightarrow> bool \<Rightarrow> string" where
  "gzip_pn deflate data addPrologue = (if addPrologue then PN_GZIP_PROLOGUE @ deflate data else deflate data)"

text \<open>\<open>reject\<close> does not return: after an invalid prologue the promise is settled as rejected and
  the result of the decompression is dropped.\<close>

definition gunzip_pn :: "(string \<Rightarrow> string option) \<Rightarrow> string \<Rightarrow> bool \<Rightarrow> string result" where
  "gunzip_pn inflate data verifyPrologue =
     (if verifyPrologue \<and> take (length PN_GZIP_PROLOGUE) data \<noteq> PN_GZIP_PROLOGUE
      then Inl (PlainError ''Invalid prologue'')
      else case inflate (if verifyPrologue then drop (length PN_GZIP_PROLOGUE) data else data) of
             None \<Rightarrow> Inl (PlainError ''zlib'') | Some d \<Rightarrow> Inr d)"

definition gunzipIfCompressed :: "(string \<Rightarrow> string option) \<Rightarrow> string \<Rightarrow> string result" where
  "gunzipIfCompressed inflate data =
     (if take (length PN_GZIP_PROLOGUE) data = PN_GZIP_PROLOGUE then gunzip_pn inflate data True
      else Inr data)"

lemma gunzip_roundtrip:
  "inflate (deflate data) = Some data \<Longrightarrow> gunzipIfCompressed inflate (gzip_pn deflate data True) = Inr data"
  by (simp add: gunzipIfCompressed_def gzip_pn_def gunzip_pn_def)

section \<open>Back-off of the log stream\<close>

definition INITIAL_RETRY_INTERVAL_TIME :: int where
  "INITIAL_RETRY_INTERVAL_TIME = 1000"

definition MAX_RETRY_INTERVAL :: int where
  "MAX_RETRY_INTERVAL = 1000 * 60 * 10"

record udp_stream =
  retryInterval :: int
  lastAttempt :: "int option"

definition new_udp_stream :: udp_stream where
  "new_udp_stream = \<lparr>retryInterval = INITIAL_RETRY_INTERVAL_TIME, lastAttempt = None\<rparr>"

text \<open>\<open>write\<close> at time \<open>now\<close>: the new state and whether the datagram was handed to the socket;
  \<open>failed\<close> says how the socket's callback reports, at time \<open>later\<close>.\<close>

definition udp_write :: "int \<Rightarrow> int \<Rightarrow> bool \<Rightarrow> udp_stream \<Rightarrow> udp_stream \<times> bool" where
  "udp_write now later failed s =
     (if (case lastAttempt s of None \<Rightarrow> True | Some t \<Rightarrow> t = 0 \<or> now - t > retryInterval s)
      then (if failed
            then (let nextRetryInterval = retryInterval s * 2 in
                  s\<lparr>retryInterval := (if nextRetryInterval > MAX_RETRY_INTERVAL then MAX_RETRY_INTERVAL
                                     else nextRetryInterval),
                    lastAttempt := Some later\<rparr>)
            else s\<lparr>lastAttempt := None, retryInterval := INITIAL_RETRY_INTERVAL_TIME\<rparr>, True)
      else (s, False))"

lemma udp_interval_bounds:
  "INITIAL_RETRY_INTERVAL_TIME \<le> retryInterval s \<and> retryInterval s \<le> MAX_RETRY_INTERVAL \<Longrightarrow>
   INITIAL_RETRY_INTERVAL_TIME \<le> retryInterval (fst (udp_write now later failed s)) \<and>
   retryInterval (fst (udp_write now later failed s)) \<le> MAX_RETRY_INTERVAL"
  by (auto simp: udp_write_def Let_def INITIAL_RETRY_INTERVAL_TIME_def MAX_RETRY_INTERVAL_def)

definition udp_run :: "(int \<times> int \<times> bool) list \<Rightarrow> udp_stream" where
  "udp_run ws = foldl (\<lambda>s (now, later, failed). fst (udp_write now later failed s)) new_udp_stream ws"

lemma udp_run_bounded:
  "INITIAL_RETRY_INTERVAL_TIME \<le> retryInterval (udp_run ws) \<and> retryInterval (udp_run ws) \<le> MAX_RETRY_INTERVAL"
proof -
  let ?ok = "\<lambda>s. INITIAL_RETRY_INTERVAL_TIME \<le> retryInterval s \<and> retryInterval s \<le> MAX_RETRY_INTERVAL"
  have "?ok s \<Longrightarrow> ?ok (foldl (\<lambda>s (now, later, failed). fst (udp_write now later failed s)) s ws)" for s
  proof (induction ws arbitrary: s)
    case (Cons w ws)
    obtain now later failed where w: "w = (now, later, failed)" by (cases w)
    have "?ok (fst (udp_write now later failed s))" by (rule udp_interval_bounds [OF Cons.prems])
    from Cons.IH [OF this] show ?case by (simp only: w foldl_Cons prod.case)
  qed simp
  moreover have "?ok new_udp_stream"
    by (simp add: new_udp_stream_def INITIAL_RETRY_INTERVAL_TIME_def MAX_RETRY_INTERVAL_def)
  ultimately show ?thesis unfolding udp_run_def by blast
qed

section \<open>Contract sources\<close>

text \<open>One attempt of the pattern \<open>pragma solidity [\^~><]?=?([0-9.]*);\<close> at the head of the text.\<close>

definition match_pragma :: "string \<Rightarrow> string option" where
  "match_pragma s =
     (let p = ''pragma solidity '' in
      if \<not> starts_with p s then None
      else let r = drop (length p) s;
               r1 = (if r \<noteq> [] \<and> hd r \<in> set ''^~><'' then tl r else r);
               r2 = (if r1 \<noteq> [] \<and> hd r1 = CHR ''='' then tl r1 else r1);
               isv = (\<lambda>c. is_digit c \<or> c = CHR ''.'');
               v = takeWhile isv r2; r3 = dropWhile isv r2
           in if r3 \<noteq> [] \<and> hd r3 = CHR '';'' then Some v else None)"

fun find_pragma :: "string \<Rightarrow> string option" where
  "find_pragma [] = None"
| "find_pragma (c # s) = (case match_pragma (c # s) of Some v \<Rightarrow> Some v | None \<Rightarrow> find_pragma s)"

definition getPragmaVersion :: "string \<Rightarrow> string result" where
  "getPragmaVersion source =
     (case find_pragma source of
        Some v \<Rightarrow> Inr v | None \<Rightarrow> Inl (PlainError ''Contract has no compiler version''))"

definition getImports :: "(string \<Rightarrow> string option) \<Rightarrow> string \<Rightarrow> string \<Rightarrow> string \<Rightarrow> string result" where
  "getImports fs nodeModulesPath originalPath dependency =
     (case fs (path_join nodeModulesPath dependency) of
        Some c \<Rightarrow> Inr c
      | None \<Rightarrow>
          (case (if originalPath \<noteq> [] then fs (path_join originalPath dependency) else None) of
             Some c \<Rightarrow> Inr c
           | None \<Rightarrow> Inl (PlainError (''Could not find contract dependency '' @
                       [CHR 0x22] @ dependency @ [CHR 0x22] @ '', have you tried npm install?''))))"

lemma getPragmaVersion_example:
  "getPragmaVersion ''contract; pragma solidity ^0.8.4;'' = Inr ''0.8.4''"
  by code_simp

section \<open>Directory size\<close>

text \<open>What \<open>stat\<close> and \<open>readdir\<close> tell of a path.\<close>

datatype fs_node = FileNode string | DirNode "(string \<times> fs_node) list"

fun calculateDirSize :: "fs_node \<Rightarrow> nat" where
  "calculateDirSize (FileNode c) = length c"
| "calculateDirSize (DirNode es) = foldl (+) 0 (map (\<lambda>(_, n). calculateDirSize n) es)"

end
