(* ===== verification/Models.thy ===== *)
theory Models
  imports Complex_Main Caches Util
begin

text \<open>
  The rows and the operations of \<open>src/db/models\<close> that the storage layer uses
  (\<open>base.ts\<close>, \<open>chunk.ts\<close>, \<open>file.ts\<close>, \<open>file_map.ts\<close>, \<open>dir_map.ts\<close>), the settings
  of \<open>src/client/storage/config.ts\<close> and the event queues of
  \<open>src/client/storage/callbacks.ts\<close>.  A table is an ordered object from primary
  keys to rows; a file on disk is keyed by its directory and its name.  The
  calls of \<open>processQueue\<close> that a table operation makes are appended to the log
  \<open>fired\<close>.
\<close>

section \<open>Settings\<close>

record config =
  CHUNK_SIZE :: nat
  UPLOAD_CACHE_PATH :: string
  DOWNLOAD_CACHE_PATH :: string
  FILES_DIR :: string
  UPLOAD_RETRY_LIMIT :: int
  UPLOAD_EXPIRE :: int
  CONCURRENT_UPLOAD_LIMIT :: nat

definition CHUNKINFO_PROLOGUE :: string where
  "CHUNKINFO_PROLOGUE =
     ''PN^CHUNK'' @ [CHR 0x05] @ ''$'' @ [CHR 0x06] @ ''z'' @ [CHR 0xC3, CHR 0xB5] @ ''*INFO''"

section \<open>Rows\<close>

datatype download_status = DL_NOT_STARTED | DL_ENQUEUED | DL_IN_PROGRESS | DL_COMPLETED | DL_FAILED

datatype upload_status =
  UL_NOT_STARTED | UL_ENQUEUED | UL_IN_PROGRESS | UL_COMPLETED | UL_VALIDATING | UL_FAILED

datatype file_status = F_NOT_STARTED | F_IN_PROGRESS | F_COMPLETED | F_FAILED

record chunk =
  ch_size :: "nat option"
  dl_status :: download_status
  ul_status :: upload_status
  retry_count :: int
  validation_retry_count :: int
  ch_txid :: "string option"
  ch_expires :: "int option"

record file_row =
  f_size :: "nat option"
  f_dl_status :: file_status
  f_ul_status :: file_status
  f_dir_ul_status :: file_status
  f_ul_progress :: rat
  f_dir_ul_progress :: rat

definition new_chunk :: chunk where
  "new_chunk = \<lparr>ch_size = None, dl_status = DL_NOT_STARTED, ul_status = UL_NOT_STARTED,
     retry_count = 0, validation_retry_count = 0, ch_txid = None, ch_expires = None\<rparr>"

definition new_file :: file_row where
  "new_file = \<lparr>f_size = None, f_dl_status = F_NOT_STARTED, f_ul_status = F_NOT_STARTED,
     f_dir_ul_status = F_NOT_STARTED, f_ul_progress = 0, f_dir_ul_progress = 0\<rparr>"

record file_map =
  fm_file_id :: string
  fm_chunk_id :: string
  fm_offset :: int

record dir_map =
  dm_dir_id :: string
  dm_file_id :: string
  dm_dir_size :: nat
  dm_is_dir :: bool
  dm_offset :: int

datatype EventTypes =
    FILE_UPLOAD_STATUS_CHANGED
  | FILE_DIR_UPLOAD_STATUS_CHANGED
  | FILE_DOWNLOAD_STATUS_CHANGED
  | CHUNK_UPLOAD_STATUS_CHANGED
  | CHUNK_DOWNLOAD_STATUS_CHANGED

record store =
  chunk_tbl :: "(string, chunk) obj"
  file_tbl :: "(string, file_row) obj"
  file_maps :: "file_map list"
  dir_maps :: "dir_map list"
  disk :: "(string \<times> string, string) obj"
  fired :: "(EventTypes \<times> string) list"

definition empty_store :: store where
  "empty_store = \<lparr>chunk_tbl = [], file_tbl = [], file_maps = [], dir_maps = [], disk = [], fired = []\<rparr>"

text \<open>Outcome of an asynchronous function: it returned, it threw, or it is suspended in
  \<open>waitForEvent\<close> and is called again when that event is processed.\<close>

datatype 'a async = Ret 'a | Throw exn | WaitFor EventTypes string

section \<open>Base model operations\<close>

text \<open>\<open>findByIdOrCreate(id)\<close> without defaults: an upsert that leaves an existing row alone.\<close>

definition find_or_create :: "'r \<Rightarrow> string \<Rightarrow> (string, 'r) obj \<Rightarrow> (string, 'r) obj \<times> 'r" where
  "find_or_create dflt id' tbl =
     (case obj_get tbl id' of Some r \<Rightarrow> (tbl, r) | None \<Rightarrow> (obj_set id' dflt tbl, dflt))"

definition findOrFail :: "string \<Rightarrow> (string, 'r) obj \<Rightarrow> 'r result" where
  "findOrFail id' tbl =
     (case obj_get tbl id' of
        None \<Rightarrow> Inl (PlainError (''Row not found: Model, id #'' @ id')) | Some r \<Rightarrow> Inr r)"

definition findAll :: "('r \<Rightarrow> bool) \<Rightarrow> (string, 'r) obj \<Rightarrow> (string \<times> 'r) list" where
  "findAll p tbl = filter (\<lambda>(_, r). p r) tbl"

definition findOneBy :: "('r \<Rightarrow> bool) \<Rightarrow> (string, 'r) obj \<Rightarrow> (string \<times> 'r) option" where
  "findOneBy p tbl = (case findAll p tbl of [] \<Rightarrow> None | r # _ \<Rightarrow> Some r)"

text \<open>The static \<open>update\<close> with a condition on rows, and with a condition on one row.\<close>

definition update_where :: "('r \<Rightarrow> bool) \<Rightarrow> ('r \<Rightarrow> 'r) \<Rightarrow> (string, 'r) obj \<Rightarrow> (string, 'r) obj" where
  "update_where p f tbl = map (\<lambda>(k, r). (k, if p r then f r else r)) tbl"

definition update_id :: "string \<Rightarrow> ('r \<Rightarrow> bool) \<Rightarrow> ('r \<Rightarrow> 'r) \<Rightarrow> (string, 'r) obj \<Rightarrow> (string, 'r) obj" where
  "update_id id' p f tbl = map (\<lambda>(k, r). (k, if k = id' \<and> p r then f r else r)) tbl"

text \<open>\<open>bulkCreate\<close> with \<open>ignoreDuplicates\<close>.\<close>

definition bulk_create :: "(string \<times> 'r) list \<Rightarrow> (string, 'r) obj \<Rightarrow> (string, 'r) obj" where
  "bulk_create rows tbl =
     foldl (\<lambda>t (k, r). if obj_get t k = None then t @ [(k, r)] else t) tbl rows"

lemma obj_get_find_or_create [simp]:
  "obj_get (fst (find_or_create d i t)) k =
     (if k = i \<and> obj_get t i = None then Some d else obj_get t k)"
  by (simp add: find_or_create_def split: option.splits)

lemma snd_find_or_create: "obj_get (fst (find_or_create d i t)) i = Some (snd (find_or_create d i t))"
  by (simp add: find_or_create_def split: option.splits)

lemma obj_get_update_where [simp]:
  "obj_get (update_where p f t) k = map_option (\<lambda>r. if p r then f r else r) (obj_get t k)"
  by (induction t) (auto simp: update_where_def)

lemma obj_get_update_id [simp]:
  "obj_get (update_id i p f t) k =
     map_option (\<lambda>r. if k = i \<and> p r then f r else r) (obj_get t k)"
  by (induction t) (auto simp: update_id_def)

lemma obj_get_bulk_create:
  "obj_get (bulk_create rows t) k = (case obj_get t k of Some r \<Rightarrow> Some r | None \<Rightarrow> obj_get rows k)"
proof (induction rows arbitrary: t)
  case (Cons p rows)
  obtain k' r where p: "p = (k', r)" by (cases p)
  have "bulk_create (p # rows) t = bulk_create rows (if obj_get t k' = None then t @ [(k', r)] else t)"
    by (simp add: bulk_create_def p)
  then show ?case
    by (auto simp: p Cons.IH map_add_def split: option.splits)
qed (simp add: bulk_create_def split: option.splits)

lemma keys_update_id [simp]: "keys (update_id i p f t) = keys t"
  by (simp add: update_id_def case_prod_unfold comp_def)

section \<open>Chunks and files\<close>

definition fire :: "EventTypes \<Rightarrow> string \<Rightarrow> store \<Rightarrow> store" where
  "fire e k st = st\<lparr>fired := fired st @ [(e, k)]\<rparr>"

text \<open>\<open>Chunk.update(fields, {where: {id, ...}})\<close>: the queues are processed for the statuses that
  the fields name, whether or not a row matched.\<close>

definition chunk_update ::
  "bool \<Rightarrow> bool \<Rightarrow> string \<Rightarrow> (chunk \<Rightarrow> bool) \<Rightarrow> (chunk \<Rightarrow> chunk) \<Rightarrow> store \<Rightarrow> store" where
  "chunk_update sets_ul sets_dl id' p f st =
     (let st1 = st\<lparr>chunk_tbl := update_id id' p f (chunk_tbl st)\<rparr>;
          st2 = (if sets_ul then fire CHUNK_UPLOAD_STATUS_CHANGED id' st1 else st1)
      in if sets_dl then fire CHUNK_DOWNLOAD_STATUS_CHANGED id' st2 else st2)"

definition file_update ::
  "bool \<Rightarrow> bool \<Rightarrow> bool \<Rightarrow> string \<Rightarrow> (file_row \<Rightarrow> bool) \<Rightarrow> (file_row \<Rightarrow> file_row) \<Rightarrow> store \<Rightarrow> store" where
  "file_update sets_ul sets_dir_ul sets_dl id' p f st =
     (let st1 = st\<lparr>file_tbl := update_id id' p f (file_tbl st)\<rparr>;
          st2 = (if sets_ul then fire FILE_UPLOAD_STATUS_CHANGED id' st1 else st1);
          st3 = (if sets_dir_ul then fire FILE_DIR_UPLOAD_STATUS_CHANGED id' st2 else st2)
      in if sets_dl then fire FILE_DOWNLOAD_STATUS_CHANGED id' st3 else st3)"

text \<open>\<open>chunk.save()\<close>: the row is written, and the hook processes the queue of each status that
  changed.\<close>

definition chunk_save :: "string \<Rightarrow> chunk \<Rightarrow> store \<Rightarrow> store" where
  "chunk_save id' c st =
     (let old = obj_get (chunk_tbl st) id';
          st1 = st\<lparr>chunk_tbl := obj_set id' c (chunk_tbl st)\<rparr>;
          st2 = (if map_option ul_status old \<noteq> Some (ul_status c)
                 then fire CHUNK_UPLOAD_STATUS_CHANGED id' st1 else st1)
      in if map_option dl_status old \<noteq> Some (dl_status c)
         then fire CHUNK_DOWNLOAD_STATUS_CHANGED id' st2 else st2)"

definition isExpired :: "int \<Rightarrow> chunk \<Rightarrow> bool" where
  "isExpired now c = (case ch_expires c of None \<Rightarrow> False | Some e \<Rightarrow> e < now)"

definition markAsFailedOrRestart :: "config \<Rightarrow> string \<Rightarrow> store \<Rightarrow> store result" where
  "markAsFailedOrRestart cfg id' st =
     (case findOrFail id' (chunk_tbl st) of
        Inl e \<Rightarrow> Inl e
      | Inr c \<Rightarrow>
          if ul_status c = UL_IN_PROGRESS
          then (let retry = retry_count c + 1;
                    status = (if retry_count c \<ge> UPLOAD_RETRY_LIMIT cfg then UL_FAILED else UL_ENQUEUED)
                in Inr (chunk_update True False id' (\<lambda>r. ul_status r = UL_IN_PROGRESS)
                          (\<lambda>r. r\<lparr>ul_status := status, retry_count := retry\<rparr>) st))
          else Inr st)"

definition getAllDirsContainingFileId :: "string \<Rightarrow> store \<Rightarrow> file_row list result" where
  "getAllDirsContainingFileId fileId st =
     mapM_res (\<lambda>d. findOrFail d (file_tbl st))
       (remdups (map dm_dir_id (filter (\<lambda>m. dm_file_id m = fileId) (dir_maps st))))"

lemma store_fire [simp]:
  "chunk_tbl (fire e k st) = chunk_tbl st" "file_tbl (fire e k st) = file_tbl st"
  "disk (fire e k st) = disk st" "file_maps (fire e k st) = file_maps st"
  "dir_maps (fire e k st) = dir_maps st"
  by (simp_all add: fire_def)

lemma chunk_update_fields [simp]:
  "chunk_tbl (chunk_update u d i p f st) = update_id i p f (chunk_tbl st)"
  "file_tbl (chunk_update u d i p f st) = file_tbl st" "disk (chunk_update u d i p f st) = disk st"
  "file_maps (chunk_update u d i p f st) = file_maps st"
  "dir_maps (chunk_update u d i p f st) = dir_maps st"
  by (simp_all add: chunk_update_def Let_def)

lemma file_update_fields [simp]:
  "file_tbl (file_update u v d i p f st) = update_id i p f (file_tbl st)"
  "chunk_tbl (file_update u v d i p f st) = chunk_tbl st" "disk (file_update u v d i p f st) = disk st"
  "file_maps (file_update u v d i p f st) = file_maps st"
  "dir_maps (file_update u v d i p f st) = dir_maps st"
  by (simp_all add: file_update_def Let_def)

lemma chunk_save_fields [simp]:
  "chunk_tbl (chunk_save i c st) = obj_set i c (chunk_tbl st)"
  "file_tbl (chunk_save i c st) = file_tbl st" "disk (chunk_save i c st) = disk st"
  "file_maps (chunk_save i c st) = file_maps st" "dir_maps (chunk_save i c st) = dir_maps st"
  by (simp_all add: chunk_save_def Let_def)

subsection \<open>Retries are bounded\<close>

text \<open>The invariant of the retry counter: a chunk that is not failed has used at most the limit.\<close>

definition retry_ok :: "config \<Rightarrow> store \<Rightarrow> bool" where
  "retry_ok cfg st \<longleftrightarrow> (\<forall>i c. obj_get (chunk_tbl st) i = Some c \<longrightarrow>
     0 \<le> retry_count c \<and> retry_count c \<le> UPLOAD_RETRY_LIMIT cfg + 1 \<and>
     (retry_count c = UPLOAD_RETRY_LIMIT cfg + 1 \<longrightarrow> ul_status c = UL_FAILED))"

lemma retry_ok_markAsFailedOrRestart:
  "retry_ok cfg st \<Longrightarrow> markAsFailedOrRestart cfg i st = Inr st' \<Longrightarrow> retry_ok cfg st'"
  unfolding retry_ok_def
  by (fastforce simp: markAsFailedOrRestart_def findOrFail_def Let_def split: option.splits if_splits)

text \<open>A chunk whose upload attempt did not succeed is put back in the queue until its retry
  counter reaches the limit and is then failed; the counter never exceeds the limit plus one, and
  a chunk that is not being uploaded is left untouched.\<close>

theorem failed_upload_is_retried_or_failed:
  assumes "retry_ok cfg st" "obj_get (chunk_tbl st) i = Some c"
  shows "\<exists>st'. markAsFailedOrRestart cfg i st = Inr st' \<and> retry_ok cfg st' \<and>
    obj_get (chunk_tbl st') i =
      Some (if ul_status c \<noteq> UL_IN_PROGRESS then c
            else if retry_count c < UPLOAD_RETRY_LIMIT cfg
            then c\<lparr>ul_status := UL_ENQUEUED, retry_count := retry_count c + 1\<rparr>
            else c\<lparr>ul_status := UL_FAILED, retry_count := retry_count c + 1\<rparr>) \<and>
    (\<forall>j. j \<noteq> i \<longrightarrow> obj_get (chunk_tbl st') j = obj_get (chunk_tbl st) j)"
proof -
  obtain st' where s: "markAsFailedOrRestart cfg i st = Inr st'"
    using assms(2) by (cases "ul_status c = UL_IN_PROGRESS")
      (auto simp: markAsFailedOrRestart_def findOrFail_def Let_def)
  have "retry_ok cfg st'" by (rule retry_ok_markAsFailedOrRestart [OF assms(1) s])
  moreover have "obj_get (chunk_tbl st') i =
      Some (if ul_status c \<noteq> UL_IN_PROGRESS then c
            else if retry_count c < UPLOAD_RETRY_LIMIT cfg
            then c\<lparr>ul_status := UL_ENQUEUED, retry_count := retry_count c + 1\<rparr>
            else c\<lparr>ul_status := UL_FAILED, retry_count := retry_count c + 1\<rparr>) \<and>
    (\<forall>j. j \<noteq> i \<longrightarrow> obj_get (chunk_tbl st') j = obj_get (chunk_tbl st) j)"
    using s assms(2)
    by (auto simp: markAsFailedOrRestart_def findOrFail_def Let_def option.map_ident split: if_splits)
  ultimately show ?thesis using s by blast
qed

definition example_config :: config where
  "example_config = \<lparr>CHUNK_SIZE = 4, UPLOAD_CACHE_PATH = ''cache'', DOWNLOAD_CACHE_PATH = ''cache'',
     FILES_DIR = ''files'', UPLOAD_RETRY_LIMIT = 3, UPLOAD_EXPIRE = 300000, CONCURRENT_UPLOAD_LIMIT = 2\<rparr>"

lemma failed_upload_is_retried_or_failed_witness:
  "\<exists>st'. markAsFailedOrRestart example_config ''a''
      (empty_store\<lparr>chunk_tbl := [(''a'', new_chunk\<lparr>ul_status := UL_IN_PROGRESS, retry_count := 3\<rparr>)]\<rparr>) = Inr st' \<and>
    obj_get (chunk_tbl st') ''a'' = Some (new_chunk\<lparr>ul_status := UL_FAILED, retry_count := 4\<rparr>)"
proof -
  let ?c = "new_chunk\<lparr>ul_status := UL_IN_PROGRESS, retry_count := 3\<rparr>"
  have "retry_ok example_config (empty_store\<lparr>chunk_tbl := [(''a'', ?c)]\<rparr>)"
    by (simp add: retry_ok_def example_config_def)
  from failed_upload_is_retried_or_failed [OF this, of "''a''" ?c]
  show ?thesis by (auto simp: example_config_def)
qed

section \<open>Event queues\<close>

type_synonym 'cb callbacks = "(EventTypes \<times> string, 'cb queue) obj"

definition enq :: "EventTypes \<Rightarrow> string \<Rightarrow> 'cb \<Rightarrow> 'cb callbacks \<Rightarrow> 'cb callbacks" where
  "enq e k fn cbs =
     (let q = (case obj_get cbs (e, k) of None \<Rightarrow> [] | Some q \<Rightarrow> q) in obj_set (e, k) (enqueue fn q) cbs)"

text \<open>The loop that empties a queue: \<open>while (!q.isEmpty()) ready.push(q.dequeue())\<close>.\<close>

function drain :: "'cb queue \<Rightarrow> 'cb list \<Rightarrow> 'cb queue \<times> 'cb list" where
  "drain q ready =
     (if isEmpty q then (q, ready)
      else case dequeue q of
             (q', Some c) \<Rightarrow> drain q' (ready @ [c])
           | (q', None) \<Rightarrow> (q', ready))"
  by pat_completeness auto
termination
  by (relation "measure (\<lambda>(q, _). length q)") (auto simp: isEmpty_def dequeue_def split: list.splits)

declare drain.simps [simp del]

definition processQueue :: "EventTypes \<Rightarrow> string \<Rightarrow> 'cb callbacks \<Rightarrow> 'cb callbacks \<times> 'cb list" where
  "processQueue e k cbs =
     (case obj_get cbs (e, k) of
        None \<Rightarrow> (cbs, [])
      | Some q \<Rightarrow> (let (q', ready) = drain q [] in (obj_set (e, k) q' cbs, ready)))"

definition pending :: "'cb callbacks \<Rightarrow> EventTypes \<times> string \<Rightarrow> 'cb list" where
  "pending cbs key = (case obj_get cbs key of None \<Rightarrow> [] | Some q \<Rightarrow> q)"

lemma drain_all: "drain q ready = ([], ready @ q)"
proof (induction q arbitrary: ready)
  case (Cons c q)
  then show ?case by (subst drain.simps) (simp add: isEmpty_def dequeue_def)
qed (subst drain.simps, simp add: isEmpty_def)

lemma pending_enq: "pending (enq e k fn cbs) key = pending cbs key @ (if key = (e, k) then [fn] else [])"
  by (auto simp: pending_def enq_def Let_def enqueue_def split: option.splits)

lemma processQueue_all:
  "snd (processQueue e k cbs) = pending cbs (e, k) \<and>
   pending (fst (processQueue e k cbs)) key = (if key = (e, k) then [] else pending cbs key)"
  by (auto simp: processQueue_def pending_def drain_all split: option.splits)

datatype 'cb cb_op = Wait EventTypes string 'cb | Process EventTypes string

text \<open>A run of the module: the queues, and the callbacks started so far with their key.\<close>

fun cb_step :: "'cb callbacks \<times> ((EventTypes \<times> string) \<times> 'cb) list \<Rightarrow> 'cb cb_op \<Rightarrow>
    'cb callbacks \<times> ((EventTypes \<times> string) \<times> 'cb) list" where
  "cb_step (cbs, run) (Wait e k fn) = (enq e k fn cbs, run)"
| "cb_step (cbs, run) (Process e k) =
     (let (cbs', ready) = processQueue e k cbs in (cbs', run @ map (Pair (e, k)) ready))"

definition cb_run :: "'cb cb_op list \<Rightarrow> 'cb callbacks \<times> ((EventTypes \<times> string) \<times> 'cb) list" where
  "cb_run ops = foldl cb_step ([], []) ops"

fun registers :: "EventTypes \<times> string \<Rightarrow> 'cb cb_op \<Rightarrow> 'cb list" where
  "registers key (Wait e k fn) = (if key = (e, k) then [fn] else [])"
| "registers key (Process e k) = []"

definition waited :: "EventTypes \<times> string \<Rightarrow> 'cb cb_op list \<Rightarrow> 'cb list" where
  "waited key ops = concat (map (registers key) ops)"

text \<open>C20: every callback registered for an event is started at most once and in the order of
  registration: for each key, the callbacks started so far followed by those still queued are the
  registered ones.\<close>

theorem callbacks_fifo_exactly_once:
  "map snd (filter (\<lambda>p. fst p = key) (snd (cb_run ops))) @ pending (fst (cb_run ops)) key = waited key ops"
proof (induction ops rule: rev_induct)
  case (snoc x ops)
  obtain cbs run where r: "cb_run ops = (cbs, run)" by (cases "cb_run ops")
  have s: "cb_run (ops @ [x]) = cb_step (cbs, run) x" using r by (simp add: cb_run_def)
  show ?case
  proof (cases x)
    case (Wait e k fn)
    with snoc r s show ?thesis by (auto simp: pending_enq waited_def)
  next
    case (Process e k)
    obtain cbs' ready where p: "processQueue e k cbs = (cbs', ready)" by (cases "processQueue e k cbs")
    have "ready = pending cbs (e, k)" "pending cbs' key = (if key = (e, k) then [] else pending cbs key)"
      using processQueue_all [of e k cbs key] by (simp_all add: p)
    with snoc r s Process p show ?thesis
      by (auto simp: waited_def comp_def filter_map)
  qed
qed (simp add: cb_run_def pending_def waited_def)

end
