(* ===== verification/Json.thy ===== *)
theory Json
  imports Codec
begin

text \<open>
  \<open>JSON.stringify\<close> and \<open>JSON.parse\<close> on the values the program exchanges: null,
  booleans, integers, strings, arrays and objects in insertion order.  Numbers
  with a fraction or an exponent do not occur in the program's formats and are
  rejected by the parser.  The parser recurses on fuel, the length of its text
  plus one, which the round trip shows to be enough for every printed value.
\<close>

section \<open>Values\<close>

datatype json =
    JNull
  | JBool bool
  | JNum int
  | JStr string
  | JArr "json list"
  | JObj "(string \<times> json) list"

fun jget :: "string \<Rightarrow> json \<Rightarrow> json option" where
  "jget k (JObj m) = obj_get m k"
| "jget k _ = None"

fun jstr :: "json option \<Rightarrow> string option" where
  "jstr (Some (JStr s)) = Some s"
| "jstr _ = None"

fun jnum :: "json option \<Rightarrow> int option" where
  "jnum (Some (JNum i)) = Some i"
| "jnum _ = None"

fun jarr :: "json option \<Rightarrow> json list option" where
  "jarr (Some (JArr xs)) = Some xs"
| "jarr _ = None"

text \<open>Truth of a value in a condition.\<close>

fun truthy_json :: "json \<Rightarrow> bool" where
  "truthy_json JNull = False"
| "truthy_json (JBool b) = b"
| "truthy_json (JNum n) = (n \<noteq> 0)"
| "truthy_json (JStr s) = (s \<noteq> [])"
| "truthy_json _ = True"

section \<open>Printing\<close>

definition esc_char :: "char \<Rightarrow> string" where
  "esc_char c = (let n = of_char c :: nat in
     if n = 34 then [CHR 0x5C, CHR 0x22]
     else if n = 92 then [CHR 0x5C, CHR 0x5C]
     else if n = 8 then [CHR 0x5C, CHR ''b'']
     else if n = 9 then [CHR 0x5C, CHR ''t'']
     else if n = 10 then [CHR 0x5C, CHR ''n'']
     else if n = 12 then [CHR 0x5C, CHR ''f'']
     else if n = 13 then [CHR 0x5C, CHR ''r'']
     else if n < 32 then CHR 0x5C # ''u00'' @ hex_encode [c]
     else [c])"

definition jprint_str :: "string \<Rightarrow> string" where
  "jprint_str s = CHR 0x22 # concat (map esc_char s) @ [CHR 0x22]"

fun jprint :: "json \<Rightarrow> string" where
  "jprint JNull = ''null''"
| "jprint (JBool b) = (if b then ''true'' else ''false'')"
| "jprint (JNum i) = show_int i"
| "jprint (JStr s) = jprint_str s"
| "jprint (JArr xs) = ''['' @ join_ch '','' (map jprint xs) @ '']''"
| "jprint (JObj m) =
     ''{'' @ join_ch '','' (map (\<lambda>(k, v). jprint_str k @ '':'' @ jprint v) m) @ ''}''"

section \<open>Parsing\<close>

definition skip_ws :: "string \<Rightarrow> string" where
  "skip_ws s = dropWhile (\<lambda>c. c \<in> set [CHR '' '', CHR 0x09, CHR 0x0A, CHR 0x0D]) s"

definition unesc_short :: "char \<Rightarrow> char option" where
  "unesc_short c = (let n = of_char c :: nat in
     if n = 34 \<or> n = 92 \<or> n = 47 then Some c
     else if n = 98 then Some (char_of (8::nat))
     else if n = 116 then Some (char_of (9::nat))
     else if n = 110 then Some (char_of (10::nat))
     else if n = 102 then Some (char_of (12::nat))
     else if n = 114 then Some (char_of (13::nat))
     else None)"

text \<open>The rest of a string literal, after its opening quote.  Escapes above 127 are not printed
  by \<open>JSON.stringify\<close> and are rejected.\<close>

fun pstr :: "string \<Rightarrow> (string \<times> string) option" where
  "pstr [] = None"
| "pstr (c # s) =
     (if c = CHR 0x22 then Some ([], s)
      else if c = CHR 0x5C then
        (case s of
           [] \<Rightarrow> None
         | d # s' \<Rightarrow>
             if d = CHR ''u'' then
               (case s' of
                  a # b # e # f # s'' \<Rightarrow>
                    (case (hex_val a, hex_val b, hex_val e, hex_val f) of
                       (Some 0, Some 0, Some x, Some y) \<Rightarrow>
                         if x < 8 then map_option (\<lambda>(t, r). (char_of (16 * x + y) # t, r)) (pstr s'')
                         else None
                     | _ \<Rightarrow> None)
                | _ \<Rightarrow> None)
             else (case unesc_short d of
                     None \<Rightarrow> None
                   | Some x \<Rightarrow> map_option (\<lambda>(t, r). (x # t, r)) (pstr s')))
      else if (of_char c :: nat) < 32 then None
      else map_option (\<lambda>(t, r). (c # t, r)) (pstr s))"

text \<open>An integer; a leading zero, a fraction and an exponent are refused.\<close>

definition pdigits :: "string \<Rightarrow> (nat \<times> string) option" where
  "pdigits s =
     (let ds = takeWhile is_digit s; r = dropWhile is_digit s in
      if ds = [] \<or> (hd ds = CHR ''0'' \<and> 1 < length ds) then None
      else if r \<noteq> [] \<and> hd r \<in> set ''.eE'' then None
      else Some (dec_val ds, r))"

definition pnum :: "string \<Rightarrow> (int \<times> string) option" where
  "pnum s =
     (case s of
        c # s' \<Rightarrow>
          if c = CHR ''-'' then map_option (\<lambda>(n, r). (- int n, r)) (pdigits s')
          else map_option (\<lambda>(n, r). (int n, r)) (pdigits s)
      | [] \<Rightarrow> None)"

definition pword :: "string \<Rightarrow> json \<Rightarrow> string \<Rightarrow> (json \<times> string) option" where
  "pword w v s = (if starts_with w s then Some (v, drop (length w) s) else None)"

fun pval :: "nat \<Rightarrow> string \<Rightarrow> (json \<times> string) option"
  and pelems :: "nat \<Rightarrow> string \<Rightarrow> (json list \<times> string) option"
  and pmembers :: "nat \<Rightarrow> (string, json) obj \<Rightarrow> string \<Rightarrow> ((string, json) obj \<times> string) option" where
  "pval 0 s = None"
| "pval (Suc n) s =
     (case skip_ws s of
        [] \<Rightarrow> None
      | c # r \<Rightarrow>
          if c = CHR 0x22 then map_option (\<lambda>(t, r'). (JStr t, r')) (pstr r)
          else if c = CHR ''['' then
            (case skip_ws r of
               [] \<Rightarrow> None
             | d # r' \<Rightarrow> if d = CHR '']'' then Some (JArr [], r')
                         else map_option (\<lambda>(xs, q). (JArr xs, q)) (pelems n (d # r')))
          else if c = CHR ''{'' then
            (case skip_ws r of
               [] \<Rightarrow> None
             | d # r' \<Rightarrow> if d = CHR ''}'' then Some (JObj [], r')
                         else map_option (\<lambda>(m, q). (JObj m, q)) (pmembers n [] (d # r')))
          else if c = CHR ''n'' then pword ''null'' JNull (c # r)
          else if c = CHR ''t'' then pword ''true'' (JBool True) (c # r)
          else if c = CHR ''f'' then pword ''false'' (JBool False) (c # r)
          else map_option (\<lambda>(i, q). (JNum i, q)) (pnum (c # r)))"
| "pelems 0 s = None"
| "pelems (Suc n) s =
     (case pval n s of
        None \<Rightarrow> None
      | Some (v, r) \<Rightarrow>
          (case skip_ws r of
             [] \<Rightarrow> None
           | c # q \<Rightarrow>
               if c = CHR '','' then map_option (\<lambda>(vs, q'). (v # vs, q')) (pelems n q)
               else if c = CHR '']'' then Some ([v], q) else None))"
| "pmembers 0 m s = None"
| "pmembers (Suc n) m s =
     (case skip_ws s of
        [] \<Rightarrow> None
      | c # r \<Rightarrow>
          if c \<noteq> CHR 0x22 then None
          else (case pstr r of
                  None \<Rightarrow> None
                | Some (k, r') \<Rightarrow>
                    (case skip_ws r' of
                       [] \<Rightarrow> None
                     | d # q \<Rightarrow>
                         if d \<noteq> CHR '':'' then None
                         else (case pval n q of
                                 None \<Rightarrow> None
                               | Some (v, q') \<Rightarrow>
                                   (case skip_ws q' of
                                      [] \<Rightarrow> None
                                    | e # t \<Rightarrow>
                                        if e = CHR '','' then pmembers n (obj_set k v m) t
                                        else if e = CHR ''}'' then Some (obj_set k v m, t)
                                        else None)))))"

definition jparse :: "string \<Rightarrow> json option" where
  "jparse s = (case pval (length s + 1) s of
                 Some (v, r) \<Rightarrow> if skip_ws r = [] then Some v else None
               | None \<Rightarrow> None)"

section \<open>Round trip\<close>

text \<open>Values as programs build them: an object has each key once.\<close>

fun jwf :: "json \<Rightarrow> bool" where
  "jwf (JArr xs) = (\<forall>x \<in> set xs. jwf x)"
| "jwf (JObj m) = (distinct (map fst m) \<and> (\<forall>p \<in> set m. jwf (snd p)))"
| "jwf _ = True"

text \<open>What may follow a printed value.\<close>

definition closing :: "string \<Rightarrow> bool" where
  "closing r \<longleftrightarrow> r = [] \<or> hd r \<in> set '',]}''"

lemma skip_ws_cons: "c \<notin> set [CHR '' '', CHR 0x09, CHR 0x0A, CHR 0x0D] \<Longrightarrow> skip_ws (c # s) = c # s"
  by (simp add: skip_ws_def)

lemma char_eq_nat: "c = d \<longleftrightarrow> (of_char c :: nat) = of_char d"
  by (metis char_of_char)

lemma of_char_simps [simp]:
  "(of_char CHR 0x22 :: nat) = 34" "(of_char CHR 0x5C :: nat) = 92"
  "(of_char (CHR ''u'') :: nat) = 117" "(of_char (CHR ''b'') :: nat) = 98"
  "(of_char (CHR ''t'') :: nat) = 116" "(of_char (CHR ''n'') :: nat) = 110"
  "(of_char (CHR ''f'') :: nat) = 102" "(of_char (CHR ''r'') :: nat) = 114"
  "(of_char (CHR ''0'') :: nat) = 48"
  by code_simp+

lemma pstr_esc_short:
  "unesc_short d = Some x \<Longrightarrow> d \<noteq> CHR ''u'' \<Longrightarrow>
   pstr (CHR 0x5C # d # r) = map_option (\<lambda>(t, q). (x # t, q)) (pstr r)"
  by (subst pstr.simps) (auto simp: char_eq_nat)

lemma pstr_esc_u:
  assumes "hex_val e = Some x" "hex_val f = Some y" "x < 8"
  shows "pstr (CHR 0x5C # CHR ''u'' # CHR ''0'' # CHR ''0'' # e # f # r) =
    map_option (\<lambda>(t, q). (char_of (16 * x + y) # t, q)) (pstr r)"
proof -
  have "hex_val (CHR ''0'') = Some 0" by (simp add: hex_val_def)
  with assms show ?thesis by (subst pstr.simps) (simp add: char_eq_nat)
qed

lemma pstr_plain:
  "of_char c \<ge> (32 :: nat) \<Longrightarrow> c \<noteq> CHR 0x22 \<Longrightarrow> c \<noteq> CHR 0x5C \<Longrightarrow>
   pstr (c # r) = map_option (\<lambda>(t, q). (c # t, q)) (pstr r)"
  by (subst pstr.simps) simp

lemma pstr_esc_char:
  "pstr (esc_char c @ r) = map_option (\<lambda>(t, q). (c # t, q)) (pstr r)"
proof -
  define n where "n = (of_char c :: nat)"
  have c: "c = char_of n" by (simp add: n_def)
  have l: "n < 256" by (simp add: n_def of_char_less)
  consider "n = 34" | "n = 92" | "n = 8" | "n = 9" | "n = 10" | "n = 12" | "n = 13"
    | "n < 32" "n \<notin> {8, 9, 10, 12, 13}" | "n \<ge> 32" "n \<noteq> 34" "n \<noteq> 92" by force
  then show ?thesis
  proof cases
    case 8
    then have e: "esc_char c = CHR 0x5C # CHR ''u'' # CHR ''0'' # CHR ''0'' #
        [hex_digit (n div 16), hex_digit (n mod 16)]"
      by (simp add: esc_char_def Let_def n_def [symmetric])
    have "n div 16 < 8" using 8 by auto
    then show ?thesis unfolding e using c l
      by (simp add: pstr_esc_u [OF hex_val_digit hex_val_digit] del: pstr.simps)
  next
    case 9
    then have "esc_char c = [c]" by (simp add: esc_char_def Let_def n_def [symmetric])
    moreover have "c \<noteq> CHR 0x22" "c \<noteq> CHR 0x5C" using 9 by (auto simp: char_eq_nat n_def)
    ultimately show ?thesis using 9 by (simp add: pstr_plain n_def del: pstr.simps)
  qed (simp_all add: esc_char_def Let_def n_def [symmetric] pstr_esc_short unesc_short_def
         char_eq_nat c del: pstr.simps)
qed

lemma pstr_print: "pstr (concat (map esc_char s) @ CHR 0x22 # r) = Some (s, r)"
  by (induction s) (simp_all add: pstr_esc_char)

lemma pstr_print_str: "pstr (tl (jprint_str s) @ r) = Some (s, r)"
  by (simp add: jprint_str_def pstr_print)

lemma closing_not_digit: "closing r \<Longrightarrow> r = [] \<or> (\<not> is_digit (hd r) \<and> hd r \<notin> set ''.eE'')"
  by (auto simp: closing_def is_digit_def Let_def)

lemma pdigits_show: "closing r \<Longrightarrow> pdigits (show_nat n @ r) = Some (n, r)"
proof -
  assume r: "closing r"
  have d: "x \<in> set (show_nat n) \<Longrightarrow> is_digit x" for x
    using show_nat_digits [of n] by (simp add: list_all_iff)
  then have t: "takeWhile is_digit (show_nat n @ r) = show_nat n" "dropWhile is_digit (show_nat n @ r) = r"
    using closing_not_digit [OF r] by (cases r; auto simp: takeWhile_append dropWhile_append)+
  have "hd (show_nat n) = CHR ''0'' \<Longrightarrow> length (show_nat n) = 1"
  proof -
    assume "hd (show_nat n) = CHR ''0''"
    then have "n = 0" using hd_show_nat by blast
    then show ?thesis by (subst show_nat.simps) simp
  qed
  with t closing_not_digit [OF r] show ?thesis
    by (auto simp: pdigits_def Let_def)
qed

lemma digit_neq: "is_digit c \<Longrightarrow> c \<noteq> CHR ''-''"
  by (auto simp: is_digit_def)

lemma hd_show_digit: "is_digit (hd (show_nat n))"
  using show_nat_digits [of n] by (cases "show_nat n") auto

lemma pnum_show: "closing r \<Longrightarrow> pnum (show_int i @ r) = Some (i, r)"
  using digit_neq [OF hd_show_digit, of "nat i"] pdigits_show [of r "nat i"]
    pdigits_show [of r "nat (- i)"]
  by (cases "show_nat (nat i)") (simp_all add: pnum_def show_int_def)

text \<open>The first character of a printed value selects the right branch of the parser.\<close>

lemma hd_show_int: "is_digit (hd (show_int i)) \<or> hd (show_int i) = CHR ''-''" "show_int i \<noteq> []"
  by (auto simp: show_int_def hd_show_digit)

lemma jprint_not_Nil: "jprint v \<noteq> []"
  by (cases v) (auto simp: jprint_str_def hd_show_int)

lemma skip_ws_jprint: "skip_ws (jprint v @ r) = jprint v @ r"
proof (cases v)
  case (JNum i)
  then show ?thesis using hd_show_int [of i]
    by (cases "show_int i") (auto simp: skip_ws_def is_digit_def)
qed (auto simp: skip_ws_def jprint_str_def)

lemma hd_jprint: "hd (jprint v) \<noteq> CHR '']''"
proof (cases v)
  case (JNum i)
  then show ?thesis using hd_show_int [of i] by (auto simp: is_digit_def)
qed (auto simp: jprint_str_def)

definition jrt :: "json \<Rightarrow> bool" where
  "jrt v \<longleftrightarrow> (\<forall>n r. closing r \<longrightarrow> length (jprint v) < n \<longrightarrow> pval n (jprint v @ r) = Some (v, r))"

lemma jrtD: "jrt v \<Longrightarrow> closing r \<Longrightarrow> length (jprint v) < n \<Longrightarrow> pval n (jprint v @ r) = Some (v, r)"
  by (simp add: jrt_def)

lemma closing_simps [simp]: "closing (CHR '','' # r)" "closing (CHR '']'' # r)" "closing (CHR ''}'' # r)" "closing []"
  by (simp_all add: closing_def)

lemma skip_ws_closing [simp]:
  "skip_ws (CHR '','' # r) = CHR '','' # r" "skip_ws (CHR '']'' # r) = CHR '']'' # r"
  "skip_ws (CHR ''}'' # r) = CHR ''}'' # r" "skip_ws (CHR '':'' # r) = CHR '':'' # r"
  "skip_ws (CHR 0x22 # r) = CHR 0x22 # r" "skip_ws [] = []"
  by (simp_all add: skip_ws_def)

lemma join_ch_Cons: "ws \<noteq> [] \<Longrightarrow> join_ch d (w # ws) = w @ d @ join_ch d ws"
  by (cases ws) auto

lemma pelems_print:
  "xs \<noteq> [] \<Longrightarrow> (\<And>x. x \<in> set xs \<Longrightarrow> jrt x) \<Longrightarrow> length (join_ch '','' (map jprint xs)) + 1 < n \<Longrightarrow>
   pelems n (join_ch '','' (map jprint xs) @ CHR '']'' # r) = Some (xs, r)"
proof (induction xs arbitrary: n)
  case (Cons x xs)
  then obtain m where n: "n = Suc m" by (cases n) auto
  show ?case
  proof (cases "xs = []")
    case True
    with Cons.prems jrtD [of x "CHR '']'' # r" m] show ?thesis by (simp add: n)
  next
    case False
    with Cons have "pelems m (join_ch '','' (map jprint xs) @ CHR '']'' # r) = Some (xs, r)"
      by (simp add: n join_ch_Cons)
    with False Cons.prems
      jrtD [of x "CHR '','' # join_ch '','' (map jprint xs) @ CHR '']'' # r" m]
    show ?thesis by (simp add: n join_ch_Cons)
  qed
qed simp

definition jmember :: "string \<times> json \<Rightarrow> string" where
  "jmember = (\<lambda>(k, v). jprint_str k @ '':'' @ jprint v)"

lemma jmember_split:
  "jmember (k, v) @ r = CHR 0x22 # tl (jprint_str k) @ CHR '':'' # jprint v @ r"
  by (simp add: jmember_def jprint_str_def)

lemma pmembers_step:
  assumes "jrt v" "closing r" "length (jmember (k, v)) < Suc n"
  shows "pmembers (Suc n) m (jmember (k, v) @ r) =
    (case skip_ws r of [] \<Rightarrow> None
     | e # t \<Rightarrow> if e = CHR '','' then pmembers n (obj_set k v m) t
               else if e = CHR ''}'' then Some (obj_set k v m, t) else None)"
proof -
  have "length (jprint v) < n" using assms(3) by (simp add: jmember_def jprint_str_def)
  with assms have "pval n (jprint v @ r) = Some (v, r)" by (simp add: jrtD)
  then show ?thesis unfolding jmember_split
    by (simp add: pstr_print_str)
qed

lemma pmembers_print:
  "ps \<noteq> [] \<Longrightarrow> (\<And>p. p \<in> set ps \<Longrightarrow> jrt (snd p)) \<Longrightarrow> distinct (map fst (m @ ps)) \<Longrightarrow>
   length (join_ch '','' (map jmember ps)) < n \<Longrightarrow>
   pmembers n m (join_ch '','' (map jmember ps) @ CHR ''}'' # r) = Some (m @ ps, r)"
proof (induction ps arbitrary: n m)
  case (Cons p ps)
  obtain k v where p: "p = (k, v)" by (cases p)
  from Cons.prems obtain j where n: "n = Suc j" by (cases n) auto
  have v: "jrt v" using Cons.prems(2) [of p] by (simp add: p)
  have s: "obj_set k v m = m @ [(k, v)]" using Cons.prems(3) by (intro obj_set_new) (auto simp: p)
  show ?case
  proof (cases "ps = []")
    case True
    with Cons.prems v s show ?thesis by (simp add: n p pmembers_step del: pmembers.simps)
  next
    case False
    with Cons.prems have "length (join_ch '','' (map jmember ps)) < j"
      by (simp add: n join_ch_Cons)
    with Cons.IH [of "m @ [(k, v)]" j] Cons.prems False
    have "pmembers j (m @ [(k, v)]) (join_ch '','' (map jmember ps) @ CHR ''}'' # r) = Some (m @ p # ps, r)"
      by (simp add: p)
    with False Cons.prems v s show ?thesis
      by (simp add: n p join_ch_Cons pmembers_step del: pmembers.simps)
  qed
qed simp

lemma num_char:
  "is_digit c \<or> c = CHR ''-'' \<Longrightarrow> c \<notin> set [CHR 0x22, CHR ''['', CHR ''{'', CHR ''n'', CHR ''t'', CHR ''f'']"
  by (auto simp: is_digit_def)

lemma jrt_print: "jwf v \<Longrightarrow> jrt v"
proof (induction v)
  case (JNum i)
  obtain c q where c: "show_int i = c # q" using hd_show_int(2) [of i] by (cases "show_int i") auto
  have n: "c \<noteq> CHR 0x22" "c \<noteq> CHR ''[''" "c \<noteq> CHR ''{''" "c \<noteq> CHR ''n''" "c \<noteq> CHR ''t''" "c \<noteq> CHR ''f''"
    using num_char [of c] hd_show_int(1) [of i] c by auto
  have "pval n (show_int i @ r) = Some (JNum i, r)" if "closing r" "0 < n" for n r
    using skip_ws_jprint [of "JNum i" r] pnum_show [OF that(1), of i] that(2) n
    by (cases n) (simp_all add: c)
  then show ?case by (auto simp: jrt_def)
next
  case (JStr s)
  have "pval n (jprint_str s @ r) = Some (JStr s, r)" if "0 < n" for n r
    using that by (cases n) (simp_all add: jprint_str_def pstr_print)
  then show ?case by (auto simp: jrt_def)
next
  case (JArr xs)
  show ?case unfolding jrt_def
  proof (intro allI impI)
    fix n r assume "closing r" and l: "length (jprint (JArr xs)) < n"
    then obtain m where n: "n = Suc m" by (cases n) auto
    have h: "skip_ws (join_ch '','' (map jprint xs) @ CHR '']'' # r) =
        join_ch '','' (map jprint xs) @ CHR '']'' # r \<and> hd (join_ch '','' (map jprint xs)) \<noteq> CHR '']'' \<and>
        join_ch '','' (map jprint xs) \<noteq> []" if "xs \<noteq> []"
      using that skip_ws_jprint [of "hd xs"] hd_jprint [of "hd xs"] jprint_not_Nil [of "hd xs"]
      by (cases xs; cases "tl xs") (auto simp: join_ch_Cons)
    have "pelems m (join_ch '','' (map jprint xs) @ CHR '']'' # r) = Some (xs, r)" if "xs \<noteq> []"
      using that JArr l by (intro pelems_print) (auto simp: n)
    with h show "pval n (jprint (JArr xs) @ r) = Some (JArr xs, r)"
      by (cases "xs = []"; cases "join_ch '','' (map jprint xs)") (auto simp: n skip_ws_cons)
  qed
next
  case (JObj ps)
  show ?case unfolding jrt_def
  proof (intro allI impI)
    fix n r assume "closing r" and l: "length (jprint (JObj ps)) < n"
    then obtain m where n: "n = Suc m" by (cases n) auto
    have pr: "jprint (JObj ps) = ''{'' @ join_ch '','' (map jmember ps) @ ''}''"
      by (simp add: jmember_def)
    have h: "\<exists>q. join_ch '','' (map jmember ps) = CHR 0x22 # q" if "ps \<noteq> []"
      using that by (cases ps; cases "tl ps") (auto simp: join_ch_Cons jmember_def jprint_str_def)
    have "pmembers m [] (join_ch '','' (map jmember ps) @ CHR ''}'' # r) = Some ([] @ ps, r)" if "ps \<noteq> []"
      using that JObj l unfolding pr by (intro pmembers_print) (auto simp: n)
    with h show "pval n (jprint (JObj ps) @ r) = Some (JObj ps, r)"
      unfolding pr by (cases "ps = []") (auto simp: n skip_ws_cons)
  qed
next
  case JNull
  have "pval n (''null'' @ r) = Some (JNull, r)" if "0 < n" for n r
    using that by (cases n) (simp_all add: skip_ws_cons pword_def starts_with_def)
  then show ?case by (auto simp: jrt_def)
next
  case (JBool b)
  have "pval n (jprint (JBool b) @ r) = Some (JBool b, r)" if "0 < n" for n r
    using that by (cases n) (simp_all add: skip_ws_cons pword_def starts_with_def)
  then show ?case by (auto simp: jrt_def)
qed

theorem jparse_print: "jwf v \<Longrightarrow> jparse (jprint v) = Some v"
  using jrtD [OF jrt_print, of v "[]" "length (jprint v) + 1"] by (simp add: jparse_def)

end
