(* ===== verification/Storage.thy ===== *)
theory Storage
  imports Models Json
begin

text \<open>
  Files and chunks: \<open>src/client/storage/index.ts\<close>, \<open>chunk/upload.ts\<close> and
  \<open>chunk/download.ts\<close>.  The hash is the parameter \<open>H\<close> (keccak256); a source of
  chunks is a function from chunk ids to data, of which nothing is assumed
  but what a theorem states.  Functions that the code awaits run to their end;
  a wait for an event is the outcome \<^const>\<open>WaitFor\<close>.  The chunks of a file are
  fetched one after the other where the code starts all fetches at once.
\<close>

section \<open>Splitting a file\<close>

definition hash_id :: "(string \<Rightarrow> string) \<Rightarrow> string \<Rightarrow> string" where
  "hash_id H d = hex_encode (H d)"

definition chunkify :: "nat \<Rightarrow> string \<Rightarrow> string list" where
  "chunkify cs buf =
     (let totalChunks = (length buf + cs - 1) div cs in
      if totalChunks \<le> 1 then [buf]
      else map (\<lambda>i. take ((i + 1) * cs - i * cs) (drop (i * cs) buf)) [0..<totalChunks])"

definition chunksToTotalLength :: "nat \<Rightarrow> string list \<Rightarrow> nat" where
  "chunksToTotalLength cs chunks = (length chunks - 1) * cs + length (last chunks)"

definition createChunkInfoChunk :: "nat \<Rightarrow> (string \<Rightarrow> string) \<Rightarrow> string list \<Rightarrow> string" where
  "createChunkInfoChunk cs H chunks =
     (let chunkHashes = map H chunks;
          merkleTree = merkle chunkHashes H;
          filesize = chunksToTotalLength cs chunks
      in CHUNKINFO_PROLOGUE @
         jprint (JObj [(''type'', JStr ''file''),
                       (''chunks'', JArr (map (\<lambda>b. JStr (hex_encode b)) chunkHashes)),
                       (''hash'', JStr ''keccak256''),
                       (''filesize'', JNum (int filesize)),
                       (''merkle'', JArr (map (\<lambda>b. JStr (hex_encode b)) merkleTree))]))"

record chunk_info =
  ci_chunkIds :: "string list"
  ci_filesize :: "int option"
  ci_merkle :: "string list"

text \<open>A JavaScript array of strings; anything else fails in \<open>Buffer.from\<close> or in the comparison.\<close>

definition json_strings :: "json option \<Rightarrow> string list option" where
  "json_strings j =
     (case j of
        Some (JArr xs) \<Rightarrow>
          (if list_all (\<lambda>x. case x of JStr _ \<Rightarrow> True | _ \<Rightarrow> False) xs
           then Some (map (\<lambda>x. case x of JStr s \<Rightarrow> s | _ \<Rightarrow> []) xs) else None)
      | _ \<Rightarrow> None)"

definition parseChunkInfo :: "(string \<Rightarrow> string) \<Rightarrow> string \<Rightarrow> chunk_info result" where
  "parseChunkInfo H chunkInfo =
     (case jparse (drop (length CHUNKINFO_PROLOGUE) chunkInfo) of
        None \<Rightarrow> Inl (PlainError ''SyntaxError'')
      | Some j \<Rightarrow>
          if jget ''type'' j \<noteq> Some (JStr ''file'') then Inl (PlainError ''Bad file type'')
          else if jget ''hash'' j \<noteq> Some (JStr ''keccak256'') then Inl (PlainError ''Bad hash type'')
          else (case json_strings (jget ''chunks'' j) of
                  None \<Rightarrow> Inl TypeError
                | Some chunkIds \<Rightarrow>
                    (let merkleReassembled = map hex_encode (merkle (map hex_decode chunkIds) H) in
                     case json_strings (jget ''merkle'' j) of
                       None \<Rightarrow> Inl (PlainError ''Incorrect Merkle hash'')
                     | Some m \<Rightarrow>
                         if \<not> areScalarArraysEqual merkleReassembled m
                         then Inl (PlainError ''Incorrect Merkle hash'')
                         else Inr \<lparr>ci_chunkIds = chunkIds, ci_filesize = jnum (jget ''filesize'' j),
                                   ci_merkle = m\<rparr>)))"

subsection \<open>Lemmas on splitting\<close>

lemma concat_slices: "concat (map (\<lambda>i. take cs (drop (i * cs) xs)) [0..<n]) = take (n * cs) xs"
proof (induction n)
  case (Suc n)
  have "take (Suc n * cs) xs = take (n * cs) xs @ take cs (drop (n * cs) xs)"
    by (metis add.commute mult_Suc take_add)
  with Suc show ?case by simp
qed simp

lemma totalChunks_cover: "0 < cs \<Longrightarrow> (n :: nat) \<le> ((n + cs - 1) div cs) * cs"
proof -
  assume c: "0 < cs"
  have "n + cs - 1 = ((n + cs - 1) div cs) * cs + (n + cs - 1) mod cs" by simp
  moreover have "(n + cs - 1) mod cs \<le> cs - 1" using mod_less_divisor [OF c, of "n + cs - 1"] by linarith
  ultimately show ?thesis using c by linarith
qed

lemma slice_len [simp]: "(cs + i * cs) - i * cs = (cs :: nat)"
  by simp

lemma concat_chunkify: "0 < cs \<Longrightarrow> concat (chunkify cs buf) = buf"
  using totalChunks_cover [of cs "length buf"]
  by (simp add: chunkify_def Let_def concat_slices)

lemma chunkify_not_Nil [simp]: "chunkify cs buf \<noteq> []"
  by (simp add: chunkify_def Let_def)

lemma chunkify_single: "length (chunkify cs buf) \<le> 1 \<Longrightarrow> chunkify cs buf = [buf]"
  by (auto simp: chunkify_def Let_def split: if_splits)

lemma length_chunkify_butlast:
  assumes "0 < cs" "c \<in> set (butlast (chunkify cs buf))" shows "length c = cs"
proof -
  let ?t = "(length buf + cs - 1) div cs"
  have t: "\<not> ?t \<le> 1" using assms(2) by (auto simp: chunkify_def Let_def split: if_splits)
  then have "butlast (chunkify cs buf) = map (\<lambda>i. take cs (drop (i * cs) buf)) [0..<?t - 1]"
    by (simp add: chunkify_def Let_def butlast_conv_take take_map)
  then obtain i where i: "i < ?t - 1" "c = take cs (drop (i * cs) buf)" using assms(2) by auto
  have "(i + 2) * cs \<le> ?t * cs" using i(1) by (intro mult_le_mono1) linarith
  also have "\<dots> \<le> length buf + cs - 1" by simp
  finally have "i * cs + cs \<le> length buf" using assms(1) by (simp add: algebra_simps)
  then show ?thesis using i(2) by simp
qed

lemma length_concat_const: "(\<And>x. x \<in> set xs \<Longrightarrow> length x = n) \<Longrightarrow> length (concat xs) = length xs * n"
  by (induction xs) auto

lemma chunks_length:
  assumes "0 < cs" shows "chunksToTotalLength cs (chunkify cs buf) = length buf"
proof -
  let ?c = "chunkify cs buf"
  have "buf = concat (butlast ?c) @ last ?c"
    using concat_chunkify [OF assms, of buf] append_butlast_last_id [OF chunkify_not_Nil, of cs buf]
    by (metis concat_append concat.simps append_Nil2)
  then have "length buf = length (concat (butlast ?c)) + length (last ?c)" by (metis length_append)
  then show ?thesis
    using length_chunkify_butlast [OF assms] by (simp add: length_concat_const chunksToTotalLength_def)
qed

lemma chunkify_last_le:
  assumes "0 < cs" shows "length (last (chunkify cs buf)) \<le> cs"
proof (cases "(length buf + cs - 1) div cs \<le> 1")
  case True
  have "length buf \<le> 1 * cs"
    by (rule le_trans [OF totalChunks_cover [OF assms] mult_le_mono1 [OF True]])
  with True show ?thesis by (simp add: chunkify_def Let_def)
next
  case False
  then show ?thesis by (simp add: chunkify_def Let_def last_map)
qed

text \<open>Splitting a buffer loses nothing: the chunks concatenate to the buffer, every chunk but
  the last has exactly the chunk size, the last one at most, and the file size written in the chunk
  info is the length of the buffer.\<close>

theorem chunkify_partitions:
  assumes "0 < cs"
  shows "concat (chunkify cs buf) = buf \<and>
    (\<forall>c \<in> set (butlast (chunkify cs buf)). length c = cs) \<and>
    length (last (chunkify cs buf)) \<le> cs \<and>
    chunksToTotalLength cs (chunkify cs buf) = length buf"
  using assms concat_chunkify length_chunkify_butlast chunkify_last_le chunks_length by blast

lemma chunkify_partitions_witness: "concat (chunkify 4 ''abcdefghij'') = ''abcdefghij''"
  using chunkify_partitions [of 4 "''abcdefghij''"] by simp

lemma json_strings_JArr: "json_strings (Some (JArr (map (\<lambda>b. JStr (f b)) xs))) = Some (map f xs)"
  by (simp add: json_strings_def list_all_iff comp_def)

lemma parse_create_info:
  "parseChunkInfo H (createChunkInfoChunk cs H chunks) =
     Inr \<lparr>ci_chunkIds = map (hash_id H) chunks, ci_filesize = Some (int (chunksToTotalLength cs chunks)),
          ci_merkle = map hex_encode (merkle (map H chunks) H)\<rparr>"
proof -
  let ?j = "JObj [(''type'', JStr ''file''),
      (''chunks'', JArr (map (\<lambda>b. JStr (hex_encode b)) (map H chunks))),
      (''hash'', JStr ''keccak256''), (''filesize'', JNum (int (chunksToTotalLength cs chunks))),
      (''merkle'', JArr (map (\<lambda>b. JStr (hex_encode b)) (merkle (map H chunks) H)))]"
  have "jparse (jprint ?j) = Some ?j" by (rule jparse_print) simp
  then show ?thesis
    by (simp add: parseChunkInfo_def createChunkInfoChunk_def Let_def json_strings_JArr
        comp_def hash_id_def del: jprint.simps)
qed

section \<open>Uploading\<close>

definition chunk_file :: "string \<Rightarrow> string" where
  "chunk_file chunkId = ''chunk_'' @ chunkId"

definition write_missing :: "string \<Rightarrow> string \<times> string \<Rightarrow> store \<Rightarrow> store" where
  "write_missing dir p st =
     (if obj_get (disk st) (dir, chunk_file (fst p)) = None
      then st\<lparr>disk := obj_set (dir, chunk_file (fst p)) (snd p) (disk st)\<rparr> else st)"

definition file_map_create :: "file_map list \<Rightarrow> file_map list \<Rightarrow> file_map list" where
  "file_map_create rows tbl = foldl (\<lambda>t r. if r \<in> set t then t else t @ [r]) tbl rows"

text \<open>\<open>chunks\<close> is the array with its indices, the chunk info at \<open>-1\<close> coming last as
  \<open>Object.entries\<close> has it.  \<open>Chunk.update\<close> takes no \<open>include\<close>, so the statuses of all rows
  that match its \<open>where\<close> change.\<close>

definition enqueueChunksForUpload ::
  "config \<Rightarrow> (string \<Rightarrow> string) \<Rightarrow> (int \<times> string) list \<Rightarrow> string \<Rightarrow> store \<Rightarrow> store" where
  "enqueueChunksForUpload cfg H cks fileId st =
     (let chunkIds = map (\<lambda>(i, d). (i, hash_id H d)) cks;
          st1 = foldl (\<lambda>s (i, d). write_missing (UPLOAD_CACHE_PATH cfg) (hash_id H d, d) s) st cks;
          entries = map (\<lambda>(i, c). (c, new_chunk\<lparr>ul_status := UL_ENQUEUED, dl_status := DL_COMPLETED\<rparr>)) chunkIds;
          st2 = st1\<lparr>chunk_tbl := bulk_create entries (chunk_tbl st1)\<rparr>;
          st3 = st2\<lparr>chunk_tbl := update_where (\<lambda>r. ul_status r \<in> set [UL_NOT_STARTED, UL_FAILED])
                       (\<lambda>r. r\<lparr>ul_status := UL_ENQUEUED, dl_status := DL_COMPLETED\<rparr>) (chunk_tbl st2)\<rparr>
      in st3\<lparr>file_maps := file_map_create
               (map (\<lambda>(i, c). \<lparr>fm_file_id = fileId, fm_chunk_id = c, fm_offset = i\<rparr>) chunkIds)
               (file_maps st3)\<rparr>)"

definition markFileAsFailedUpload :: "string \<Rightarrow> store \<Rightarrow> store" where
  "markFileAsFailedUpload fileId st =
     file_update True False False fileId (\<lambda>f. f_ul_status f \<noteq> F_COMPLETED) (\<lambda>f. f\<lparr>f_ul_status := F_FAILED\<rparr>) st"

definition markFileAsBeingUploaded :: "string \<Rightarrow> nat \<Rightarrow> store \<Rightarrow> store" where
  "markFileAsBeingUploaded fileId fileSize st =
     file_update True False False fileId (\<lambda>f. f_ul_status f = F_NOT_STARTED)
       (\<lambda>f. f\<lparr>f_size := Some fileSize, f_ul_status := F_IN_PROGRESS\<rparr>) st"

definition waitForFileToUpload :: "string \<Rightarrow> store \<Rightarrow> file_status async" where
  "waitForFileToUpload fileId st =
     (case findOrFail fileId (file_tbl st) of
        Inl e \<Rightarrow> Throw e
      | Inr f \<Rightarrow> if f_ul_status f \<in> set [F_COMPLETED, F_FAILED] then Ret (f_ul_status f)
                 else WaitFor FILE_UPLOAD_STATUS_CHANGED fileId)"

definition waitForDirToUpload :: "string \<Rightarrow> store \<Rightarrow> file_status async" where
  "waitForDirToUpload fileId st =
     (case findOrFail fileId (file_tbl st) of
        Inl e \<Rightarrow> Throw e
      | Inr f \<Rightarrow> if f_dir_ul_status f \<in> set [F_COMPLETED, F_FAILED] then Ret (f_dir_ul_status f)
                 else WaitFor FILE_DIR_UPLOAD_STATUS_CHANGED fileId)"

text \<open>The chunks that represent the data, with their indices, and the id of the file.\<close>

definition upload_chunks :: "nat \<Rightarrow> (string \<Rightarrow> string) \<Rightarrow> string \<Rightarrow> (int \<times> string) list" where
  "upload_chunks cs H buf =
     (let cks = chunkify cs buf; idx = zip (map int [0..<length cks]) cks in
      if length cks \<le> 1 then idx else idx @ [(-1, createChunkInfoChunk cs H cks)])"

definition upload_file_id :: "nat \<Rightarrow> (string \<Rightarrow> string) \<Rightarrow> string \<Rightarrow> string" where
  "upload_file_id cs H buf =
     (let cks = chunkify cs buf in
      if length cks \<le> 1 then hash_id H buf else hash_id H (createChunkInfoChunk cs H cks))"

definition uploadData ::
  "config \<Rightarrow> (string \<Rightarrow> string) \<Rightarrow> string \<Rightarrow> bool \<Rightarrow> store \<Rightarrow> store \<times> string async" where
  "uploadData cfg H buf waitForUpload st =
     (let fileId = upload_file_id (CHUNK_SIZE cfg) H buf;
          st1 = st\<lparr>file_tbl := fst (find_or_create new_file fileId (file_tbl st))\<rparr>;
          st2 = enqueueChunksForUpload cfg H (upload_chunks (CHUNK_SIZE cfg) H buf) fileId st1;
          st3 = markFileAsBeingUploaded fileId (length buf) st2
      in if waitForUpload
         then (case waitForFileToUpload fileId st3 of
                 Ret _ \<Rightarrow> (st3, Ret fileId)
               | Throw e \<Rightarrow> (markFileAsFailedUpload fileId st3, Throw e)
               | WaitFor ev k \<Rightarrow> (st3, WaitFor ev k))
         else (st3, Ret fileId))"

section \<open>Downloading a chunk\<close>

definition validateIntegrity :: "(string \<Rightarrow> string) \<Rightarrow> string \<Rightarrow> string \<Rightarrow> bool" where
  "validateIntegrity H chunkId data = (hash_id H data = chunkId)"

text \<open>The two Arweave sources: the transactions of the chunk in order, until one has the data.  A
  failed query or fetch is \<^const>\<open>None\<close>.\<close>

fun source_first_valid ::
  "(string \<Rightarrow> string) \<Rightarrow> (string \<Rightarrow> string option) \<Rightarrow> string \<Rightarrow> string list \<Rightarrow> string option" where
  "source_first_valid H fetch chunkId [] = None"
| "source_first_valid H fetch chunkId (txid # txids) =
     (case fetch txid of
        None \<Rightarrow> source_first_valid H fetch chunkId txids
      | Some buf \<Rightarrow> if \<not> validateIntegrity H chunkId buf
                    then source_first_valid H fetch chunkId txids else Some buf)"

definition sourceArweave ::
  "(string \<Rightarrow> string) \<Rightarrow> (string \<Rightarrow> string list option) \<Rightarrow> (string \<Rightarrow> string option) \<Rightarrow>
   string \<Rightarrow> string option" where
  "sourceArweave H getTxIds fetch chunkId =
     (case getTxIds chunkId of None \<Rightarrow> None | Some txids \<Rightarrow> source_first_valid H fetch chunkId txids)"

fun try_sources ::
  "(string \<Rightarrow> string) \<Rightarrow> (string \<Rightarrow> string option) list \<Rightarrow> string \<Rightarrow> string option" where
  "try_sources H [] chunkId = None"
| "try_sources H (source # sources) chunkId =
     (case source chunkId of
        None \<Rightarrow> try_sources H sources chunkId
      | Some buf \<Rightarrow> if \<not> validateIntegrity H chunkId buf
                    then try_sources H sources chunkId else Some buf)"

definition getChunk ::
  "config \<Rightarrow> (string \<Rightarrow> string) \<Rightarrow> (string \<Rightarrow> string option) list \<Rightarrow> string \<Rightarrow> bool \<Rightarrow> store \<Rightarrow>
   store \<times> string async" where
  "getChunk cfg H sources chunkId useCache st =
     (let (tbl, chunk) = find_or_create new_chunk chunkId (chunk_tbl st);
          st0 = st\<lparr>chunk_tbl := tbl\<rparr>;
          path = (DOWNLOAD_CACHE_PATH cfg, chunk_file chunkId)
      in case (if useCache \<and> dl_status chunk = DL_COMPLETED then obj_get (disk st0) path else None) of
           Some d \<Rightarrow> (st0, Ret d)
         | None \<Rightarrow>
             if dl_status chunk = DL_IN_PROGRESS
             then (st0, WaitFor CHUNK_DOWNLOAD_STATUS_CHANGED chunkId)
             else let chunk1 = chunk\<lparr>dl_status := DL_IN_PROGRESS\<rparr>;
                      st1 = chunk_save chunkId chunk1 st0
                  in (case try_sources H sources chunkId of
                        Some buf \<Rightarrow>
                          (chunk_save chunkId
                             (chunk1\<lparr>ch_size := Some (length buf), dl_status := DL_COMPLETED, ul_status := UL_COMPLETED\<rparr>)
                             (st1\<lparr>disk := obj_set path buf (disk st1)\<rparr>), Ret buf)
                      | None \<Rightarrow>
                          (chunk_save chunkId (chunk1\<lparr>dl_status := DL_FAILED\<rparr>) st1,
                           Throw (PlainError ''Chunk not found''))))"

definition getChunkBinary ::
  "config \<Rightarrow> (string \<Rightarrow> string) \<Rightarrow> (string \<Rightarrow> string option) list \<Rightarrow> string \<Rightarrow> store \<Rightarrow>
   store \<times> string async" where
  "getChunkBinary cfg H sources chunkId st = getChunk cfg H sources chunkId True st"

subsection \<open>Integrity\<close>

text \<open>Every chunk file on disk has the content that its name announces.\<close>

definition disk_sound :: "config \<Rightarrow> (string \<Rightarrow> string) \<Rightarrow> store \<Rightarrow> bool" where
  "disk_sound cfg H st \<longleftrightarrow> (\<forall>dir i d. obj_get (disk st) (dir, chunk_file i) = Some d \<longrightarrow> hash_id H d = i)"

definition settled :: "store \<Rightarrow> bool" where
  "settled st \<longleftrightarrow> (\<forall>i c. obj_get (chunk_tbl st) i = Some c \<longrightarrow> dl_status c \<noteq> DL_IN_PROGRESS)"

lemma chunk_file_inj [simp]: "chunk_file a = chunk_file b \<longleftrightarrow> a = b"
  by (simp add: chunk_file_def)

lemma try_sources_valid: "try_sources H sources i = Some d \<Longrightarrow> hash_id H d = i"
  by (induction sources) (auto simp: validateIntegrity_def split: option.splits if_splits)

lemma try_sources_found:
  "src \<in> set sources \<Longrightarrow> src i = Some d \<Longrightarrow> hash_id H d = i \<Longrightarrow> \<exists>d'. try_sources H sources i = Some d'"
  by (induction sources) (auto simp: validateIntegrity_def split: option.splits)

lemma getChunk_integrity:
  assumes "disk_sound cfg H st"
  shows "snd (getChunk cfg H sources i u st) = Ret d \<Longrightarrow> hash_id H d = i"
    and "disk_sound cfg H (fst (getChunk cfg H sources i u st))"
  using assms try_sources_valid [of H sources i]
  by (auto simp: getChunk_def Let_def disk_sound_def split: prod.splits option.splits if_splits)

lemma getChunk_settled:
  assumes "settled st"
  shows "settled (fst (getChunk cfg H sources i u st))"
    and "snd (getChunk cfg H sources i u st) \<noteq> WaitFor e k"
  using assms snd_find_or_create [of new_chunk i "chunk_tbl st"]
  by (auto simp: getChunk_def Let_def settled_def find_or_create_def new_chunk_def
      split: prod.splits option.splits if_splits)

lemma getChunk_file_tbl [simp]: "file_tbl (fst (getChunk cfg H sources i u st)) = file_tbl st"
  by (auto simp: getChunk_def Let_def split: prod.splits option.splits if_splits)

lemma getChunk_disk_other:
  "snd k \<noteq> chunk_file i \<Longrightarrow> obj_get (disk (fst (getChunk cfg H sources i u st))) k = obj_get (disk st) k"
  by (cases k) (auto simp: getChunk_def Let_def split: prod.splits option.splits if_splits)

lemma getChunk_outcome:
  assumes "disk_sound cfg H st" "settled st"
  shows "disk_sound cfg H (fst (getChunk cfg H sources i u st)) \<and>
    settled (fst (getChunk cfg H sources i u st)) \<and>
    (\<exists>d. snd (getChunk cfg H sources i u st) = Ret d \<and> hash_id H d = i \<or>
         snd (getChunk cfg H sources i u st) = Throw (PlainError ''Chunk not found''))"
proof -
  have "(\<exists>d. snd (getChunk cfg H sources i u st) = Ret d) \<or>
        snd (getChunk cfg H sources i u st) = Throw (PlainError ''Chunk not found'') \<or>
        (\<exists>e k. snd (getChunk cfg H sources i u st) = WaitFor e k)"
    by (auto simp: getChunk_def Let_def split: prod.splits option.splits if_splits)
  with getChunk_integrity [OF assms(1)] getChunk_settled [OF assms(2)] show ?thesis by blast
qed

text \<open>C2: whatever the sources answer, a chunk that \<open>getChunk\<close> returns hashes to the id asked
  for, the chunk files on disk stay sound, and the call leaves no chunk marked as in progress.\<close>

theorem getChunk_verifies:
  assumes "disk_sound cfg H st" "settled st"
  shows "disk_sound cfg H (fst (getChunk cfg H sources i u st)) \<and>
    settled (fst (getChunk cfg H sources i u st)) \<and>
    (\<exists>d. snd (getChunk cfg H sources i u st) = Ret d \<and> hash_id H d = i \<or>
         snd (getChunk cfg H sources i u st) = Throw (PlainError ''Chunk not found''))"
  using assms by (rule getChunk_outcome)

lemma getChunk_verifies_witness:
  "\<exists>d. snd (getChunk example_config (\<lambda>x. x) [\<lambda>_. Some ''bad'', \<lambda>_. Some ''a''] ''61'' True empty_store) = Ret d \<and>
      hash_id (\<lambda>x. x) d = ''61'' \<or>
      snd (getChunk example_config (\<lambda>x. x) [\<lambda>_. Some ''bad'', \<lambda>_. Some ''a''] ''61'' True empty_store) =
        Throw (PlainError ''Chunk not found'')"
  using getChunk_verifies [of example_config "\<lambda>x. x" empty_store "[\<lambda>_. Some ''bad'', \<lambda>_. Some ''a'']" "''61''" True]
  by (simp add: disk_sound_def settled_def empty_store_def)

lemma getChunk_evaluates:
  "snd (getChunk example_config (\<lambda>x. x) [\<lambda>_. Some ''bad'', \<lambda>_. Some ''a''] ''61'' True empty_store) = Ret ''a''"
  by code_simp

text \<open>Data of which a source has a copy and that collides with no other data is found.\<close>

definition served :: "(string \<Rightarrow> string) \<Rightarrow> (string \<Rightarrow> string option) list \<Rightarrow> string \<Rightarrow> bool" where
  "served H sources d \<longleftrightarrow> (\<exists>src \<in> set sources. src (hash_id H d) = Some d) \<and> (\<forall>d'. H d' = H d \<longrightarrow> d' = d)"

lemma getChunk_served:
  assumes "disk_sound cfg H st" "settled st" "served H sources d"
  shows "\<exists>st'. getChunkBinary cfg H sources (hash_id H d) st = (st', Ret d) \<and> disk_sound cfg H st' \<and>
    settled st' \<and> file_tbl st' = file_tbl st \<and>
    (\<forall>k. (\<forall>j. snd k \<noteq> chunk_file j) \<longrightarrow> obj_get (disk st') k = obj_get (disk st) k)"
proof -
  let ?g = "getChunk cfg H sources (hash_id H d) True st"
  obtain d' where t: "try_sources H sources (hash_id H d) = Some d'"
    using assms(3) try_sources_found by (metis served_def)
  then have "snd ?g \<noteq> Throw (PlainError ''Chunk not found'')"
    by (auto simp: getChunk_def Let_def split: prod.splits option.splits if_splits)
  with getChunk_outcome [OF assms(1,2), of sources "hash_id H d" True]
  obtain d'' where d: "snd ?g = Ret d''" "hash_id H d'' = hash_id H d" by blast
  then have "d'' = d" using assms(3) by (simp add: served_def hash_id_def hex_encode_inj)
  with d(1) have "?g = (fst ?g, Ret d)" by (metis prod.collapse)
  then show ?thesis
    using getChunk_integrity(2) [OF assms(1)] getChunk_settled(1) [OF assms(2)] getChunk_disk_other
    unfolding getChunkBinary_def by (metis getChunk_file_tbl)
qed

section \<open>Downloading a file\<close>

definition file_file :: "string \<Rightarrow> string" where
  "file_file fileId = ''file_'' @ fileId"

definition normal_id :: "string \<Rightarrow> string" where
  "normal_id rawId = to_lower (strip0x rawId)"

definition validateStorageId :: "string \<Rightarrow> unit result" where
  "validateStorageId i =
     (if \<not> isValidStorageId i then Inl (PlainError ''Invalid storage ID'')
      else if isZeroStorageId i then Inl (PlainError ''Zero storage ID doesn't exist'')
      else Inr ())"

definition mark_download :: "file_status \<Rightarrow> string \<Rightarrow> store \<Rightarrow> store" where
  "mark_download s fileId st =
     file_update False False True fileId (\<lambda>f. f_dl_status f \<noteq> F_COMPLETED) (\<lambda>f. f\<lparr>f_dl_status := s\<rparr>) st"

fun getChunks ::
  "config \<Rightarrow> (string \<Rightarrow> string) \<Rightarrow> (string \<Rightarrow> string option) list \<Rightarrow> string list \<Rightarrow> store \<Rightarrow>
   store \<times> string list async" where
  "getChunks cfg H sources [] st = (st, Ret [])"
| "getChunks cfg H sources (c # cs) st =
     (case getChunkBinary cfg H sources c st of
        (st1, Ret d) \<Rightarrow>
          (case getChunks cfg H sources cs st1 of
             (st2, Ret ds) \<Rightarrow> (st2, Ret (d # ds))
           | (st2, Throw e) \<Rightarrow> (st2, Throw e)
           | (st2, WaitFor ev k) \<Rightarrow> (st2, WaitFor ev k))
      | (st1, Throw e) \<Rightarrow> (st1, Throw e)
      | (st1, WaitFor ev k) \<Rightarrow> (st1, WaitFor ev k))"

text \<open>The last chunk is cut at the file's size; a size that is no number cuts it at 0.\<close>

definition join_chunks :: "nat \<Rightarrow> int option \<Rightarrow> string list \<Rightarrow> string" where
  "join_chunks cs filesize bufs =
     concat (butlast bufs) @
     (if bufs = [] then []
      else js_slice 0 (case filesize of None \<Rightarrow> 0 | Some n \<Rightarrow> n - (int (length bufs) - 1) * int cs) (last bufs))"

definition getFile_download ::
  "config \<Rightarrow> (string \<Rightarrow> string) \<Rightarrow> (string \<Rightarrow> string option) list \<Rightarrow> string \<Rightarrow> store \<Rightarrow>
   store \<times> string async" where
  "getFile_download cfg H sources fileId st =
     (case getChunkBinary cfg H sources fileId (mark_download F_IN_PROGRESS fileId st) of
        (st1, Throw e) \<Rightarrow> (st1, Throw e)
      | (st1, WaitFor ev k) \<Rightarrow> (st1, WaitFor ev k)
      | (st1, Ret chunkInfo) \<Rightarrow>
          if \<not> starts_with CHUNKINFO_PROLOGUE chunkInfo
          then (mark_download F_COMPLETED fileId
                  (st1\<lparr>disk := obj_set (FILES_DIR cfg, file_file fileId) chunkInfo (disk st1)\<rparr>), Ret chunkInfo)
          else (case parseChunkInfo H chunkInfo of
                  Inl e \<Rightarrow> (st1, Throw e)
                | Inr info \<Rightarrow>
                    (case getChunks cfg H sources (ci_chunkIds info) st1 of
                       (st2, Throw e) \<Rightarrow> (st2, Throw e)
                     | (st2, WaitFor ev k) \<Rightarrow> (st2, WaitFor ev k)
                     | (st2, Ret bufs) \<Rightarrow>
                         (let fileBuffer = join_chunks (CHUNK_SIZE cfg) (ci_filesize info) bufs
                          in (mark_download F_COMPLETED fileId
                                (st2\<lparr>disk := obj_set (FILES_DIR cfg, file_file fileId) fileBuffer (disk st2)\<rparr>),
                              Ret fileBuffer)))))"

definition getFile ::
  "config \<Rightarrow> (string \<Rightarrow> string) \<Rightarrow> (string \<Rightarrow> string option) list \<Rightarrow> string \<Rightarrow> bool \<Rightarrow> store \<Rightarrow>
   store \<times> string async" where
  "getFile cfg H sources rawId useCache st =
     (let fileId = normal_id rawId in
      case validateStorageId fileId of
        Inl e \<Rightarrow> (st, Throw e)
      | Inr _ \<Rightarrow>
          (let (tbl, file) = find_or_create new_file fileId (file_tbl st);
               st0 = st\<lparr>file_tbl := tbl\<rparr>
           in case (if useCache \<and> f_dl_status file = F_COMPLETED
                    then obj_get (disk st0) (FILES_DIR cfg, file_file fileId) else None) of
                Some d \<Rightarrow> (st0, Ret d)
              | None \<Rightarrow>
                  if f_dl_status file = F_IN_PROGRESS
                  then (st0, WaitFor FILE_DOWNLOAD_STATUS_CHANGED fileId)
                  else (case getFile_download cfg H sources fileId st0 of
                          (st1, Throw e) \<Rightarrow> (mark_download F_FAILED fileId st1, Throw e)
                        | r \<Rightarrow> r)))"

subsection \<open>Upload and download compose to the identity\<close>

text \<open>The states in which a node is between requests: its chunk files are sound and nothing is
  being downloaded.\<close>

definition node_ok :: "config \<Rightarrow> (string \<Rightarrow> string) \<Rightarrow> store \<Rightarrow> bool" where
  "node_ok cfg H st \<longleftrightarrow> disk_sound cfg H st \<and> settled st \<and>
     (\<forall>i f. obj_get (file_tbl st) i = Some f \<longrightarrow> f_dl_status f \<noteq> F_IN_PROGRESS)"

text \<open>A blob that can be stored and found again: every chunk of it is served, its id is a valid
  one, and a blob of one chunk does not look like a chunk info.\<close>

definition storable ::
  "nat \<Rightarrow> (string \<Rightarrow> string) \<Rightarrow> (string \<Rightarrow> string option) list \<Rightarrow> string \<Rightarrow> bool" where
  "storable cs H sources d \<longleftrightarrow>
     (\<forall>p \<in> set (upload_chunks cs H d). served H sources (snd p)) \<and>
     \<not> isZeroStorageId (upload_file_id cs H d) \<and>
     (length (chunkify cs d) \<le> 1 \<longrightarrow> \<not> starts_with CHUNKINFO_PROLOGUE d)"

lemma file_file_not_chunk [simp]: "file_file a \<noteq> chunk_file b" "chunk_file b \<noteq> file_file a"
  by (simp_all add: file_file_def chunk_file_def)

lemma file_file_inj [simp]: "file_file a = file_file b \<longleftrightarrow> a = b"
  by (simp add: file_file_def)

lemma mark_download_fields [simp]:
  "chunk_tbl (mark_download s i st) = chunk_tbl st" "disk (mark_download s i st) = disk st"
  "obj_get (file_tbl (mark_download s i st)) k =
     map_option (\<lambda>f. if k = i \<and> f_dl_status f \<noteq> F_COMPLETED then f\<lparr>f_dl_status := s\<rparr> else f)
       (obj_get (file_tbl st) k)"
  by (simp_all add: mark_download_def)

lemma ok_simps [simp]:
  "disk_sound cfg H (mark_download s i st) = disk_sound cfg H st"
  "settled (mark_download s i st) = settled st"
  "settled (st\<lparr>disk := x\<rparr>) = settled st" "settled (st\<lparr>file_tbl := y\<rparr>) = settled st"
  "disk_sound cfg H (st\<lparr>file_tbl := y\<rparr>) = disk_sound cfg H st"
  by (simp_all add: disk_sound_def settled_def)

lemma disk_sound_file [simp]:
  "disk_sound cfg H (st\<lparr>disk := obj_set (dir, file_file i) d (disk st)\<rparr>) = disk_sound cfg H st"
  by (simp add: disk_sound_def)

lemma getChunks_served:
  assumes "\<And>d. d \<in> set ds \<Longrightarrow> served H sources d" "disk_sound cfg H st" "settled st"
  shows "\<exists>st'. getChunks cfg H sources (map (hash_id H) ds) st = (st', Ret ds) \<and> disk_sound cfg H st' \<and>
    settled st' \<and> file_tbl st' = file_tbl st \<and>
    (\<forall>k. (\<forall>j. snd k \<noteq> chunk_file j) \<longrightarrow> obj_get (disk st') k = obj_get (disk st) k)"
  using assms
proof (induction ds arbitrary: st)
  case (Cons d ds)
  obtain st1 where 1: "getChunkBinary cfg H sources (hash_id H d) st = (st1, Ret d)" "disk_sound cfg H st1"
    "settled st1" "file_tbl st1 = file_tbl st"
    "\<forall>k. (\<forall>j. snd k \<noteq> chunk_file j) \<longrightarrow> obj_get (disk st1) k = obj_get (disk st) k"
    using getChunk_served [OF Cons.prems(2,3), of sources d] Cons.prems(1) by auto
  obtain st2 where "getChunks cfg H sources (map (hash_id H) ds) st1 = (st2, Ret ds)" "disk_sound cfg H st2"
    "settled st2" "file_tbl st2 = file_tbl st1"
    "\<forall>k. (\<forall>j. snd k \<noteq> chunk_file j) \<longrightarrow> obj_get (disk st2) k = obj_get (disk st1) k"
    using Cons.IH [of st1] Cons.prems(1) 1 by auto
  with 1 show ?case by simp
qed simp

lemma join_chunkify:
  assumes "0 < cs"
  shows "join_chunks cs (Some (int (chunksToTotalLength cs (chunkify cs buf)))) (chunkify cs buf) = buf"
proof -
  let ?c = "chunkify cs buf"
  have l: "length ?c \<ge> 1" using chunkify_not_Nil [of cs buf] by (cases ?c) auto
  then have "int (chunksToTotalLength cs ?c) - (int (length ?c) - 1) * int cs = int (length (last ?c))"
    by (simp add: chunksToTotalLength_def of_nat_diff)
  moreover have "js_slice 0 (int (length (last ?c))) (last ?c) = last ?c"
    using js_slice_nat [of 0 "length (last ?c)" "last ?c"] by simp
  ultimately have "join_chunks cs (Some (int (chunksToTotalLength cs ?c))) ?c = concat (butlast ?c) @ last ?c"
    by (simp add: join_chunks_def)
  also have "\<dots> = concat (butlast ?c @ [last ?c])" by (simp del: append_butlast_last_id)
  also have "\<dots> = concat ?c" by (simp only: append_butlast_last_id [OF chunkify_not_Nil])
  also have "\<dots> = buf" by (rule concat_chunkify [OF assms])
  finally show ?thesis .
qed

lemma upload_chunks_data: "snd ` set (upload_chunks cs H d) =
    set (chunkify cs d) \<union> (if length (chunkify cs d) \<le> 1 then {} else {createChunkInfoChunk cs H (chunkify cs d)})"
proof -
  have "snd ` set (zip (map int [0..<length xs]) xs) = set xs" for xs :: "string list"
    by (metis map_snd_zip length_map length_upt minus_nat.diff_0 set_map)
  then show ?thesis by (auto simp: upload_chunks_def Let_def)
qed

lemma storable_served: "storable cs H sources d \<Longrightarrow> c \<in> set (chunkify cs d) \<Longrightarrow> served H sources c"
  using upload_chunks_data [of cs H d] by (fastforce simp: storable_def)

lemma storable_info:
  "storable cs H sources d \<Longrightarrow> \<not> length (chunkify cs d) \<le> 1 \<Longrightarrow>
   served H sources (createChunkInfoChunk cs H (chunkify cs d))"
  using upload_chunks_data [of cs H d] by (fastforce simp: storable_def)

lemma prologue_info: "starts_with CHUNKINFO_PROLOGUE (createChunkInfoChunk cs H xs)"
  by (simp add: createChunkInfoChunk_def Let_def)

lemma download_served:
  assumes "0 < CHUNK_SIZE cfg" "storable (CHUNK_SIZE cfg) H sources d" "disk_sound cfg H st" "settled st"
  shows "\<exists>st'. getFile_download cfg H sources (upload_file_id (CHUNK_SIZE cfg) H d) st =
      (mark_download F_COMPLETED (upload_file_id (CHUNK_SIZE cfg) H d) st', Ret d) \<and>
    disk_sound cfg H st' \<and> settled st' \<and>
    file_tbl st' = file_tbl (mark_download F_IN_PROGRESS (upload_file_id (CHUNK_SIZE cfg) H d) st) \<and>
    (\<forall>k. (\<forall>j. snd k \<noteq> chunk_file j) \<longrightarrow> obj_get (disk st') k =
       (if k = (FILES_DIR cfg, file_file (upload_file_id (CHUNK_SIZE cfg) H d)) then Some d
        else obj_get (disk st) k))"
proof -
  let ?cs = "CHUNK_SIZE cfg" and ?i = "upload_file_id (CHUNK_SIZE cfg) H d"
  let ?st = "mark_download F_IN_PROGRESS ?i st"
  have ok: "disk_sound cfg H ?st" "settled ?st"
    using assms(3,4) by simp_all
  show ?thesis
  proof (cases "length (chunkify ?cs d) \<le> 1")
    case True
    then have c: "chunkify ?cs d = [d]" by (rule chunkify_single)
    then have i: "?i = hash_id H d" and s: "served H sources d"
      using storable_served [OF assms(2), of d] by (simp_all add: upload_file_id_def Let_def)
    obtain st1 where 1: "getChunkBinary cfg H sources ?i ?st = (st1, Ret d)" "disk_sound cfg H st1"
      "settled st1" "file_tbl st1 = file_tbl ?st"
      "\<forall>k. (\<forall>j. snd k \<noteq> chunk_file j) \<longrightarrow> obj_get (disk st1) k = obj_get (disk ?st) k"
      using getChunk_served [OF ok s] i by auto
    have "\<not> starts_with CHUNKINFO_PROLOGUE d" using assms(2) True by (simp add: storable_def)
    with 1 show ?thesis
      by (intro exI [of _ "st1\<lparr>disk := obj_set (FILES_DIR cfg, file_file ?i) d (disk st1)\<rparr>"])
        (simp add: getFile_download_def)
  next
    case False
    let ?info = "createChunkInfoChunk ?cs H (chunkify ?cs d)"
    have i: "?i = hash_id H ?info" using False by (simp add: upload_file_id_def Let_def)
    obtain st1 where 1: "getChunkBinary cfg H sources ?i ?st = (st1, Ret ?info)" "disk_sound cfg H st1"
      "settled st1" "file_tbl st1 = file_tbl ?st"
      "\<forall>k. (\<forall>j. snd k \<noteq> chunk_file j) \<longrightarrow> obj_get (disk st1) k = obj_get (disk ?st) k"
      using getChunk_served [OF ok storable_info [OF assms(2) False]] i by auto
    obtain st2 where 2: "getChunks cfg H sources (map (hash_id H) (chunkify ?cs d)) st1 = (st2, Ret (chunkify ?cs d))"
      "disk_sound cfg H st2" "settled st2" "file_tbl st2 = file_tbl st1"
      "\<forall>k. (\<forall>j. snd k \<noteq> chunk_file j) \<longrightarrow> obj_get (disk st2) k = obj_get (disk st1) k"
      using getChunks_served [of "chunkify ?cs d" H sources cfg st1, OF _ 1(2,3)]
        storable_served [OF assms(2)] by blast
    from 1 2 show ?thesis
      by (intro exI [of _ "st2\<lparr>disk := obj_set (FILES_DIR cfg, file_file ?i) d (disk st2)\<rparr>"])
        (simp add: getFile_download_def prologue_info parse_create_info join_chunkify [OF assms(1)])
  qed
qed

lemma normal_id_hex: "normal_id (hex_encode h) = hex_encode h"
proof -
  have "lower_char c = c" if "is_hex_lower c" for c
  proof -
    have "list_all (\<lambda>c. lower_char c = c) ''0123456789abcdef''" by code_simp
    with that show ?thesis unfolding is_hex_lower_def list_all_iff by blast
  qed
  then show ?thesis
    by (simp add: normal_id_def to_lower_def map_idI is_hex_lower_encode)
qed

lemma upload_file_id_hash: "\<exists>x. upload_file_id cs H d = hash_id H x"
  by (auto simp: upload_file_id_def Let_def)

text \<open>The node has no file under the blob's id, or the right one.\<close>

definition file_cached_ok :: "config \<Rightarrow> (string \<Rightarrow> string) \<Rightarrow> string \<Rightarrow> store \<Rightarrow> bool" where
  "file_cached_ok cfg H d st \<longleftrightarrow>
     obj_get (disk st) (FILES_DIR cfg, file_file (upload_file_id (CHUNK_SIZE cfg) H d)) \<in> {None, Some d}"

lemma no_download_left:
  assumes "\<And>j f. obj_get (file_tbl st) j = Some f \<Longrightarrow> f_dl_status f \<noteq> F_IN_PROGRESS"
    and "file_tbl st' = file_tbl (mark_download F_IN_PROGRESS i st)"
    and "obj_get (file_tbl (mark_download F_COMPLETED i st')) j = Some f"
  shows "f_dl_status f \<noteq> F_IN_PROGRESS"
proof -
  have "obj_get (file_tbl st') j = obj_get (file_tbl (mark_download F_IN_PROGRESS i st)) j"
    using assms(2) by simp
  then have e: "map_option (\<lambda>f. if j = i \<and> f_dl_status f \<noteq> F_COMPLETED then f\<lparr>f_dl_status := F_COMPLETED\<rparr> else f)
      (map_option (\<lambda>f. if j = i \<and> f_dl_status f \<noteq> F_COMPLETED then f\<lparr>f_dl_status := F_IN_PROGRESS\<rparr> else f)
        (obj_get (file_tbl st) j)) = Some f"
    using assms(3) by simp
  show ?thesis
  proof (cases "obj_get (file_tbl st) j")
    case (Some f0)
    with e assms(1) [OF Some] show ?thesis by (auto split: if_splits)
  qed (use e in simp)
qed

lemma getFile_served:
  assumes "0 < CHUNK_SIZE cfg" "\<forall>x. length (H x) = 32" "storable (CHUNK_SIZE cfg) H sources d"
    and "node_ok cfg H st" "file_cached_ok cfg H d st"
  shows "\<exists>st'. getFile cfg H sources (upload_file_id (CHUNK_SIZE cfg) H d) u st = (st', Ret d) \<and>
    node_ok cfg H st' \<and> file_cached_ok cfg H d st' \<and>
    (\<forall>d'. upload_file_id (CHUNK_SIZE cfg) H d' \<noteq> upload_file_id (CHUNK_SIZE cfg) H d \<longrightarrow>
       file_cached_ok cfg H d' st \<longrightarrow> file_cached_ok cfg H d' st')"
proof -
  let ?i = "upload_file_id (CHUNK_SIZE cfg) H d"
  obtain x where x: "?i = hash_id H x" using upload_file_id_hash by blast
  have n: "normal_id ?i = ?i" by (simp add: x hash_id_def normal_id_hex)
  have v: "validateStorageId ?i = Inr ()"
    using assms(2,3) x isValidStorageId_hex [of "H x"]
    by (simp add: validateStorageId_def storable_def hash_id_def)
  let ?p = "find_or_create new_file ?i (file_tbl st)"
  let ?st = "st\<lparr>file_tbl := fst ?p\<rparr>" and ?k = "(FILES_DIR cfg, file_file ?i)"
  have f: "f_dl_status (snd ?p) \<noteq> F_IN_PROGRESS"
    using assms(4) by (auto simp: node_ok_def find_or_create_def new_file_def split: option.splits)
  have ok: "node_ok cfg H ?st" "disk_sound cfg H ?st" "settled ?st"
    using assms(4) by (auto simp: node_ok_def disk_sound_def settled_def new_file_def)
  show ?thesis
  proof (cases "if u \<and> f_dl_status (snd ?p) = F_COMPLETED then obj_get (disk ?st) ?k else None")
    case (Some c)
    then have "c = d" using assms(5) by (auto simp: file_cached_ok_def split: if_splits)
    with Some have "getFile cfg H sources ?i u st = (?st, Ret d)"
      by (simp add: getFile_def n v Let_def case_prod_unfold)
    with ok(1) assms(5) show ?thesis by (simp add: file_cached_ok_def)
  next
    case None
    obtain st' where g: "getFile_download cfg H sources ?i ?st = (mark_download F_COMPLETED ?i st', Ret d)"
      "disk_sound cfg H st'" "settled st'" "file_tbl st' = file_tbl (mark_download F_IN_PROGRESS ?i ?st)"
      "\<forall>k. (\<forall>j. snd k \<noteq> chunk_file j) \<longrightarrow> obj_get (disk st') k = (if k = ?k then Some d else obj_get (disk ?st) k)"
      using download_served [OF assms(1,3) ok(2,3)] by blast
    have "node_ok cfg H (mark_download F_COMPLETED ?i st')"
      using g(2,3) ok(1) no_download_left [OF _ g(4)] unfolding node_ok_def ok_simps by blast
    moreover have "getFile cfg H sources ?i u st = (mark_download F_COMPLETED ?i st', Ret d)"
      using None f g(1) by (simp add: getFile_def n v Let_def case_prod_unfold)
    moreover have "obj_get (disk st') (FILES_DIR cfg, file_file j) =
        (if j = ?i then Some d else obj_get (disk st) (FILES_DIR cfg, file_file j))" for j
      using g(5) by simp
    ultimately show ?thesis by (simp add: file_cached_ok_def)
  qed
qed


definition example_hash :: "string \<Rightarrow> string" where
  "example_hash x = replicate 32 (if x = ''abc'' then CHR ''a'' else CHR ''b'')"


text \<open>A single-chunk file whose content starts with the prologue is taken for a chunk info, so it
  cannot be read back.\<close>

lemma prologue_file_unreadable:
  "snd (getFile_download example_config (\<lambda>x. x) [\<lambda>_. Some (CHUNKINFO_PROLOGUE @ ''x'')]
     (hash_id (\<lambda>x. x) (CHUNKINFO_PROLOGUE @ ''x'')) empty_store) = Throw (PlainError ''SyntaxError'')"
  by code_simp

text \<open>\<open>uploadData\<close> resolves with the file's id when the upload has failed, since
  \<open>waitForFileToUpload\<close> resolves with the status \<open>FAILED\<close> and its value is not looked at.\<close>

lemma failed_upload_resolves:
  assumes "waitForFileToUpload (upload_file_id (CHUNK_SIZE cfg) H d)
      (fst (uploadData cfg H d False st)) = Ret F_FAILED"
  shows "snd (uploadData cfg H d True st) = Ret (upload_file_id (CHUNK_SIZE cfg) H d)"
  using assms by (simp add: uploadData_def Let_def)

text \<open>What an upload leaves behind for the upload loop: every chunk of the data, under its id.\<close>

lemma obj_get_write_missing:
  "obj_get (disk (write_missing dir (i, d) st)) k =
     (if k = (dir, chunk_file i) \<and> obj_get (disk st) k = None then Some d else obj_get (disk st) k)"
  by (auto simp: write_missing_def)

lemma disk_sound_write_missing:
  "disk_sound cfg H st \<Longrightarrow> hash_id H d = i \<Longrightarrow> disk_sound cfg H (write_missing dir (i, d) st)"
  by (auto simp: disk_sound_def obj_get_write_missing split: if_splits)

lemma disk_writes_sound:
  "disk_sound cfg H st \<Longrightarrow>
   disk_sound cfg H (foldl (\<lambda>s (i, d). write_missing dir (hash_id H d, d) s) st cks)"
  by (induction cks arbitrary: st) (auto intro: disk_sound_write_missing)

lemma disk_writes_mono:
  "obj_get (disk st) k = Some x \<Longrightarrow>
   obj_get (disk (foldl (\<lambda>s (i, d). write_missing dir (hash_id H d, d) s) st cks)) k = Some x"
  by (induction cks arbitrary: st) (auto simp: obj_get_write_missing)

lemma disk_writes_all:
  "p \<in> set cks \<Longrightarrow>
   \<exists>x. obj_get (disk (foldl (\<lambda>s (i, d). write_missing dir (hash_id H d, d) s) st cks))
     (dir, chunk_file (hash_id H (snd p))) = Some x"
proof (induction cks arbitrary: st)
  case (Cons q cks)
  show ?case
  proof (cases "p = q")
    case True
    have "\<exists>x. obj_get (disk (write_missing dir (hash_id H (snd q), snd q) st))
        (dir, chunk_file (hash_id H (snd q))) = Some x"
      by (auto simp: obj_get_write_missing)
    then show ?thesis using disk_writes_mono by (fastforce simp: True case_prod_unfold)
  qed (use Cons in \<open>auto simp: case_prod_unfold\<close>)
qed simp

lemma enqueue_disk:
  "disk (enqueueChunksForUpload cfg H cks i st) =
     disk (foldl (\<lambda>s (i, d). write_missing (UPLOAD_CACHE_PATH cfg) (hash_id H d, d) s) st cks)"
  by (simp add: enqueueChunksForUpload_def Let_def case_prod_unfold)

lemma uploadData_disk:
  "disk (fst (uploadData cfg H d w st)) =
     disk (enqueueChunksForUpload cfg H (upload_chunks (CHUNK_SIZE cfg) H d) (upload_file_id (CHUNK_SIZE cfg) H d)
       (st\<lparr>file_tbl := fst (find_or_create new_file (upload_file_id (CHUNK_SIZE cfg) H d) (file_tbl st))\<rparr>))"
  by (simp add: uploadData_def Let_def markFileAsFailedUpload_def markFileAsBeingUploaded_def split: async.splits)

lemma disk_sound_disk: "disk a = disk b \<Longrightarrow> disk_sound cfg H b \<Longrightarrow> disk_sound cfg H a"
  by (simp add: disk_sound_def)

lemma uploadData_sound: "disk_sound cfg H st \<Longrightarrow> disk_sound cfg H (fst (uploadData cfg H d w st))"
  by (rule disk_sound_disk [OF trans [OF uploadData_disk enqueue_disk]], rule disk_writes_sound) simp

text \<open>After \<open>uploadData\<close> every chunk of the data, the chunk info included, lies in the upload
  cache under its id with content of that hash, and the chunk files stay sound.\<close>

theorem uploadData_stores_chunks:
  assumes "disk_sound cfg H st" "(idx, c) \<in> set (upload_chunks (CHUNK_SIZE cfg) H d)"
  shows "disk_sound cfg H (fst (uploadData cfg H d w st)) \<and>
    (\<exists>x. obj_get (disk (fst (uploadData cfg H d w st))) (UPLOAD_CACHE_PATH cfg, chunk_file (hash_id H c)) = Some x \<and>
         H x = H c)"
proof -
  let ?st = "fst (uploadData cfg H d w st)"
  have ok: "disk_sound cfg H ?st" by (rule uploadData_sound [OF assms(1)])
  moreover obtain x where "obj_get (disk ?st) (UPLOAD_CACHE_PATH cfg, chunk_file (hash_id H c)) = Some x"
    unfolding uploadData_disk enqueue_disk using disk_writes_all [OF assms(2)] by fastforce
  moreover from this ok have "hash_id H x = hash_id H c" unfolding disk_sound_def by blast
  ultimately show ?thesis unfolding hash_id_def hex_encode_inj by blast
qed

lemma uploadData_stores_chunks_witness:
  "\<exists>x. obj_get (disk (fst (uploadData example_config (\<lambda>x. x) ''abc'' True empty_store)))
     (''cache'', chunk_file ''616263'') = Some x \<and> x = ''abc''"
proof -
  have "(0, ''abc'') \<in> set (upload_chunks (CHUNK_SIZE example_config) (\<lambda>x. x) ''abc'')"
    "disk_sound example_config (\<lambda>x. x) empty_store" "hash_id (\<lambda>x. x) ''abc'' = ''616263''"
    "UPLOAD_CACHE_PATH example_config = ''cache''"
    by (code_simp, simp add: disk_sound_def empty_store_def, code_simp, code_simp)
  then show ?thesis
    using uploadData_stores_chunks [of example_config "\<lambda>x. x" empty_store 0 "''abc''" "''abc''" True] by simp
qed

end
