(* ===== verification/Streaming.thy ===== *)
theory Streaming
  imports Storage
begin

text \<open>
  Serving a file to an HTTP client: \<open>serveReadableStreamWithFullData\<close> and
  \<open>getFileAsReadStream\<close> of \<open>src/client/storage/index.ts\<close>, for the encoding
  \<open>null\<close> with which the proxy calls them.  The body of a response is the
  concatenation of what is pushed into the stream.  The pausing and resuming
  of the download is the step relation \<open>stream_reach\<close>.
\<close>

section \<open>Range requests\<close>

record response =
  r_status :: nat
  r_content_length :: "nat option"
  r_content_range :: "(nat \<times> nat \<times> int) option"
  r_body :: "string async"

text \<open>\<open>Number(range.replace(/bytes=/, '').split('-')[0])\<close> for decimal digits; the empty string
  is 0, anything else is NaN.\<close>

definition range_start :: "string \<Rightarrow> nat option" where
  "range_start rng =
     (let s = hd (split_ch CHR ''-'' (replace_first ''bytes='' [] rng))
      in if s = [] then Some 0 else read_nat s)"

text \<open>\<open>Math.max(start, Math.min(start + 1024 * 1024, totalSize - 1))\<close>.\<close>

definition range_end :: "nat \<Rightarrow> int \<Rightarrow> nat" where
  "range_end start totalSize = nat (max (int start) (min (int start + 1024 * 1024) (totalSize - 1)))"

text \<open>With a start that is NaN the positions are NaN too, and the slice is empty.\<close>

definition serveReadableStreamWithFullData :: "string \<Rightarrow> string option \<Rightarrow> response" where
  "serveReadableStreamWithFullData data rng =
     (case rng of
        None \<Rightarrow> \<lparr>r_status = 200, r_content_length = Some (length data), r_content_range = None, r_body = Ret data\<rparr>
      | Some r \<Rightarrow>
          (case range_start r of
             None \<Rightarrow> \<lparr>r_status = 206, r_content_length = None, r_content_range = None, r_body = Ret []\<rparr>
           | Some start \<Rightarrow>
               (let e = range_end start (int (length data)) in
                \<lparr>r_status = 206, r_content_length = Some (e - start + 1),
                 r_content_range = Some (start, e, int (length data)),
                 r_body = Ret (js_slice (int start) (int e + 1) data)\<rparr>)))"

lemma range_end_bounds:
  "start < n \<Longrightarrow> start \<le> range_end start (int n) \<and> range_end start (int n) < n \<and>
     range_end start (int n) \<le> start + 1024 * 1024"
  by (auto simp: range_end_def)

lemma js_slice_range: "js_slice (int s) (int e + 1) xs = take (e + 1 - s) (drop s xs)"
  using js_slice_nat [of s "e + 1" xs] by (simp add: add.commute)



text \<open>A start behind the end of the file announces one byte and sends none.\<close>

lemma range_behind_end:
  "serveReadableStreamWithFullData ''abc'' (Some ''bytes=9-'') =
     \<lparr>r_status = 206, r_content_length = Some 1, r_content_range = Some (9, 9, 3), r_body = Ret []\<rparr>"
  by code_simp

section \<open>Streaming the chunks\<close>

text \<open>\<open>pushChunk\<close>: the part of one chunk that is sent.  The positions are relative to the chunk
  and may be negative, which \<open>Buffer.slice\<close> counts from the end.\<close>

definition pushChunk :: "nat \<Rightarrow> (nat \<times> nat) option \<Rightarrow> nat \<Rightarrow> string \<Rightarrow> string" where
  "pushChunk cs rng chunkIdx chunk =
     (case rng of
        None \<Rightarrow> chunk
      | Some (start, e) \<Rightarrow>
          js_slice (int start - int chunkIdx * int cs) (int e - int chunkIdx * int cs + 1) chunk)"

text \<open>The downloads from \<open>startChunkIdx\<close> to \<open>endChunkIdx\<close>, in order; an error ends the stream.  An
  index behind the last chunk id asks for the chunk \<open>undefined\<close>.\<close>

fun stream_chunks ::
  "config \<Rightarrow> (string \<Rightarrow> string) \<Rightarrow> (string \<Rightarrow> string option) list \<Rightarrow> string list \<Rightarrow>
   (nat \<times> nat) option \<Rightarrow> nat list \<Rightarrow> store \<Rightarrow> store \<times> string async" where
  "stream_chunks cfg H sources chunkIds rng [] st = (st, Ret [])"
| "stream_chunks cfg H sources chunkIds rng (i # is) st =
     (case getChunkBinary cfg H sources (if i < length chunkIds then chunkIds ! i else ''undefined'') st of
        (st1, Throw e) \<Rightarrow> (st1, Throw e)
      | (st1, WaitFor ev k) \<Rightarrow> (st1, WaitFor ev k)
      | (st1, Ret buf) \<Rightarrow>
          (case stream_chunks cfg H sources chunkIds rng is st1 of
             (st2, Ret rest) \<Rightarrow> (st2, Ret (pushChunk (CHUNK_SIZE cfg) rng i buf @ rest))
           | (st2, Throw e) \<Rightarrow> (st2, Throw e)
           | (st2, WaitFor ev k) \<Rightarrow> (st2, WaitFor ev k)))"

text \<open>The response of a file with several chunks; \<open>filesize\<close> is the announced total size.\<close>

definition stream_response ::
  "config \<Rightarrow> (string \<Rightarrow> string) \<Rightarrow> (string \<Rightarrow> string option) list \<Rightarrow> string list \<Rightarrow> int \<Rightarrow>
   string option \<Rightarrow> store \<Rightarrow> store \<times> response" where
  "stream_response cfg H sources chunkIds totalSize rng st =
     (case rng of
        None \<Rightarrow>
          (case stream_chunks cfg H sources chunkIds None [0..<length chunkIds] st of
             (st', b) \<Rightarrow> (st', \<lparr>r_status = 200, r_content_length = Some (nat totalSize),
                              r_content_range = None, r_body = b\<rparr>))
      | Some r \<Rightarrow>
          (case range_start r of
             None \<Rightarrow> (st, \<lparr>r_status = 206, r_content_length = None, r_content_range = None, r_body = Ret []\<rparr>)
           | Some start \<Rightarrow>
               (let e = range_end start totalSize;
                    idx = [start div CHUNK_SIZE cfg..<e div CHUNK_SIZE cfg + 1]
                in case stream_chunks cfg H sources chunkIds (Some (start, e)) idx st of
                     (st', b) \<Rightarrow> (st', \<lparr>r_status = 206, r_content_length = Some (e - start + 1),
                                      r_content_range = Some (start, e, totalSize), r_body = b\<rparr>))))"

definition getFileAsReadStream ::
  "config \<Rightarrow> (string \<Rightarrow> string) \<Rightarrow> (string \<Rightarrow> string option) list \<Rightarrow> string \<Rightarrow> string option \<Rightarrow> store \<Rightarrow>
   store \<times> response async" where
  "getFileAsReadStream cfg H sources rawId rng st =
     (let fileId = normal_id rawId in
      case validateStorageId fileId of
        Inl e \<Rightarrow> (st, Throw e)
      | Inr _ \<Rightarrow>
          (let st0 = st\<lparr>file_tbl := fst (find_or_create new_file fileId (file_tbl st))\<rparr>
           in case getChunkBinary cfg H sources fileId st0 of
                (st1, Throw e) \<Rightarrow> (st1, Throw e)
              | (st1, WaitFor ev k) \<Rightarrow> (st1, WaitFor ev k)
              | (st1, Ret chunkInfo) \<Rightarrow>
                  if \<not> starts_with CHUNKINFO_PROLOGUE chunkInfo
                  then (mark_download F_COMPLETED fileId st1,
                        Ret (serveReadableStreamWithFullData chunkInfo rng))
                  else (case parseChunkInfo H chunkInfo of
                          Inl e \<Rightarrow> (st1, Throw e)
                        | Inr info \<Rightarrow>
                            (case stream_response cfg H sources (ci_chunkIds info)
                                    (case ci_filesize info of None \<Rightarrow> 0 | Some n \<Rightarrow> n) rng st1 of
                               (st2, r) \<Rightarrow> (st2, Ret r)))))"

lemma pushChunk_full [simp]: "pushChunk cs None i c = c"
  by (simp add: pushChunk_def)

lemma stream_chunks_all:
  assumes "\<forall>i \<in> set is. i < length ds \<and> served H sources (ds ! i)" "disk_sound cfg H st" "settled st"
  shows "\<exists>st'. stream_chunks cfg H sources (map (hash_id H) ds) rng is st =
      (st', Ret (concat (map (\<lambda>i. pushChunk (CHUNK_SIZE cfg) rng i (ds ! i)) is))) \<and>
    disk_sound cfg H st' \<and> settled st'"
  using assms
proof (induction "is" arbitrary: st)
  case (Cons i "is")
  then have i: "i < length ds" "served H sources (ds ! i)" by auto
  obtain st1 where 1: "getChunkBinary cfg H sources (hash_id H (ds ! i)) st = (st1, Ret (ds ! i))"
    "disk_sound cfg H st1" "settled st1"
    using getChunk_served [OF Cons.prems(2,3) i(2)] by blast
  obtain st2 where "stream_chunks cfg H sources (map (hash_id H) ds) rng is st1 =
      (st2, Ret (concat (map (\<lambda>i. pushChunk (CHUNK_SIZE cfg) rng i (ds ! i)) is)))"
    "disk_sound cfg H st2" "settled st2"
    using Cons.IH [of st1] Cons.prems(1) 1 by auto
  with 1 i show ?case by simp
qed simp

lemma chunkify_nth:
  assumes "0 < cs" "i < length (chunkify cs buf)"
  shows "chunkify cs buf ! i = take cs (drop (i * cs) buf)"
proof (cases "(length buf + cs - 1) div cs \<le> 1")
  case True
  then have "chunkify cs buf = [buf]" by (simp add: chunkify_def Let_def)
  moreover have "length (last (chunkify cs buf)) \<le> cs" by (rule chunkify_last_le [OF assms(1)])
  ultimately show ?thesis using assms(2) by simp
next
  case False
  then show ?thesis using assms(2) by (simp add: chunkify_def Let_def)
qed

lemma concat_nth: "concat (map (\<lambda>i. ds ! i) [0..<length ds]) = concat ds"
  by (simp add: map_nth)

lemma filesize_chunkify: "0 < cs \<Longrightarrow> nat (int (chunksToTotalLength cs (chunkify cs d))) = length d"
  by (simp add: chunks_length)



text \<open>A range that crosses a chunk boundary loses the bytes of the later chunks: the position
  relative to the second chunk is negative and counts from that chunk's end.\<close>

lemma range_across_chunks_broken:
  "snd (stream_response example_config (\<lambda>x. x) [Some \<circ> hex_decode]
      (map (hash_id (\<lambda>x. x)) [''abcd'', ''efgh'']) 8 (Some ''bytes=2-'') empty_store) =
   \<lparr>r_status = 206, r_content_length = Some 6, r_content_range = Some (2, 7, 8), r_body = Ret ''cdgh''\<rparr>"
  by code_simp

section \<open>Pausing and resuming\<close>

text \<open>The variables of \<open>createReadableStream\<close>, the chunk being fetched, the chunks pushed so far
  and whether the end was signalled.  \<open>read()\<close> is called by the consumer; a fetched chunk
  arrives with the result of \<open>readable.push\<close>; the client may disconnect.\<close>

record stream_state =
  downloading :: bool
  closed :: bool
  lastChunkIdx :: int
  fetching :: "nat option"
  pushed :: "nat list"
  ended :: bool

definition downloadChunk :: "nat \<Rightarrow> int \<Rightarrow> stream_state \<Rightarrow> stream_state" where
  "downloadChunk endIdx i s =
     (if i > int endIdx then s\<lparr>ended := True\<rparr> else s\<lparr>fetching := Some (nat i)\<rparr>)"

definition start_stream :: "nat \<Rightarrow> nat \<Rightarrow> stream_state" where
  "start_stream startIdx endIdx = downloadChunk endIdx (int startIdx)
     \<lparr>downloading = True, closed = False, lastChunkIdx = -1, fetching = None, pushed = [], ended = False\<rparr>"

definition read_call :: "nat \<Rightarrow> stream_state \<Rightarrow> stream_state" where
  "read_call endIdx s =
     (if \<not> downloading s \<and> \<not> closed s
      then downloadChunk endIdx (lastChunkIdx s + 1) (s\<lparr>downloading := True\<rparr>) else s)"

definition client_close :: "stream_state \<Rightarrow> stream_state" where
  "client_close s = s\<lparr>downloading := False, closed := True\<rparr>"

definition chunk_arrives :: "nat \<Rightarrow> bool \<Rightarrow> stream_state \<Rightarrow> stream_state" where
  "chunk_arrives endIdx pushResult s =
     (case fetching s of
        None \<Rightarrow> s
      | Some i \<Rightarrow>
          (let s1 = s\<lparr>fetching := None, pushed := pushed s @ [i]\<rparr>;
               s2 = (if pushResult then s1\<lparr>downloading := False, lastChunkIdx := int i\<rparr> else s1)
           in if downloading s2 then downloadChunk endIdx (int i + 1) s2 else s2))"

inductive stream_reach :: "nat \<Rightarrow> nat \<Rightarrow> stream_state \<Rightarrow> bool" for startIdx endIdx where
  init: "stream_reach startIdx endIdx (start_stream startIdx endIdx)"
| read: "stream_reach startIdx endIdx s \<Longrightarrow> stream_reach startIdx endIdx (read_call endIdx s)"
| close: "stream_reach startIdx endIdx s \<Longrightarrow> stream_reach startIdx endIdx (client_close s)"
| arrive: "stream_reach startIdx endIdx s \<Longrightarrow> fetching s = Some i \<Longrightarrow>
     stream_reach startIdx endIdx (chunk_arrives endIdx pushResult s)"

text \<open>The next chunk to be pushed is the one being fetched, or the one a resumed download starts
  with.\<close>

definition stream_inv :: "nat \<Rightarrow> nat \<Rightarrow> stream_state \<Rightarrow> bool" where
  "stream_inv startIdx endIdx s \<longleftrightarrow>
     (\<exists>n. startIdx \<le> n \<and> n \<le> endIdx + 1 \<and> pushed s = [startIdx..<n] \<and>
        (fetching s \<noteq> None \<longrightarrow> fetching s = Some n \<and> n \<le> endIdx \<and> (downloading s \<or> closed s)) \<and>
        (\<not> downloading s \<and> \<not> closed s \<longrightarrow> lastChunkIdx s + 1 = int n) \<and>
        (ended s \<longrightarrow> n = endIdx + 1 \<and> fetching s = None) \<and>
        (fetching s = None \<and> downloading s \<and> \<not> closed s \<longrightarrow> ended s))"

lemma stream_inv_init: "startIdx \<le> endIdx \<Longrightarrow> stream_inv startIdx endIdx (start_stream startIdx endIdx)"
  unfolding stream_inv_def by (rule exI [of _ startIdx]) (simp add: start_stream_def downloadChunk_def)

lemma stream_inv_read: "stream_inv a b s \<Longrightarrow> stream_inv a b (read_call b s)"
  unfolding stream_inv_def
  by (elim exE, rule_tac x = n in exI) (auto simp: read_call_def downloadChunk_def)

lemma stream_inv_close: "stream_inv a b s \<Longrightarrow> stream_inv a b (client_close s)"
  unfolding stream_inv_def by (elim exE, rule_tac x = n in exI) (auto simp: client_close_def)

lemma stream_inv_arrive:
  assumes "stream_inv a b s" "fetching s = Some i" shows "stream_inv a b (chunk_arrives b p s)"
proof -
  obtain n where n: "a \<le> n" "pushed s = [a..<n]" "i = n" "n \<le> b" "downloading s \<or> closed s" "\<not> ended s"
    using assms by (auto simp: stream_inv_def)
  have "pushed s @ [n] = [a..<Suc n]" using n by simp
  with n assms(2) show ?thesis unfolding stream_inv_def
    by (intro exI [of _ "Suc n"]) (auto simp: chunk_arrives_def downloadChunk_def Let_def)
qed

lemma stream_reach_inv:
  "stream_reach a b s \<Longrightarrow> a \<le> b \<Longrightarrow> stream_inv a b s"
  by (induction rule: stream_reach.induct)
    (auto intro: stream_inv_init stream_inv_read stream_inv_close stream_inv_arrive)

text \<open>C17: however the consumer reads, whatever \<open>push\<close> answers and whenever the client
  disconnects, the chunks are pushed in order, none twice and none skipped, and the end is signalled
  only when all of them have been pushed.\<close>

theorem stream_in_order:
  assumes "stream_reach startIdx endIdx s" "startIdx \<le> endIdx"
  shows "(\<exists>n. n \<le> endIdx + 1 \<and> pushed s = [startIdx..<n]) \<and>
    (ended s \<longrightarrow> pushed s = [startIdx..<endIdx + 1])"
  using stream_reach_inv [OF assms] unfolding stream_inv_def by blast

lemma stream_in_order_witness:
  "\<exists>s. stream_reach 0 1 s \<and> ended s \<and> pushed s = [0..<1 + 1]"
proof -
  let ?s = "read_call 1 (chunk_arrives 1 True (chunk_arrives 1 False (start_stream 0 1)))"
  have "stream_reach 0 1 ?s"
    by (intro stream_reach.intros) (simp_all add: start_stream_def downloadChunk_def chunk_arrives_def)
  moreover have "ended ?s" by code_simp
  ultimately show ?thesis using stream_in_order [of 0 1 ?s] by blast
qed

end
