(* ===== verification/Directory.thy ===== *)
theory Directory
  imports Storage
begin

text \<open>
  Directories: \<open>uploadDir\<close>, \<open>getJSON\<close>, \<open>getFileIdByPath\<close>, \<open>getFileBinary\<close> and
  \<open>isFileCached\<close> of \<open>src/client/storage/index.ts\<close>.  A directory is a blob whose
  text is the JSON of its entries.  The functions that read take the reading
  function (\<open>getFile\<close>) as an argument; what they rely on is the locale
  \<open>blob_reader\<close>, interpreted on \<open>getFile\<close>.  The entries of a directory are
  uploaded in the order of \<open>readdir\<close>, where the code starts them all at once.
\<close>

section \<open>Reading\<close>

type_synonym 's reader = "string \<Rightarrow> 's \<Rightarrow> 's \<times> string async"

definition getJSON :: "'s reader \<Rightarrow> string \<Rightarrow> 's \<Rightarrow> 's \<times> json async" where
  "getJSON fetch i st =
     (case fetch i st of
        (st1, Throw e) \<Rightarrow> (st1, Throw e)
      | (st1, WaitFor ev k) \<Rightarrow> (st1, WaitFor ev k)
      | (st1, Ret d) \<Rightarrow>
          (st1, case jparse d of None \<Rightarrow> Throw (PlainError ''SyntaxError'') | Some j \<Rightarrow> Ret j))"

definition path_segments :: "string \<Rightarrow> string list" where
  "path_segments p =
     filter (\<lambda>s. s \<noteq> []) (split_ch CHR ''/'' (map (\<lambda>c. if c = CHR 0x5C then CHR ''/'' else c) p))"

text \<open>\<open>path.join(...segments)\<close>.\<close>

definition path_join_all :: "string list \<Rightarrow> string" where
  "path_join_all segs =
     (let ne = filter (\<lambda>s. s \<noteq> []) segs in if ne = [] then ''.'' else path_normalize (join_ch ''/'' ne))"

definition find_entry :: "string list \<Rightarrow> json list \<Rightarrow> json option" where
  "find_entry segments es =
     (case segments of
        [] \<Rightarrow> find (\<lambda>f. jget ''name'' f = None) es
      | s # _ \<Rightarrow> find (\<lambda>f. jget ''name'' f = Some (JStr s)) es)"

text \<open>The recursion over the path is on fuel; as many steps as the path has segments are enough.
  The id of an entry that has none is the text \<open>undefined\<close>.\<close>

fun getFileIdByPath :: "'s reader \<Rightarrow> nat \<Rightarrow> string \<Rightarrow> string \<Rightarrow> 's \<Rightarrow> 's \<times> string async" where
  "getFileIdByPath fetch 0 dirId filePath st = (st, Throw (PlainError ''out of fuel''))"
| "getFileIdByPath fetch (Suc n) dirId filePath st =
     (case getJSON fetch dirId st of
        (st1, Throw e) \<Rightarrow> (st1, Throw e)
      | (st1, WaitFor ev k) \<Rightarrow> (st1, WaitFor ev k)
      | (st1, Ret dir) \<Rightarrow>
          (let segments = path_segments filePath in
           case jarr (jget ''files'' dir) of
             None \<Rightarrow> (st1, Throw TypeError)
           | Some es \<Rightarrow>
               (case find_entry segments es of
                  None \<Rightarrow> (st1, Throw (HttpNotFoundError (''Failed to find file '' @ filePath @
                             '' in directory '' @ dirId @ '': not found'')))
                | Some entry \<Rightarrow>
                    (let entry_id = (case jstr (jget ''id'' entry) of None \<Rightarrow> ''undefined'' | Some s \<Rightarrow> s) in
                     if length segments = 1 then (st1, Ret entry_id)
                     else if jget ''type'' entry = Some (JStr ''fileptr'')
                     then (st1, Throw (HttpNotFoundError (''Failed to find file '' @ filePath @
                             '' in directory '' @ dirId @ '': '' @ hd (segments @ [''undefined'']) @
                             '' is not a directory'')))
                     else getFileIdByPath fetch n entry_id (path_join_all (tl segments)) st1))))"

definition getFileBinary :: "(bool \<Rightarrow> 's reader) \<Rightarrow> string \<Rightarrow> bool \<Rightarrow> 's \<Rightarrow> 's \<times> string async" where
  "getFileBinary fetch fileId useCache st = fetch useCache fileId st"

definition isFileCached :: "config \<Rightarrow> string \<Rightarrow> store \<Rightarrow> bool" where
  "isFileCached cfg fileId st = (obj_get (disk st) (FILES_DIR cfg, file_file (normal_id fileId)) \<noteq> None)"

section \<open>Uploading\<close>

definition fileptr :: "string \<Rightarrow> nat \<Rightarrow> string \<Rightarrow> json" where
  "fileptr name n i = JObj [(''type'', JStr ''fileptr''), (''name'', JStr name),
     (''size'', JNum (int n)), (''id'', JStr i)]"

definition dirptr :: "string \<Rightarrow> nat \<Rightarrow> string \<Rightarrow> json" where
  "dirptr name n i = JObj [(''type'', JStr ''dirptr''), (''name'', JStr name),
     (''size'', JNum (int n)), (''id'', JStr i)]"

definition dir_info :: "json list \<Rightarrow> string" where
  "dir_info es = jprint (JObj [(''type'', JStr ''dir''), (''files'', JArr es)])"

definition dir_map_upsert :: "dir_map \<Rightarrow> dir_map list \<Rightarrow> dir_map list" where
  "dir_map_upsert m tbl =
     (let same = (\<lambda>r. dm_dir_id r = dm_dir_id m \<and> dm_file_id r = dm_file_id m \<and> dm_offset r = dm_offset m)
      in if list_ex same tbl then map (\<lambda>r. if same r then m else r) tbl else tbl @ [m])"

text \<open>The rows that record a directory: one per entry, and its own with offset \<open>-1\<close>.\<close>

definition dir_map_rows :: "string \<Rightarrow> nat \<Rightarrow> json list \<Rightarrow> dir_map list" where
  "dir_map_rows dirId n es =
     map (\<lambda>(i, e). \<lparr>dm_dir_id = dirId,
                    dm_file_id = (case jstr (jget ''id'' e) of None \<Rightarrow> [] | Some s \<Rightarrow> s),
                    dm_dir_size = (case jnum (jget ''size'' e) of None \<Rightarrow> 0 | Some k \<Rightarrow> nat k),
                    dm_is_dir = (jget ''type'' e = Some (JStr ''dirptr'')),
                    dm_offset = int i\<rparr>) (zip [0..<length es] es)
     @ [\<lparr>dm_dir_id = dirId, dm_file_id = dirId, dm_dir_size = n, dm_is_dir = False, dm_offset = -1\<rparr>]"

fun uploadDir :: "config \<Rightarrow> (string \<Rightarrow> string) \<Rightarrow> bool \<Rightarrow> fs_node \<Rightarrow> store \<Rightarrow> store \<times> string async"
  and uploadEntries ::
    "config \<Rightarrow> (string \<Rightarrow> string) \<Rightarrow> bool \<Rightarrow> (string \<times> fs_node) list \<Rightarrow> store \<Rightarrow> store \<times> json list async" where
  "uploadDir cfg H w (FileNode c) st = (st, Throw (PlainError ''Path is not a directory''))"
| "uploadDir cfg H w (DirNode es) st =
     (case uploadEntries cfg H w es st of
        (st1, Throw e) \<Rightarrow> (st1, Throw e)
      | (st1, WaitFor ev k) \<Rightarrow> (st1, WaitFor ev k)
      | (st1, Ret infos) \<Rightarrow>
          (let raw = dir_info infos in
           case uploadData cfg H raw w st1 of
             (st2, Ret i) \<Rightarrow>
               (st2\<lparr>dir_maps := foldl (\<lambda>t m. dir_map_upsert m t) (dir_maps st2)
                                 (dir_map_rows i (length raw) infos)\<rparr>, Ret i)
           | r \<Rightarrow> r))"
| "uploadEntries cfg H w [] st = (st, Ret [])"
| "uploadEntries cfg H w ((name, n) # es) st =
     (case (case n of DirNode _ \<Rightarrow> uploadDir cfg H w n st | FileNode c \<Rightarrow> uploadData cfg H c w st) of
        (st1, Throw e) \<Rightarrow> (st1, Throw e)
      | (st1, WaitFor ev k) \<Rightarrow> (st1, WaitFor ev k)
      | (st1, Ret i) \<Rightarrow>
          (case uploadEntries cfg H w es st1 of
             (st2, Ret infos) \<Rightarrow>
               (st2, Ret ((case n of DirNode _ \<Rightarrow> dirptr name (calculateDirSize n) i
                           | FileNode c \<Rightarrow> fileptr name (length c) i) # infos))
           | r \<Rightarrow> r))"

section \<open>The tree that an upload represents\<close>

text \<open>The text of a node: a file's contents, a directory's entries with the ids of its children.\<close>

fun node_blob :: "(string \<Rightarrow> string) \<Rightarrow> fs_node \<Rightarrow> string" where
  "node_blob bid (FileNode c) = c"
| "node_blob bid (DirNode es) =
     dir_info (map (\<lambda>(name, n). case n of DirNode _ \<Rightarrow> dirptr name (calculateDirSize n) (bid (node_blob bid n))
                                 | FileNode c \<Rightarrow> fileptr name (length c) (bid (node_blob bid n))) es)"

definition node_entry :: "(string \<Rightarrow> string) \<Rightarrow> string \<times> fs_node \<Rightarrow> json" where
  "node_entry bid = (\<lambda>(name, n). case n of DirNode _ \<Rightarrow> dirptr name (calculateDirSize n) (bid (node_blob bid n))
                       | FileNode c \<Rightarrow> fileptr name (length c) (bid (node_blob bid n)))"

lemma node_blob_dir: "node_blob bid (DirNode es) = dir_info (map (node_entry bid) es)"
  by (simp add: node_entry_def)

declare node_blob.simps(2) [simp del]

fun node_at :: "string list \<Rightarrow> fs_node \<Rightarrow> fs_node option" where
  "node_at [] n = Some n"
| "node_at (s # ss) (FileNode c) = None"
| "node_at (s # ss) (DirNode es) = (case obj_get es s of None \<Rightarrow> None | Some n \<Rightarrow> node_at ss n)"

text \<open>All nodes of a tree.\<close>

fun subnodes :: "fs_node \<Rightarrow> fs_node list" where
  "subnodes (FileNode c) = [FileNode c]"
| "subnodes (DirNode es) = DirNode es # concat (map (\<lambda>(_, n). subnodes n) es)"

definition clean_seg :: "string \<Rightarrow> bool" where
  "clean_seg s \<longleftrightarrow> s \<noteq> [] \<and> s \<noteq> ''.'' \<and> s \<noteq> ''..'' \<and> CHR ''/'' \<notin> set s \<and> CHR 0x5C \<notin> set s"

lemma uploadData_False:
  "uploadData cfg H d False st = (fst (uploadData cfg H d False st), Ret (upload_file_id (CHUNK_SIZE cfg) H d))"
  by (simp add: uploadData_def Let_def)

lemma upload_entries:
  "(\<And>name ds st. (name, DirNode ds) \<in> set es \<Longrightarrow>
      \<exists>st'. uploadDir cfg H False (DirNode ds) st =
        (st', Ret (upload_file_id (CHUNK_SIZE cfg) H (node_blob (upload_file_id (CHUNK_SIZE cfg) H) (DirNode ds))))) \<Longrightarrow>
   \<exists>st'. uploadEntries cfg H False es st = (st', Ret (map (node_entry (upload_file_id (CHUNK_SIZE cfg) H)) es))"
proof (induction es arbitrary: st)
  case (Cons p es)
  let ?bid = "upload_file_id (CHUNK_SIZE cfg) H"
  obtain name n where p: "p = (name, n)" by (cases p)
  have rest: "\<exists>st'. uploadEntries cfg H False es st1 = (st', Ret (map (node_entry ?bid) es))" for st1
    by (rule Cons.IH) (use Cons.prems in auto)
  show ?case
  proof (cases n)
    case (FileNode c)
    obtain st1 where "uploadData cfg H c False st = (st1, Ret (?bid c))" using uploadData_False by blast
    moreover obtain st2 where "uploadEntries cfg H False es st1 = (st2, Ret (map (node_entry ?bid) es))"
      using rest by blast
    ultimately show ?thesis by (simp add: p FileNode node_entry_def)
  next
    case (DirNode ds)
    obtain st1 where "uploadDir cfg H False (DirNode ds) st = (st1, Ret (?bid (node_blob ?bid (DirNode ds))))"
      using Cons.prems [of name ds] p DirNode by auto
    moreover obtain st2 where "uploadEntries cfg H False es st1 = (st2, Ret (map (node_entry ?bid) es))"
      using rest by blast
    ultimately show ?thesis by (simp add: p DirNode node_entry_def)
  qed
qed simp

lemma upload_tree:
  "\<exists>st'. uploadDir cfg H False (DirNode es) st =
     (st', Ret (upload_file_id (CHUNK_SIZE cfg) H (node_blob (upload_file_id (CHUNK_SIZE cfg) H) (DirNode es))))"
proof -
  let ?bid = "upload_file_id (CHUNK_SIZE cfg) H"
  have "\<forall>es. n = DirNode es \<longrightarrow> (\<forall>st. \<exists>st'. uploadDir cfg H False n st = (st', Ret (?bid (node_blob ?bid n))))" for n
  proof (induction n)
    case (DirNode es)
    have "\<exists>st'. uploadEntries cfg H False es st = (st', Ret (map (node_entry ?bid) es))" for st
      by (rule upload_entries) (use DirNode in fastforce)
    then have "\<exists>st'. uploadDir cfg H False (DirNode es) st = (st', Ret (?bid (node_blob ?bid (DirNode es))))" for st
    proof -
      obtain st1 where "uploadEntries cfg H False es st = (st1, Ret (map (node_entry ?bid) es))"
        using \<open>\<And>st. \<exists>st'. uploadEntries cfg H False es st = (st', Ret (map (node_entry ?bid) es))\<close> by blast
      moreover obtain st2 where "uploadData cfg H (dir_info (map (node_entry ?bid) es)) False st1 =
          (st2, Ret (?bid (dir_info (map (node_entry ?bid) es))))"
        using uploadData_False by blast
      ultimately show ?thesis by (simp add: node_blob_dir Let_def)
    qed
    then show ?case by simp
  qed simp
  then show ?thesis by blast
qed

section \<open>Reading a path back\<close>

text \<open>What the readers of directories rely on: a store of blobs in which a held blob can be read
  under its id, again and again.\<close>

locale blob_reader =
  fixes fetch :: "string \<Rightarrow> 's \<Rightarrow> 's \<times> string async"
    and bid :: "string \<Rightarrow> string"
    and held :: "string \<Rightarrow> bool"
    and ok :: "'s \<Rightarrow> bool"
  assumes fetch_held: "ok s \<Longrightarrow> held d \<Longrightarrow> \<exists>s'. fetch (bid d) s = (s', Ret d) \<and> ok s'"
begin

lemma getJSON_held:
  "ok s \<Longrightarrow> held (jprint j) \<Longrightarrow> jwf j \<Longrightarrow> \<exists>s'. getJSON fetch (bid (jprint j)) s = (s', Ret j) \<and> ok s'"
  using fetch_held [of s "jprint j"] by (auto simp: getJSON_def jparse_print)

end

lemma find_entry_node:
  "obj_get es s = Some n \<Longrightarrow>
   find_entry (s # ss) (map (node_entry bid) es) = Some (node_entry bid (s, n))"
proof -
  have name: "jget ''name'' (node_entry bid p) = Some (JStr (fst p))" for p
    by (cases p; cases "snd p") (auto simp: node_entry_def dirptr_def fileptr_def)
  show "obj_get es s = Some n \<Longrightarrow> find_entry (s # ss) (map (node_entry bid) es) = Some (node_entry bid (s, n))"
    by (induction es) (auto simp: find_entry_def name split: if_splits)
qed

lemma node_entry_id: "jget ''id'' (node_entry bid (s, n)) = Some (JStr (bid (node_blob bid n)))"
  by (cases n) (simp_all add: node_entry_def dirptr_def fileptr_def)

lemma node_entry_type:
  "jget ''type'' (node_entry bid (s, n)) = Some (JStr (case n of DirNode _ \<Rightarrow> ''dirptr'' | FileNode _ \<Rightarrow> ''fileptr''))"
  by (cases n) (simp_all add: node_entry_def dirptr_def fileptr_def)

lemma jwf_node_entry: "jwf (node_entry bid p)"
  by (cases p; cases "snd p") (auto simp: node_entry_def dirptr_def fileptr_def)

lemma map_no_backslash: "CHR 0x5C \<notin> set s \<Longrightarrow> map (\<lambda>c. if c = CHR 0x5C then CHR ''/'' else c) s = s"
  by (intro map_idI) auto

lemma segments_join:
  assumes "segs \<noteq> []" "list_all clean_seg segs"
  shows "path_segments (join_ch ''/'' segs) = segs"
proof -
  have "CHR 0x5C \<notin> set (join_ch ''/'' segs)"
    using set_join_ch [of "''/''" segs] assms(2) by (fastforce simp: list_all_iff clean_seg_def)
  moreover have "split_ch CHR ''/'' (join_ch ''/'' segs) = segs"
    using assms by (intro split_join) (auto simp: list_all_iff clean_seg_def)
  moreover have "filter (\<lambda>s. s \<noteq> []) segs = segs"
    using assms(2) by (auto simp: list_all_iff clean_seg_def intro: filter_True)
  ultimately show ?thesis by (simp add: path_segments_def map_no_backslash)
qed

lemma starts_join: "segs \<noteq> [] \<Longrightarrow> list_all clean_seg segs \<Longrightarrow> \<not> starts_with ''/'' (join_ch ''/'' segs)"
  by (cases segs; cases "tl segs"; cases "hd segs") (auto simp: clean_seg_def)

lemma last_join: "segs \<noteq> [] \<Longrightarrow> list_all clean_seg segs \<Longrightarrow> \<not> ends_with ''/'' (join_ch ''/'' segs)"
proof -
  assume a: "segs \<noteq> []" "list_all clean_seg segs"
  have "\<exists>p. join_ch ''/'' segs = p @ last segs"
    using a(1) by (induction "''/''" segs rule: join_ch.induct) auto
  moreover have "last segs \<noteq> []" "CHR ''/'' \<notin> set (last segs)" using a by (auto simp: list_all_iff clean_seg_def)
  ultimately show ?thesis
    by (cases "last segs" rule: rev_cases) (auto simp: ends_with_def)
qed

lemma path_join_clean:
  assumes "segs \<noteq> []" "list_all clean_seg segs" shows "path_join_all segs = join_ch ''/'' segs"
proof -
  let ?p = "join_ch ''/'' segs"
  have f: "filter (\<lambda>s. s \<noteq> []) segs = segs" "filter (\<lambda>s. s \<noteq> [] \<and> s \<noteq> ''.'') segs = segs" "''..'' \<notin> set segs"
    using assms(2) by (auto simp: list_all_iff clean_seg_def intro: filter_True)
  have sp: "split_ch CHR ''/'' ?p = segs"
    using assms by (intro split_join) (auto simp: list_all_iff clean_seg_def)
  have ne: "?p \<noteq> []" using assms by (cases segs; cases "tl segs") (auto simp: clean_seg_def)
  have "norm_segs False [] segs = segs" using norm_segs_no_dots [OF f(3), of False "[]"] f(2) by simp
  with ne sp f(1) assms starts_join [OF assms] last_join [OF assms] show ?thesis
    by (simp add: path_join_all_def Let_def path_normalize_def)
qed

context blob_reader
begin

lemma path_found:
  assumes "node_at segs n = Some m" "segs \<noteq> []" "list_all clean_seg segs"
    and "\<And>k. k \<in> set (subnodes n) \<Longrightarrow> held (node_blob bid k)" "ok s"
  shows "\<exists>s'. getFileIdByPath fetch (length segs) (bid (node_blob bid n)) (join_ch ''/'' segs) s =
      (s', Ret (bid (node_blob bid m))) \<and> ok s'"
  using assms
proof (induction segs arbitrary: n s)
  case (Cons seg segs)
  obtain es c where n: "n = DirNode es" and c: "obj_get es seg = Some c" and m: "node_at segs c = Some m"
    using Cons.prems(1) by (cases n) (auto split: option.splits)
  let ?j = "JObj [(''type'', JStr ''dir''), (''files'', JArr (map (node_entry bid) es))]"
  have "held (jprint ?j)" using Cons.prems(4) [of n] by (simp add: n node_blob_dir dir_info_def del: jprint.simps)
  then obtain s1 where s1: "getJSON fetch (bid (node_blob bid n)) s = (s1, Ret ?j)" "ok s1"
    using getJSON_held [of s ?j] Cons.prems(5) by (auto simp: n node_blob_dir dir_info_def jwf_node_entry simp del: jprint.simps)
  have sg: "path_segments (join_ch ''/'' (seg # segs)) = seg # segs"
    using Cons.prems(3) by (intro segments_join) auto
  show ?case
  proof (cases "segs = []")
    case True
    with m s1 sg find_entry_node [OF c] show ?thesis by (simp add: node_entry_id del: join_ch.simps)
  next
    case False
    then obtain ds where d: "c = DirNode ds" using m by (cases c; cases segs) auto
    have "subnodes c = DirNode ds # concat (map (\<lambda>(_, n). subnodes n) ds)" by (simp add: d)
    have "set (subnodes c) \<subseteq> set (subnodes n)"
      using map_of_SomeD [OF c] by (auto simp: n)
    then obtain s2 where s2: "getFileIdByPath fetch (length segs) (bid (node_blob bid c)) (join_ch ''/'' segs) s1 =
        (s2, Ret (bid (node_blob bid m)))" "ok s2"
      using Cons.IH [OF m False, of s1] Cons.prems(3,4) s1(2) by auto
    have "path_join_all segs = join_ch ''/'' segs"
      using Cons.prems(3) by (intro path_join_clean [OF False]) simp
    with False s1 s2 sg find_entry_node [OF c] show ?thesis
      by (simp add: node_entry_id node_entry_type d del: join_ch.simps)
  qed
qed simp

end

section \<open>The storage layer is such a reader\<close>

lemma served_inj: "served H sources d \<Longrightarrow> hash_id H d' = hash_id H d \<Longrightarrow> d' = d"
  by (simp add: served_def hash_id_def hex_encode_inj)

lemma storable_id_inj:
  assumes "0 < cs" "storable cs H sources d" "storable cs H sources d'"
    and "upload_file_id cs H d = upload_file_id cs H d'"
  shows "d = d'"
proof -
  have single: "served H sources x \<and> upload_file_id cs H x = hash_id H x \<and> \<not> starts_with CHUNKINFO_PROLOGUE x"
    if "storable cs H sources x" "length (chunkify cs x) \<le> 1" for x
    using that storable_served [OF that(1), of x] chunkify_single [OF that(2)]
    by (simp add: storable_def upload_file_id_def Let_def)
  have multi: "upload_file_id cs H x = hash_id H (createChunkInfoChunk cs H (chunkify cs x))"
    if "\<not> length (chunkify cs x) \<le> 1" for x
    using that by (simp add: upload_file_id_def Let_def)
  consider "length (chunkify cs d) \<le> 1" "length (chunkify cs d') \<le> 1"
    | "length (chunkify cs d) \<le> 1" "\<not> length (chunkify cs d') \<le> 1"
    | "\<not> length (chunkify cs d) \<le> 1" "length (chunkify cs d') \<le> 1"
    | "\<not> length (chunkify cs d) \<le> 1" "\<not> length (chunkify cs d') \<le> 1" by blast
  then show ?thesis
  proof cases
    case 1
    then show ?thesis using single [OF assms(2)] single [OF assms(3)] assms(4) served_inj by metis
  next
    case 2
    then show ?thesis using single [OF assms(2)] multi [of d'] assms(4) served_inj prologue_info by metis
  next
    case 3
    then show ?thesis using single [OF assms(3)] multi [of d] assms(4) served_inj prologue_info by metis
  next
    case 4
    then have "createChunkInfoChunk cs H (chunkify cs d) = createChunkInfoChunk cs H (chunkify cs d')"
      using multi assms(4) served_inj [OF storable_info [OF assms(3)]] by metis
    then have "map (hash_id H) (chunkify cs d) = map (hash_id H) (chunkify cs d')"
      using parse_create_info [of H cs "chunkify cs d"] parse_create_info [of H cs "chunkify cs d'"] by simp
    moreover have "inj_on (hash_id H) (set (chunkify cs d) \<union> set (chunkify cs d'))"
      using storable_served [OF assms(2)] storable_served [OF assms(3)] served_inj
      by (intro inj_onI) (metis UnE)
    ultimately have "chunkify cs d = chunkify cs d'" by (rule map_inj_on)
    then show ?thesis using concat_chunkify [OF assms(1)] by metis
  qed
qed

text \<open>The blobs that can be read, and the states of a node that holds no wrong copy of one.\<close>

definition readable ::
  "config \<Rightarrow> (string \<Rightarrow> string) \<Rightarrow> (string \<Rightarrow> string option) list \<Rightarrow> string \<Rightarrow> bool" where
  "readable cfg H sources d \<longleftrightarrow> 0 < CHUNK_SIZE cfg \<and> (\<forall>x. length (H x) = 32) \<and> storable (CHUNK_SIZE cfg) H sources d"

definition reader_ok :: "config \<Rightarrow> (string \<Rightarrow> string) \<Rightarrow> (string \<Rightarrow> string option) list \<Rightarrow> store \<Rightarrow> bool" where
  "reader_ok cfg H sources st \<longleftrightarrow>
     node_ok cfg H st \<and> (\<forall>d. readable cfg H sources d \<longrightarrow> file_cached_ok cfg H d st)"

interpretation st: blob_reader "\<lambda>i. getFile cfg H sources i u" "upload_file_id (CHUNK_SIZE cfg) H"
  "readable cfg H sources" "reader_ok cfg H sources" for cfg H sources u
proof unfold_locales
  fix s d assume o: "reader_ok cfg H sources s" and r: "readable cfg H sources d"
  then obtain s' where g: "getFile cfg H sources (upload_file_id (CHUNK_SIZE cfg) H d) u s = (s', Ret d)"
    "node_ok cfg H s'" "file_cached_ok cfg H d s'"
    "\<forall>d'. upload_file_id (CHUNK_SIZE cfg) H d' \<noteq> upload_file_id (CHUNK_SIZE cfg) H d \<longrightarrow>
       file_cached_ok cfg H d' s \<longrightarrow> file_cached_ok cfg H d' s'"
    using getFile_served [of cfg H sources d s u] unfolding readable_def reader_ok_def by blast
  have "file_cached_ok cfg H d' s'" if "readable cfg H sources d'" for d'
  proof (cases "upload_file_id (CHUNK_SIZE cfg) H d' = upload_file_id (CHUNK_SIZE cfg) H d")
    case True
    then have "d' = d" using storable_id_inj that r unfolding readable_def by blast
    with g(3) show ?thesis by simp
  next
    case False
    with g(4) o that show ?thesis unfolding reader_ok_def by blast
  qed
  with g show "\<exists>s'. getFile cfg H sources (upload_file_id (CHUNK_SIZE cfg) H d) u s = (s', Ret d) \<and> reader_ok cfg H sources s'"
    unfolding reader_ok_def by blast
qed

text \<open>C3: an uploaded directory tree can be navigated on any node: the id that \<open>getFileIdByPath\<close>
  returns for a path below the id of the uploaded directory is the id of the node of the tree at
  that path, for a tree whose blobs are served, at any depth, and the fuel used is the number of
  segments of the path.\<close>

theorem uploaded_tree_navigable:
  assumes "snd (uploadDir cfg H False (DirNode es) st0) = Ret rootId"
    and "node_at segs (DirNode es) = Some m" "segs \<noteq> []" "list_all clean_seg segs"
    and "\<forall>k \<in> set (subnodes (DirNode es)).
           readable cfg H sources (node_blob (upload_file_id (CHUNK_SIZE cfg) H) k)"
    and "reader_ok cfg H sources st"
  shows "snd (getFileIdByPath (\<lambda>i. getFile cfg H sources i True) (length segs) rootId
      (join_ch ''/'' segs) st) = Ret (upload_file_id (CHUNK_SIZE cfg) H (node_blob (upload_file_id (CHUNK_SIZE cfg) H) m))"
proof -
  have "rootId = upload_file_id (CHUNK_SIZE cfg) H (node_blob (upload_file_id (CHUNK_SIZE cfg) H) (DirNode es))"
    using upload_tree [of cfg H es st0] assms(1) by auto
  with st.path_found [OF assms(2-4) _ assms(6), of True] assms(5) show ?thesis by auto
qed

definition wit_dir :: string where
  "wit_dir = dir_info [fileptr ''a'' 1 (hex_encode (replicate 32 (CHR ''a'')))]"

definition wit_hash :: "string \<Rightarrow> string" where
  "wit_hash x = replicate 32 (if x = ''x'' then CHR ''a'' else if x = wit_dir then CHR ''b'' else CHR ''c'')"

definition wit_config :: config where
  "wit_config = example_config\<lparr>CHUNK_SIZE := 1000\<rparr>"

definition wit_sources :: "(string \<Rightarrow> string option) list" where
  "wit_sources = [\<lambda>_. None, \<lambda>_. Some ''x'', \<lambda>_. Some wit_dir]"

lemma wit_single:
  assumes "d \<in> {''x'', wit_dir}"
  shows "chunkify 1000 d = [d] \<and> upload_file_id 1000 wit_hash d = hash_id wit_hash d \<and>
    upload_chunks 1000 wit_hash d = [(0, d)] \<and> \<not> isZeroStorageId (hash_id wit_hash d) \<and>
    \<not> starts_with CHUNKINFO_PROLOGUE d"
proof -
  have "chunkify 1000 ''x'' = [''x'']" "\<not> starts_with CHUNKINFO_PROLOGUE ''x''"
    "chunkify 1000 wit_dir = [wit_dir]" "\<not> starts_with CHUNKINFO_PROLOGUE wit_dir" by code_simp+
  moreover have "wit_dir \<noteq> ''x''" by code_simp
  moreover have "\<not> isZeroStorageId (hex_encode (replicate 32 (CHR ''a'')))"
    "\<not> isZeroStorageId (hex_encode (replicate 32 (CHR ''b'')))" by code_simp+
  ultimately show ?thesis using assms
    by (auto simp: upload_file_id_def upload_chunks_def hash_id_def wit_hash_def)
qed

lemma wit_readable: "d \<in> {''x'', wit_dir} \<Longrightarrow> readable wit_config wit_hash wit_sources d"
proof -
  assume d: "d \<in> {''x'', wit_dir}"
  have n: "wit_dir \<noteq> ''x''" by code_simp
  have "\<exists>src \<in> set wit_sources. src (hash_id wit_hash d) = Some d" using d by (auto simp: wit_sources_def)
  moreover have "\<forall>d'. wit_hash d' = wit_hash d \<longrightarrow> d' = d" using d n by (auto simp: wit_hash_def split: if_splits)
  ultimately show ?thesis using wit_single [OF d]
    by (simp add: readable_def storable_def served_def wit_config_def) (simp add: wit_hash_def)
qed

lemma wit_blob:
  "node_blob (upload_file_id 1000 wit_hash) (DirNode [(''a'', FileNode ''x'')]) = wit_dir"
  using wit_single [of "''x''"] by (simp add: node_blob_dir node_entry_def wit_dir_def hash_id_def wit_hash_def)

lemma uploaded_tree_navigable_witness:
  "snd (getFileIdByPath (\<lambda>i. getFile wit_config wit_hash wit_sources i True) 1
     (upload_file_id 1000 wit_hash wit_dir) ''a'' empty_store) = Ret (upload_file_id 1000 wit_hash ''x'')"
proof -
  let ?t = "[(''a'', FileNode ''x'')]"
  have cs: "CHUNK_SIZE wit_config = 1000" by (simp add: wit_config_def)
  have "snd (uploadDir wit_config wit_hash False (DirNode ?t) empty_store) = Ret (upload_file_id 1000 wit_hash wit_dir)"
    using upload_tree [of wit_config wit_hash ?t empty_store] by (auto simp: cs wit_blob)
  moreover have "reader_ok wit_config wit_hash wit_sources empty_store"
    by (simp add: reader_ok_def node_ok_def disk_sound_def settled_def file_cached_ok_def empty_store_def)
  moreover have "\<forall>k \<in> set (subnodes (DirNode ?t)).
      readable wit_config wit_hash wit_sources (node_blob (upload_file_id (CHUNK_SIZE wit_config) wit_hash) k)"
    by (simp add: cs wit_blob wit_readable)
  ultimately show ?thesis
    using uploaded_tree_navigable [of wit_config wit_hash ?t empty_store _ "[''a'']" "FileNode ''x''" wit_sources empty_store]
    by (simp add: cs clean_seg_def)
qed

end
