(* ===== verification/Rpc.thy ===== *)
theory Rpc
  imports Json Caches
begin

text \<open>
  Wallet requests: the pending transactions and the permission records of
  \<open>src/permissions\<close> and the handlers of \<open>src/rpc/rpc-handlers.ts\<close>.  The
  blockchain clients are the argument \<open>chain\<close>, which answers a call from the
  calls made before; decoding the input data of a transaction for display is
  the argument \<open>decode\<close>.  Random ids and the clock are arguments.  A request
  whose method is the name of a property of every object (\<open>toString\<close>, ...) is
  not modelled; the text of a \<open>TypeError\<close> is the engine's and is abbreviated.
\<close>

section \<open>Pending transactions\<close>

record pending_tx =
  tx_params :: "json list"
  tx_network :: string

type_synonym pending_txs = "(string, pending_tx) cache"

definition new_pending :: "int \<Rightarrow> pending_txs" where
  "new_pending expirationSecs = new_cache (expirationSecs * 1000) None"

definition add_pending :: "int \<Rightarrow> string \<Rightarrow> json list \<Rightarrow> string \<Rightarrow> pending_txs \<Rightarrow> pending_txs" where
  "add_pending now reqId params network p = add now reqId \<lparr>tx_params = params, tx_network = network\<rparr> p"

definition find_pending :: "int \<Rightarrow> string \<Rightarrow> pending_txs \<Rightarrow> pending_txs \<times> pending_tx option" where
  "find_pending now reqId p = get now reqId p"

definition rm_pending :: "string \<Rightarrow> pending_txs \<Rightarrow> pending_txs \<times> string option" where
  "rm_pending reqId p = (case rm reqId p of (p', found) \<Rightarrow> (p', if found then Some reqId else None))"

section \<open>Permission records\<close>

record permission_record =
  pr_id :: string
  invoker :: string
  account :: string
  parentCapabilities :: "string list"

definition storer_find :: "string \<Rightarrow> permission_record list \<Rightarrow> permission_record option" where
  "storer_find i db = find (\<lambda>r. pr_id r = i) db"

definition storer_insert :: "permission_record \<Rightarrow> permission_record list \<Rightarrow> permission_record list" where
  "storer_insert r db = db @ [r]"

text \<open>The union keeps the old capabilities first; \<open>Set\<close> keeps the first of equal elements.\<close>

definition union_keep :: "string list \<Rightarrow> string list \<Rightarrow> string list" where
  "union_keep xs ys = rev (remdups (rev (xs @ ys)))"

definition storer_update :: "permission_record \<Rightarrow> permission_record list \<Rightarrow> permission_record list" where
  "storer_update rec db =
     map (\<lambda>r. if pr_id r \<noteq> pr_id rec then r
              else r\<lparr>parentCapabilities := union_keep (parentCapabilities r) (parentCapabilities rec)\<rparr>) db"

definition storer_remove :: "string \<Rightarrow> permission_record list \<Rightarrow> permission_record list" where
  "storer_remove i db = filter (\<lambda>r. pr_id r \<noteq> i) db"

text \<open>The interface \<open>Storer\<close> and the store over it.\<close>

record 'db storer =
  s_find :: "string \<Rightarrow> 'db \<Rightarrow> permission_record option"
  s_insert :: "permission_record \<Rightarrow> 'db \<Rightarrow> 'db"
  s_update :: "permission_record \<Rightarrow> 'db \<Rightarrow> 'db"
  s_remove :: "string \<Rightarrow> 'db \<Rightarrow> 'db"

definition memoryStorer :: "permission_record list storer" where
  "memoryStorer = \<lparr>s_find = storer_find, s_insert = storer_insert, s_update = storer_update, s_remove = storer_remove\<rparr>"

definition permission_id :: "(string \<Rightarrow> string) \<Rightarrow> string \<Rightarrow> string \<Rightarrow> string" where
  "permission_id md5hex dappDomain address = md5hex (dappDomain @ address)"

definition upsert_permission ::
  "'db storer \<Rightarrow> (string \<Rightarrow> string) \<Rightarrow> string \<Rightarrow> string \<Rightarrow> string list \<Rightarrow> 'db \<Rightarrow> 'db \<times> string" where
  "upsert_permission S md5hex dappDomain address allowedMethods db =
     (let i = permission_id md5hex dappDomain address;
          r = \<lparr>pr_id = i, invoker = dappDomain, account = address, parentCapabilities = allowedMethods\<rparr>
      in (if s_find S i db = None then s_insert S r db else s_update S r db, i))"

definition get_permission ::
  "'db storer \<Rightarrow> (string \<Rightarrow> string) \<Rightarrow> string \<Rightarrow> string \<Rightarrow> 'db \<Rightarrow> permission_record option" where
  "get_permission S md5hex dappDomain address db = s_find S (permission_id md5hex dappDomain address) db"

definition revoke_permission ::
  "'db storer \<Rightarrow> (string \<Rightarrow> string) \<Rightarrow> string \<Rightarrow> string \<Rightarrow> 'db \<Rightarrow> 'db \<times> string" where
  "revoke_permission S md5hex dappDomain address db =
     (let i = permission_id md5hex dappDomain address in (s_remove S i db, i))"

text \<open>The middleware: \<open>None\<close> lets the request pass, otherwise the status of the refusal.\<close>

definition RESTRICTED_METHODS :: "string list" where
  "RESTRICTED_METHODS = [[]]"

definition methodPermissionMdw ::
  "(string \<Rightarrow> string) \<Rightarrow> string option \<Rightarrow> string option \<Rightarrow> string \<Rightarrow> permission_record list \<Rightarrow> nat option" where
  "methodPermissionMdw md5hex method origin address db =
     (case method of
        None \<Rightarrow> None
      | Some m \<Rightarrow>
          if m \<notin> set RESTRICTED_METHODS then None
          else case origin of
                 None \<Rightarrow> Some 400
               | Some d \<Rightarrow>
                   if d = [] then Some 400
                   else (case get_permission memoryStorer md5hex d address db of
                           None \<Rightarrow> Some 401
                         | Some r \<Rightarrow> if m \<in> set (parentCapabilities r) then None else Some 401))"

section \<open>Requests\<close>

record rpc_request =
  rq_id :: "int option"
  rq_method :: string
  rq_params :: "json list option"
  rq_network :: "string option"
  rq_target :: "string option"
  rq_contract :: "string option"

text \<open>The calls of the blockchain clients.\<close>

datatype chain_call =
    EthSend string "json list option" int string
  | SolSend string "json list option" int string
  | SolSendFunds json string
  | SolSetPointReference json string
  | SolSignAndSend int json string
  | SolRequestAccount int string

text \<open>An error has an optional code and a message; a call is logged with the pending request it
  confirms.\<close>

type_synonym rpc_error = "int option \<times> string"

record rpc_state =
  pending :: pending_txs
  calls :: "(string option \<times> chain_call) list"

record rpc_env =
  net_types :: "(string \<times> string) list"
  default_network :: string
  chain :: "(string option \<times> chain_call) list \<Rightarrow> chain_call \<Rightarrow> rpc_error + json"
  decode :: "string option \<Rightarrow> string option \<Rightarrow> json list \<Rightarrow> string \<Rightarrow> rpc_error + json"
  network_public_key :: string

type_synonym reply = "nat \<times> json"

definition message :: "string \<Rightarrow> json" where
  "message m = JObj [(''message'', JStr m)]"

definition type_error :: rpc_error where
  "type_error = (None, ''TypeError'')"

definition status_of :: "rpc_error \<Rightarrow> nat" where
  "status_of e = (if fst e = Some (-32603) then 500 else 400)"

text \<open>\<open>(params[0]).k\<close>: a \<open>TypeError\<close> on \<open>undefined\<close> and \<open>null\<close>, falsy on other values without it.\<close>

definition first_prop :: "string \<Rightarrow> json list \<Rightarrow> rpc_error + json" where
  "first_prop k params =
     (case params of
        [] \<Rightarrow> Inl type_error
      | JNull # _ \<Rightarrow> Inl type_error
      | j # _ \<Rightarrow> Inr (case jget k j of None \<Rightarrow> JNull | Some v \<Rightarrow> v))"

definition call_chain :: "rpc_env \<Rightarrow> string option \<Rightarrow> chain_call \<Rightarrow> rpc_state \<Rightarrow> rpc_state \<times> (rpc_error + json)" where
  "call_chain env tag c st = (st\<lparr>calls := calls st @ [(tag, c)]\<rparr>, chain env (calls st) c)"

section \<open>Handlers\<close>

text \<open>A handler returns a reply or throws.\<close>

type_synonym handler = "rpc_state \<Rightarrow> rpc_state \<times> (rpc_error + reply)"

definition storeTransaction :: "rpc_env \<Rightarrow> int \<Rightarrow> string \<Rightarrow> string \<Rightarrow> rpc_request \<Rightarrow> handler" where
  "storeTransaction env now newId network rq st =
     (case rq_params rq of
        None \<Rightarrow> (st, Inr (400, message ''Missing `params` in request body.''))
      | Some params \<Rightarrow>
          (case obj_get (net_types env) network of
             None \<Rightarrow> (st, Inl type_error)
           | Some t \<Rightarrow>
               if t = ''solana'' \<and> length params \<noteq> 1
               then (st, Inr (400, message ''Wrong number or params for solana transaction, expected 1''))
               else (case decode env (rq_target rq) (rq_contract rq) params network of
                       Inl e \<Rightarrow> (st, Inl e)
                     | Inr d \<Rightarrow>
                         (st\<lparr>pending := add_pending now newId params network (pending st)\<rparr>,
                          Inr (200, JObj [(''reqId'', JStr newId), (''params'', JArr params),
                                 (''network'', JStr network), (''decodedTxData'', d)])))))"

text \<open>The call that sends a pending transaction.\<close>

definition confirm_call :: "string \<Rightarrow> int \<Rightarrow> pending_tx \<Rightarrow> rpc_error + chain_call option" where
  "confirm_call nettype i tx =
     (if nettype = ''eth'' then Inr (Some (EthSend ''eth_sendTransaction'' (Some (tx_params tx)) i (tx_network tx)))
      else if nettype = ''solana''
      then (case first_prop ''to'' (tx_params tx) of
              Inl e \<Rightarrow> Inl e
            | Inr to \<Rightarrow>
                if truthy_json to then Inr (Some (SolSendFunds (hd (tx_params tx)) (tx_network tx)))
                else (case first_prop ''domain'' (tx_params tx) of
                        Inl e \<Rightarrow> Inl e
                      | Inr d \<Rightarrow>
                          if truthy_json d then Inr (Some (SolSetPointReference d (tx_network tx)))
                          else Inr (Some (SolSignAndSend i (hd (tx_params tx)) (tx_network tx)))))
      else Inr None)"

definition confirm_error :: "rpc_error \<Rightarrow> reply" where
  "confirm_error e =
     (status_of e, JObj [(''message'', JStr (snd e)), (''code'', JNum (int (status_of e)))])"

definition confirmTransaction :: "rpc_env \<Rightarrow> int \<Rightarrow> int \<Rightarrow> rpc_request \<Rightarrow> handler" where
  "confirmTransaction env now i rq st =
     (case (case rq_params rq of Some (p # _) \<Rightarrow> jget ''reqId'' p | _ \<Rightarrow> None) of
        None \<Rightarrow> (st, Inr (400, message ''Missing `params[0].reqId` in request body.''))
      | Some r \<Rightarrow>
          if \<not> truthy_json r then (st, Inr (400, message ''Missing `params[0].reqId` in request body.''))
          else (case (case r of JStr reqId \<Rightarrow> find_pending now reqId (pending st) | _ \<Rightarrow> (pending st, None)) of
                  (p, None) \<Rightarrow>
                    (st\<lparr>pending := p\<rparr>, Inr (404, message (''Tx for request id '' @ [CHR 0x22] @
                      (case r of JStr x \<Rightarrow> x | _ \<Rightarrow> jprint r) @ [CHR 0x22] @ '' has not been found.'')))
                | (p, Some tx) \<Rightarrow>
                    (let reqId = (case r of JStr x \<Rightarrow> x | _ \<Rightarrow> []);
                         st1 = st\<lparr>pending := fst (rm_pending reqId p)\<rparr>
                     in case obj_get (net_types env) (tx_network tx) of
                          None \<Rightarrow> (st1, Inr (confirm_error type_error))
                        | Some t \<Rightarrow>
                            (case confirm_call t i tx of
                               Inl e \<Rightarrow> (st1, Inr (confirm_error e))
                             | Inr None \<Rightarrow>
                                 (st1, Inr (400, JObj [(''message'', JStr (''Unsupported type '' @ t @ '' for network '' @ tx_network tx)),
                                    (''id'', JNum i), (''network'', JStr (tx_network tx))]))
                             | Inr (Some c) \<Rightarrow>
                                 (case call_chain env (Some reqId) c st1 of
                                    (st2, Inl e) \<Rightarrow> (st2, Inr (confirm_error e))
                                  | (st2, Inr j) \<Rightarrow> (st2, Inr (200, j)))))))"

definition snsWriteRequest :: "rpc_env \<Rightarrow> int \<Rightarrow> string \<Rightarrow> rpc_request \<Rightarrow> handler" where
  "snsWriteRequest env now newId rq st =
     (case rq_params rq of
        None \<Rightarrow> (st, Inl type_error)
      | Some params \<Rightarrow>
          (let missing = (400, JObj [(''message'', JStr ''Missing params, expected object with `domain` key.''), (''code'', JNum 400)]) in
           if params = [] then (st, Inr missing)
           else case first_prop ''domain'' params of
                  Inl e \<Rightarrow> (st, Inl e)
                | Inr d \<Rightarrow>
                    if \<not> truthy_json d then (st, Inr missing)
                    else (st\<lparr>pending := add_pending now newId
                               [JObj [(''domain'', d), (''publicKey'', JStr (network_public_key env))]] ''solana'' (pending st)\<rparr>,
                          Inr (200, JObj [(''reqId'', JStr newId), (''network'', JStr ''solana''),
                            (''decodedTxData'', JObj [(''name'', JStr ''SetPOINTRecord''),
                               (''params'', JArr [
                                  JObj [(''name'', JStr ''SOLDomain''), (''value'', d), (''type'', JStr ''string'')],
                                  JObj [(''name'', JStr ''POINTPublicKey''), (''value'', JStr (network_public_key env)), (''type'', JStr ''byte64'')]]),
                               (''gas'', JObj [(''currency'', JStr ''SOL''), (''value'', JStr ''0.00005'')])])]))))"

text \<open>A call whose error is answered with its status.\<close>

definition answer_call :: "rpc_env \<Rightarrow> chain_call \<Rightarrow> handler" where
  "answer_call env c st =
     (case call_chain env None c st of
        (st1, Inr j) \<Rightarrow> (st1, Inr (200, j))
      | (st1, Inl e) \<Rightarrow>
          (st1, Inr (status_of e, JObj [(''code'', JNum (int (status_of e))), (''message'', JStr (snd e))])))"

definition unsupported_permission :: "string \<Rightarrow> int \<Rightarrow> string \<Rightarrow> reply" where
  "unsupported_permission method i network =
     (400, JObj [(''statusCode'', JNum 4200), (''message'', JStr (''Unsupported Method `'' @ method @ ''`.'')),
        (''id'', JNum i), (''network'', JStr network)])"

definition standard_call :: "rpc_env \<Rightarrow> string \<Rightarrow> int \<Rightarrow> rpc_request \<Rightarrow> handler" where
  "standard_call env network i rq st =
     (case obj_get (net_types env) network of
        None \<Rightarrow> (st, Inr (400, JObj [(''message'', JStr (''Unknown network '' @ network)), (''id'', JNum i), (''network'', JStr network)]))
      | Some t \<Rightarrow>
          if t \<noteq> ''eth'' \<and> t \<noteq> ''solana''
          then (st, Inr (400, JObj [(''message'', JStr (''Unsupported type '' @ t @ '' for network '' @ network)), (''id'', JNum i), (''network'', JStr network)]))
          else (case call_chain env None ((if t = ''eth'' then EthSend else SolSend) (rq_method rq) (rq_params rq) i network) st of
                  (st1, Inr j) \<Rightarrow> (st1, Inr (200, j))
                | (st1, Inl e) \<Rightarrow> (st1, Inl e)))"

definition rpc_dispatch :: "rpc_env \<Rightarrow> int \<Rightarrow> string \<Rightarrow> string \<Rightarrow> int \<Rightarrow> rpc_request \<Rightarrow> handler" where
  "rpc_dispatch env now newId network i rq st =
     (let m = rq_method rq in
      if m \<in> {''wallet_requestPermissions'', ''wallet_getPermissions''}
      then (st, Inr (unsupported_permission m i network))
      else if m = ''eth_requestAccounts''
      then answer_call env (EthSend ''eth_accounts'' (rq_params rq) i network) st
      else if m \<in> {''eth_sendTransaction'', ''solana_sendTransaction''} then storeTransaction env now newId network rq st
      else if m \<in> {''eth_confirmTransaction'', ''solana_confirmTransaction''} then confirmTransaction env now i rq st
      else if m = ''solana_snsWriteRequest'' then snsWriteRequest env now newId rq st
      else if m = ''solana_requestAccount'' then answer_call env (SolRequestAccount i ''solana_devnet'') st
      else standard_call env network i rq st)"

text \<open>\<open>handleRPC\<close>: what a handler throws is answered as an error.\<close>

definition handleRPC :: "rpc_env \<Rightarrow> int \<Rightarrow> string \<Rightarrow> rpc_request \<Rightarrow> rpc_state \<Rightarrow> rpc_state \<times> reply" where
  "handleRPC env now newId rq st =
     (case rpc_dispatch env now newId (case rq_network rq of None \<Rightarrow> default_network env | Some n \<Rightarrow> n)
             (case rq_id rq of None \<Rightarrow> now | Some i \<Rightarrow> i) rq st of
        (st1, Inr reply) \<Rightarrow> (st1, reply)
      | (st1, Inl e) \<Rightarrow>
          (st1, status_of e, JObj ((case fst e of None \<Rightarrow> [] | Some c \<Rightarrow> [(''code'', JNum c)]) @ [(''message'', JStr (snd e))])))"

section \<open>A transaction is sent at most once, and only as it was stored\<close>

definition store_methods :: "string set" where
  "store_methods = {''eth_sendTransaction'', ''solana_sendTransaction''}"

text \<open>The request asked to store this transaction.\<close>

definition stores :: "rpc_env \<Rightarrow> rpc_request \<Rightarrow> pending_tx \<Rightarrow> bool" where
  "stores env rq tx \<longleftrightarrow>
     rq_method rq \<in> store_methods \<and> rq_params rq = Some (tx_params tx) \<and>
       tx_network tx = (case rq_network rq of None \<Rightarrow> default_network env | Some n \<Rightarrow> n) \<or>
     rq_method rq = ''solana_snsWriteRequest'' \<and> tx_network tx = ''solana'' \<and>
       (\<exists>d. tx_params tx = [JObj [(''domain'', d), (''publicKey'', JStr (network_public_key env))]])"

abbreviation pending_entry :: "rpc_state \<Rightarrow> string \<Rightarrow> (int \<times> pending_tx) option" where
  "pending_entry st r \<equiv> obj_get (entries (pending st)) r"

text \<open>What one request does to the pending transactions and the calls.\<close>

definition rpc_effect :: "rpc_env \<Rightarrow> string \<Rightarrow> rpc_request \<Rightarrow> rpc_state \<Rightarrow> rpc_state \<Rightarrow> bool" where
  "rpc_effect env newId rq st st' \<longleftrightarrow> limit (pending st') = limit (pending st) \<and>
     (\<forall>r e. pending_entry st' r = Some e \<longrightarrow> pending_entry st r = Some e \<or> r = newId \<and> stores env rq (snd e)) \<and>
     (calls st' = calls st \<or>
      (\<exists>c. calls st' = calls st @ [(None, c)] \<and> (\<forall>ps i n. c \<noteq> EthSend ''eth_sendTransaction'' ps i n)) \<or>
      (\<exists>r e c t i. calls st' = calls st @ [(Some r, c)] \<and> pending_entry st r = Some e \<and> pending_entry st' r = None \<and>
         confirm_call t i (snd e) = Inr (Some c)))"

lemma find_pending_entries:
  "find_pending now r p = (p', x) \<Longrightarrow> limit p' = limit p \<and>
   (\<forall>k e. obj_get (entries p') k = Some e \<longrightarrow> obj_get (entries p) k = Some e) \<and>
   (\<forall>tx. x = Some tx \<longrightarrow> (\<exists>e. obj_get (entries p) r = Some (e, tx)))"
  by (auto simp: find_pending_def get_def Let_def checkExpired_def split: option.splits if_splits)

lemma add_pending_entries:
  "limit p = None \<Longrightarrow> obj_get (entries (add_pending now i ps n p)) k =
     (if k = i then Some (now + ttlMs p, \<lparr>tx_params = ps, tx_network = n\<rparr>) else obj_get (entries p) k)"
  by (simp add: add_pending_def add_def)

lemma pending_limit [simp]:
  "limit (add_pending now i ps n p) = limit p" "limit (fst (find_pending now r p)) = limit p"
  "limit (fst (rm_pending r p)) = limit p"
  by (simp_all add: add_pending_def find_pending_def get_def Let_def rm_pending_def rm_def)

lemma effect_refl: "rpc_effect env i rq st st"
  by (simp add: rpc_effect_def)

lemma effect_store:
  assumes "limit (pending st) = None" "stores env rq \<lparr>tx_params = ps, tx_network = n\<rparr>"
  shows "rpc_effect env i rq st (st\<lparr>pending := add_pending now i ps n (pending st)\<rparr>)"
  using assms by (auto simp: rpc_effect_def add_pending_entries)

lemma store_effect:
  assumes "limit (pending st) = None" "rq_method rq \<in> store_methods"
    "n = (case rq_network rq of None \<Rightarrow> default_network env | Some n \<Rightarrow> n)"
  shows "rpc_effect env i rq st (fst (storeTransaction env now i n rq st))"
  using assms effect_refl effect_store [OF assms(1)]
  by (auto simp: storeTransaction_def stores_def split: option.splits sum.splits)

lemma sns_effect:
  assumes "limit (pending st) = None" "rq_method rq = ''solana_snsWriteRequest''"
  shows "rpc_effect env i rq st (fst (snsWriteRequest env now i rq st))"
  using assms effect_refl effect_store [OF assms(1)]
  by (auto simp: snsWriteRequest_def stores_def Let_def split: option.splits sum.splits)

lemma call_effect:
  "(\<And>ps i n. c \<noteq> EthSend ''eth_sendTransaction'' ps i n) \<Longrightarrow> rpc_effect env i rq st (fst (answer_call env c st))"
  by (auto simp: rpc_effect_def answer_call_def call_chain_def split: sum.splits)

lemma confirm_effect: "rpc_effect env newId rq st (fst (confirmTransaction env now i rq st))"
proof (cases "\<exists>p tx reqId ps. rq_params rq = Some ps \<and> ps \<noteq> [] \<and> jget ''reqId'' (hd ps) = Some (JStr reqId) \<and> reqId \<noteq> [] \<and>
    find_pending now reqId (pending st) = (p, Some tx)")
  case True
  then obtain p tx reqId q ps where q: "rq_params rq = Some (q # ps)" "jget ''reqId'' q = Some (JStr reqId)" "reqId \<noteq> []"
    and f: "find_pending now reqId (pending st) = (p, Some tx)" by (metis list.exhaust_sel list.sel(1))
  obtain e where e: "pending_entry st reqId = Some (e, tx)" using find_pending_entries [OF f] by blast
  have rm: "obj_get (entries (fst (rm_pending reqId p))) k = (if k = reqId then None else obj_get (entries p) k)" for k
    by (simp add: rm_pending_def rm_def)
  have keep: "obj_get (entries (fst (rm_pending reqId p))) k = Some x \<Longrightarrow> pending_entry st k = Some x" for k x
    using find_pending_entries [OF f] by (cases x) (auto simp: rm split: if_splits)
  define st1 where "st1 = st\<lparr>pending := fst (rm_pending reqId p)\<rparr>"
  have s1: "rpc_effect env newId rq st st1" using keep find_pending_entries [OF f] by (auto simp: rpc_effect_def st1_def)
  have s2: "rpc_effect env newId rq st (st1\<lparr>calls := calls st @ [(Some reqId, c)]\<rparr>)"
    if c: "confirm_call t i tx = Inr (Some c)" for t c
  proof -
    have "\<exists>r e c' t i. calls (st1\<lparr>calls := calls st @ [(Some reqId, c)]\<rparr>) = calls st @ [(Some r, c')] \<and>
        pending_entry st r = Some e \<and> pending_entry (st1\<lparr>calls := calls st @ [(Some reqId, c)]\<rparr>) r = None \<and>
        confirm_call t i (snd e) = Inr (Some c')"
      by (rule exI [of _ reqId], rule exI [of _ "(e, tx)"], rule exI [of _ c], rule exI [of _ t], rule exI [of _ i])
        (simp add: e c st1_def rm)
    then show ?thesis using keep find_pending_entries [OF f] unfolding rpc_effect_def by (simp add: st1_def)
  qed
  show ?thesis
    using s1 s2 unfolding confirmTransaction_def
    by (simp add: q f Let_def st1_def [symmetric] call_chain_def split: option.splits sum.splits) (auto simp: st1_def)
next
  case False
  define x where "x = (case rq_params rq of Some (p # _) \<Rightarrow> jget ''reqId'' p | _ \<Rightarrow> None)"
  have "fst (confirmTransaction env now i rq st) = st \<or>
      (\<exists>reqId p. find_pending now reqId (pending st) = (p, None) \<and> fst (confirmTransaction env now i rq st) = st\<lparr>pending := p\<rparr>)"
    using False unfolding confirmTransaction_def x_def [symmetric]
    by (auto simp: x_def split: option.splits json.splits prod.splits list.splits)
  then show ?thesis
    using find_pending_entries effect_refl by (auto simp: rpc_effect_def dest!: find_pending_entries)
qed

lemma standard_effect:
  assumes "rq_method rq \<noteq> ''eth_sendTransaction''"
  shows "rpc_effect env newId rq st (fst (standard_call env n i rq st))"
  using assms by (auto simp: rpc_effect_def standard_call_def call_chain_def split: option.splits sum.splits)

lemma handleRPC_fst: "fst (handleRPC env now newId rq st) =
    fst (rpc_dispatch env now newId (case rq_network rq of None \<Rightarrow> default_network env | Some n \<Rightarrow> n)
             (case rq_id rq of None \<Rightarrow> now | Some i \<Rightarrow> i) rq st)"
  by (simp add: handleRPC_def split: prod.splits sum.splits)

lemma handleRPC_effect:
  assumes "limit (pending st) = None"
  shows "rpc_effect env newId rq st (fst (handleRPC env now newId rq st))"
proof -
  let ?n = "case rq_network rq of None \<Rightarrow> default_network env | Some n \<Rightarrow> n"
  have s: "rpc_effect env newId rq st (fst (storeTransaction env now newId ?n rq st))"
    if "rq_method rq \<in> {''eth_sendTransaction'', ''solana_sendTransaction''}"
    using store_effect [OF assms, of rq ?n env newId now] that by (auto simp: store_methods_def)
  have c: "rpc_effect env newId rq st (fst (answer_call env (EthSend ''eth_accounts'' ps i n) st))"
    "rpc_effect env newId rq st (fst (answer_call env (SolRequestAccount i n) st))" for ps i n
    by (intro call_effect; simp)+
  show ?thesis unfolding handleRPC_fst rpc_dispatch_def Let_def if_distrib [of fst] fst_conv
    by (simp only: split: if_split)
      (intro conjI impI; (rule effect_refl | rule c | rule confirm_effect | (rule s, assumption)
        | (rule sns_effect [OF assms], assumption) | (rule standard_effect, simp)))
qed

definition new_rpc :: "int \<Rightarrow> rpc_state" where
  "new_rpc expirationSecs = \<lparr>pending = new_pending expirationSecs, calls = []\<rparr>"

text \<open>A run: requests with the time and the random id drawn for them.\<close>

fun rpc_run :: "rpc_env \<Rightarrow> (int \<times> string \<times> rpc_request) list \<Rightarrow> rpc_state \<Rightarrow> rpc_state" where
  "rpc_run env [] st = st"
| "rpc_run env ((now, newId, rq) # xs) st = rpc_run env xs (fst (handleRPC env now newId rq st))"

definition confirmed :: "rpc_state \<Rightarrow> string list" where
  "confirmed st = concat (map (\<lambda>(r, c). case r of None \<Rightarrow> [] | Some x \<Rightarrow> [x]) (calls st))"

lemma confirmed_append:
  "calls st' = calls st @ [(r, c)] \<Longrightarrow> confirmed st' = confirmed st @ (case r of None \<Rightarrow> [] | Some x \<Rightarrow> [x])"
  by (simp add: confirmed_def)

text \<open>A call that confirms a request was stored under its id by one of the requests.\<close>

definition justified :: "rpc_env \<Rightarrow> (int \<times> string \<times> rpc_request) list \<Rightarrow> string \<Rightarrow> chain_call \<Rightarrow> bool" where
  "justified env xs r c \<longleftrightarrow> (\<exists>now rq tx t i. (now, r, rq) \<in> set xs \<and> stores env rq tx \<and> confirm_call t i tx = Inr (Some c))"

definition rpc_inv :: "rpc_env \<Rightarrow> (int \<times> string \<times> rpc_request) list \<Rightarrow> rpc_state \<Rightarrow> bool" where
  "rpc_inv env xs st \<longleftrightarrow> limit (pending st) = None \<and> distinct (confirmed st) \<and>
     (\<forall>r \<in> set (confirmed st). pending_entry st r = None \<and> r \<in> fst ` snd ` set xs) \<and>
     (\<forall>r e. pending_entry st r = Some e \<longrightarrow> (\<exists>now rq. (now, r, rq) \<in> set xs \<and> stores env rq (snd e))) \<and>
     (\<forall>r c. (Some r, c) \<in> set (calls st) \<longrightarrow> justified env xs r c) \<and>
     (\<forall>c. (None, c) \<in> set (calls st) \<longrightarrow> (\<forall>ps i n. c \<noteq> EthSend ''eth_sendTransaction'' ps i n))"

lemma rpc_inv_step:
  assumes i: "rpc_inv env xs st" and fresh: "newId \<notin> fst ` snd ` set xs"
  shows "rpc_inv env (xs @ [(now, newId, rq)]) (fst (handleRPC env now newId rq st))"
proof -
  let ?st = "fst (handleRPC env now newId rq st)" and ?xs = "xs @ [(now, newId, rq)]"
  have lim: "limit (pending st) = None" using i unfolding rpc_inv_def by blast
  have eff: "rpc_effect env newId rq st ?st" by (rule handleRPC_effect [OF lim])
  have l: "limit (pending ?st) = None" using eff lim unfolding rpc_effect_def by simp
  have sub: "pending_entry st r = Some e \<or> r = newId \<and> stores env rq (snd e)" if "pending_entry ?st r = Some e" for r e
    using eff that unfolding rpc_effect_def by blast
  have pend: "\<exists>now' rq'. (now', r, rq') \<in> set ?xs \<and> stores env rq' (snd e)" if "pending_entry ?st r = Some e" for r e
    using sub [OF that]
  proof
    assume "pending_entry st r = Some e"
    with i obtain now' rq' where "(now', r, rq') \<in> set xs" "stores env rq' (snd e)" unfolding rpc_inv_def by blast
    then show ?thesis by auto
  qed auto
  have old: "pending_entry ?st r = None \<and> r \<in> fst ` snd ` set ?xs" if "r \<in> set (confirmed st)" for r
  proof -
    have r: "pending_entry st r = None" "r \<in> fst ` snd ` set xs" using i that unfolding rpc_inv_def by blast+
    have "pending_entry ?st r \<noteq> Some e" for e using sub [of r e] r fresh by auto
    then show ?thesis using r(2) by (auto simp: not_Some_eq [symmetric])
  qed
  have just: "justified env ?xs r c" if "(Some r, c) \<in> set (calls st)" for r c
    using i that unfolding rpc_inv_def justified_def by (metis Un_iff set_append)
  have dist: "distinct (confirmed st)" using i unfolding rpc_inv_def by blast
  have none: "\<forall>c. (None, c) \<in> set (calls st) \<longrightarrow> (\<forall>ps i n. c \<noteq> EthSend ''eth_sendTransaction'' ps i n)"
    using i unfolding rpc_inv_def by blast
  consider "calls ?st = calls st"
    | c where "calls ?st = calls st @ [(None, c)]" "\<forall>ps i n. c \<noteq> EthSend ''eth_sendTransaction'' ps i n"
    | r e c t j where "calls ?st = calls st @ [(Some r, c)]" "pending_entry st r = Some e" "pending_entry ?st r = None"
        "confirm_call t j (snd e) = Inr (Some c)"
    using eff unfolding rpc_effect_def by blast
  then show ?thesis
  proof cases
    case 1
    then have "confirmed ?st = confirmed st" by (simp add: confirmed_def)
    with 1 l dist old pend just none show ?thesis unfolding rpc_inv_def by simp
  next
    case 2
    have "confirmed ?st = confirmed st" using confirmed_append [OF 2(1)] by simp
    with 2 l dist old pend just none show ?thesis unfolding rpc_inv_def by auto
  next
    case 3
    have c: "confirmed ?st = confirmed st @ [r]" using confirmed_append [OF 3(1)] by simp
    obtain now' rq' where rq': "(now', r, rq') \<in> set xs" "stores env rq' (snd e)"
      using i 3(2) unfolding rpc_inv_def by blast
    have r: "r \<in> fst ` snd ` set xs" using rq'(1) by force
    have new: "r \<notin> set (confirmed st)" using i 3(2) unfolding rpc_inv_def by force
    have j: "justified env ?xs r c" using rq' 3(4) unfolding justified_def set_append by blast
    have "distinct (confirmed ?st)" using c dist new by simp
    moreover have "\<forall>x \<in> set (confirmed ?st). pending_entry ?st x = None \<and> x \<in> fst ` snd ` set ?xs"
      using c old 3(3) r by auto
    moreover have "\<forall>x y. (Some x, y) \<in> set (calls ?st) \<longrightarrow> justified env ?xs x y" using 3(1) just j by auto
    moreover have "\<forall>y. (None, y) \<in> set (calls ?st) \<longrightarrow> (\<forall>ps i n. y \<noteq> EthSend ''eth_sendTransaction'' ps i n)"
      using 3(1) none by auto
    ultimately show ?thesis using l pend unfolding rpc_inv_def by blast
  qed
qed

lemma rpc_inv_run:
  "rpc_inv env xs st \<Longrightarrow> distinct (map (fst \<circ> snd) (xs @ ys)) \<Longrightarrow> rpc_inv env (xs @ ys) (rpc_run env ys st)"
proof (induction ys arbitrary: xs st)
  case (Cons y ys)
  obtain now newId rq where y: "y = (now, newId, rq)" by (cases y)
  have "newId \<notin> fst ` snd ` set xs" using Cons.prems(2) y by force
  with Cons.IH [of "xs @ [y]" "fst (handleRPC env now newId rq st)"] Cons.prems rpc_inv_step [of env xs st newId now rq] y
  show ?case by simp
qed simp


definition toy_env :: rpc_env where
  "toy_env = \<lparr>net_types = [(''ynet'', ''eth'')], default_network = ''ynet'', chain = (\<lambda>_ _. Inr JNull),
     decode = (\<lambda>_ _ _ _. Inr JNull), network_public_key = ''pk''\<rparr>"

definition toy_request :: "string \<Rightarrow> json list \<Rightarrow> rpc_request" where
  "toy_request m ps = \<lparr>rq_id = Some 1, rq_method = m, rq_params = Some ps, rq_network = None, rq_target = None, rq_contract = None\<rparr>"

definition toy_run :: "(int \<times> string \<times> rpc_request) list" where
  "toy_run = [(0, ''r1'', toy_request ''eth_sendTransaction'' [JNum 7]),
     (1, ''r2'', toy_request ''eth_confirmTransaction'' [JObj [(''reqId'', JStr ''r1'')]]),
     (2, ''r3'', toy_request ''eth_confirmTransaction'' [JObj [(''reqId'', JStr ''r1'')]])]"

lemma toy_calls:
  "calls (rpc_run toy_env toy_run (new_rpc 120)) = [(Some ''r1'', EthSend ''eth_sendTransaction'' (Some [JNum 7]) 1 ''ynet'')]"
  by code_simp


section \<open>The permission store\<close>

lemma find_Some_id: "storer_find i db = Some r \<Longrightarrow> pr_id r = i"
  by (auto simp: storer_find_def find_Some_iff)

lemma storer_find_insert [simp]:
  "storer_find i (storer_insert r db) = (case storer_find i db of Some x \<Rightarrow> Some x | None \<Rightarrow> if pr_id r = i then Some r else None)"
  by (induction db) (auto simp: storer_find_def storer_insert_def)

lemma storer_find_update [simp]:
  "storer_find i (storer_update rec db) = map_option (\<lambda>r. if pr_id r \<noteq> pr_id rec then r
     else r\<lparr>parentCapabilities := union_keep (parentCapabilities r) (parentCapabilities rec)\<rparr>) (storer_find i db)"
  by (induction db) (auto simp: storer_find_def storer_update_def)

lemma storer_find_remove [simp]: "storer_find i (storer_remove j db) = (if i = j then None else storer_find i db)"
  by (induction db) (auto simp: storer_find_def storer_remove_def)

lemma set_union_keep [simp]: "set (union_keep xs ys) = set xs \<union> set ys"
  by (auto simp: union_keep_def)

definition allowed :: "'db storer \<Rightarrow> (string \<Rightarrow> string) \<Rightarrow> string \<Rightarrow> string \<Rightarrow> 'db \<Rightarrow> string set" where
  "allowed S md5hex d a db =
     (case get_permission S md5hex d a db of None \<Rightarrow> {} | Some r \<Rightarrow> set (parentCapabilities r))"

text \<open>What the store needs of its storer.\<close>

locale permission_storer =
  fixes S :: "'db storer"
  assumes find_insert: "s_find S (pr_id r) db = None \<Longrightarrow>
      s_find S i (s_insert S r db) = (if i = pr_id r then Some r else s_find S i db)"
    and find_update: "s_find S i (s_update S r db) = map_option (\<lambda>x. if i \<noteq> pr_id r then x
      else x\<lparr>parentCapabilities := union_keep (parentCapabilities x) (parentCapabilities r)\<rparr>) (s_find S i db)"
    and find_remove: "s_find S i (s_remove S j db) = (if i = j then None else s_find S i db)"
begin

lemma allowed_upsert:
  "allowed S md5hex d' a' (fst (upsert_permission S md5hex d a ms db)) =
     allowed S md5hex d' a' db \<union> (if md5hex (d' @ a') = md5hex (d @ a) then set ms else {})"
proof (cases "s_find S (md5hex (d @ a)) db")
  case None
  then show ?thesis
    using find_insert [of "\<lparr>pr_id = md5hex (d @ a), invoker = d, account = a, parentCapabilities = ms\<rparr>" db]
    by (simp add: allowed_def upsert_permission_def get_permission_def permission_id_def Let_def)
next
  case (Some r)
  then show ?thesis
    by (auto simp: allowed_def upsert_permission_def get_permission_def permission_id_def Let_def find_update
        split: option.splits)
qed

lemma allowed_revoke:
  "allowed S md5hex d' a' (fst (revoke_permission S md5hex d a db)) =
     (if md5hex (d' @ a') = md5hex (d @ a) then {} else allowed S md5hex d' a' db)"
  by (simp add: allowed_def revoke_permission_def get_permission_def permission_id_def Let_def find_remove)

end

interpretation ms: permission_storer memoryStorer
proof unfold_locales
  fix i r and db :: "permission_record list"
  show "s_find memoryStorer i (s_update memoryStorer r db) = map_option (\<lambda>x. if i \<noteq> pr_id r then x
      else x\<lparr>parentCapabilities := union_keep (parentCapabilities x) (parentCapabilities r)\<rparr>) (s_find memoryStorer i db)"
    using find_Some_id [of i db] by (cases "storer_find i db") (auto simp: memoryStorer_def)
qed (auto simp: memoryStorer_def split: option.splits)

text \<open>C39: granting methods to an application for an account adds exactly these to what it had,
  revoking leaves it nothing, and both leave every other application and account alone whose
  concatenated names have another digest.\<close>

theorem permissions_as_sets:
  "allowed memoryStorer md5hex d a (fst (upsert_permission memoryStorer md5hex d a ms db)) = allowed memoryStorer md5hex d a db \<union> set ms \<and>
   allowed memoryStorer md5hex d a (fst (revoke_permission memoryStorer md5hex d a db)) = {} \<and>
   (md5hex (d' @ a') \<noteq> md5hex (d @ a) \<longrightarrow>
      allowed memoryStorer md5hex d' a' (fst (upsert_permission memoryStorer md5hex d a ms db)) = allowed memoryStorer md5hex d' a' db \<and>
      allowed memoryStorer md5hex d' a' (fst (revoke_permission memoryStorer md5hex d a db)) = allowed memoryStorer md5hex d' a' db)"
  by (simp add: ms.allowed_upsert ms.allowed_revoke)

lemma permissions_as_sets_witness:
  "allowed memoryStorer (\<lambda>x. x) ''b'' ''2'' (fst (upsert_permission memoryStorer (\<lambda>x. x) ''a'' ''1'' [''m''] [])) =
   allowed memoryStorer (\<lambda>x. x) ''b'' ''2'' []"
  using permissions_as_sets [of "\<lambda>x. x" "''a''" "''1''" "[''m'']" "[]" "''b''" "''2''"] by simp

text \<open>Two applications can share a record: the names are concatenated without a separator.\<close>

lemma permission_ids_ambiguous: "permission_id md5hex ''https://a.point0'' ''x'' = permission_id md5hex ''https://a.point'' ''0x''"
  by (simp add: permission_id_def)

end
