(* ===== verification/Async.thy ===== *)
theory Async
  imports Models
begin

text \<open>
  Sequencing of asynchronous functions over a state: \<open>await\<close> passes on the
  value of a call that returned and stops at an exception or at a wait.
\<close>

type_synonym ('s, 'a) act = "'s \<Rightarrow> 's \<times> 'a async"

definition retA :: "'a \<Rightarrow> ('s, 'a) act" where
  "retA x st = (st, Ret x)"

definition throwA :: "exn \<Rightarrow> ('s, 'a) act" where
  "throwA e st = (st, Throw e)"

definition await :: "('s, 'a) act \<Rightarrow> ('a \<Rightarrow> ('s, 'b) act) \<Rightarrow> ('s, 'b) act" where
  "await m f st =
     (case m st of
        (st1, Ret x) \<Rightarrow> f x st1
      | (st1, Throw e) \<Rightarrow> (st1, Throw e)
      | (st1, WaitFor ev k) \<Rightarrow> (st1, WaitFor ev k))"

definition liftR :: "'a result \<Rightarrow> ('s, 'a) act" where
  "liftR r st = (case r of Inl e \<Rightarrow> (st, Throw e) | Inr x \<Rightarrow> (st, Ret x))"

text \<open>\<open>try { m } catch (e) { h(e) }\<close>\<close>

definition catchA :: "('s, 'a) act \<Rightarrow> (exn \<Rightarrow> ('s, 'a) act) \<Rightarrow> ('s, 'a) act" where
  "catchA m h st = (case m st of (st1, Throw e) \<Rightarrow> h e st1 | r \<Rightarrow> r)"

definition guardA :: "bool \<Rightarrow> exn \<Rightarrow> ('s, unit) act" where
  "guardA c e = (if c then retA () else throwA e)"

lemma await_simps [simp]:
  "m st = (st1, Ret x) \<Longrightarrow> await m f st = f x st1"
  "m st = (st1, Throw e) \<Longrightarrow> await m f st = (st1, Throw e)"
  "m st = (st1, WaitFor ev k) \<Longrightarrow> await m f st = (st1, WaitFor ev k)"
  by (simp_all add: await_def)

lemma await_retA [simp]: "await (retA x) f = f x"
  by (simp add: fun_eq_iff await_def retA_def)

lemma await_throwA [simp]: "await (throwA e) f = throwA e"
  by (simp add: fun_eq_iff await_def throwA_def)

lemma await_liftR [simp]:
  "await (liftR (Inr x)) f = f x" "await (liftR (Inl e)) f = throwA e"
  by (simp_all add: fun_eq_iff await_def liftR_def throwA_def)

lemma await_guard [simp]:
  "await (guardA c e) f = (if c then f () else throwA e)"
  by (simp add: guardA_def)

lemma await_Ret:
  "snd (await m f st) = Ret y \<Longrightarrow>
     \<exists>st1 x. m st = (st1, Ret x) \<and> await m f st = f x st1 \<and> snd (f x st1) = Ret y"
  by (auto simp: await_def split: prod.splits async.splits)

lemma await_RetD:
  "await m f st = (st', Ret y) \<Longrightarrow> \<exists>st1 x. m st = (st1, Ret x) \<and> f x st1 = (st', Ret y)"
  by (auto simp: await_def split: prod.splits async.splits)

lemma snd_act_simps [simp]:
  "snd (retA x st) = Ret x" "fst (retA x st) = st" "snd (throwA e st) = Throw e" "fst (throwA e st) = st"
  by (simp_all add: retA_def throwA_def)

section \<open>Invariants of asynchronous functions\<close>

text \<open>\<open>inv_act P m Q\<close>: the call keeps \<open>P\<close> whatever its outcome, and a returned value satisfies \<open>Q\<close>.\<close>

definition inv_act :: "('s \<Rightarrow> bool) \<Rightarrow> ('s, 'a) act \<Rightarrow> ('a \<Rightarrow> bool) \<Rightarrow> bool" where
  "inv_act P m Q \<longleftrightarrow> (\<forall>s. P s \<longrightarrow> P (fst (m s)) \<and> (\<forall>x. snd (m s) = Ret x \<longrightarrow> Q x))"

lemma inv_act_await [inv_intros]:
  assumes "inv_act P m R" "\<And>x. R x \<Longrightarrow> inv_act P (f x) Q"
  shows "inv_act P (await m f) Q"
  unfolding inv_act_def
proof (intro allI impI)
  fix s assume p: "P s"
  obtain s1 r where m: "m s = (s1, r)" by (cases "m s")
  with assms(1) p have "P s1" "\<And>x. r = Ret x \<Longrightarrow> R x" by (auto simp: inv_act_def)
  with assms(2) m show "P (fst (await m f s)) \<and> (\<forall>x. snd (await m f s) = Ret x \<longrightarrow> Q x)"
    by (cases r) (auto simp: inv_act_def)
qed

lemma inv_act_ret [inv_intros]: "Q x \<Longrightarrow> inv_act P (retA x) Q"
  by (simp add: inv_act_def)

lemma inv_act_throw [inv_intros]: "inv_act P (throwA e) Q"
  by (simp add: inv_act_def)

lemma inv_act_if [inv_intros]:
  "(c \<Longrightarrow> inv_act P m Q) \<Longrightarrow> (\<not> c \<Longrightarrow> inv_act P m' Q) \<Longrightarrow> inv_act P (if c then m else m') Q"
  by simp

lemma inv_act_weaken: "inv_act P m Q \<Longrightarrow> (\<And>x. Q x \<Longrightarrow> R x) \<Longrightarrow> inv_act P m R"
  by (auto simp: inv_act_def)

end
