(* ===== verification/Envelope.thy ===== *)
theory Envelope
  imports Async Directory
begin

text \<open>
  Encrypted and signed blobs: \<open>src/client/encryption.ts\<close> without the class
  \<open>EncryptionContainer\<close>.  The libraries (Node's AES-256-GCM, \<open>eccrypto\<close>) are
  the fields of the record \<open>crypto\<close>; what a theorem needs of them is the
  hypotheses \<open>aes_ok\<close>, \<open>ecc_ok\<close> and \<open>sig_ok\<close>, their documented laws.  Random
  bytes are arguments.  The blobs go through the interface \<open>blob_store\<close>, which
  is interpreted on \<open>uploadData\<close> and \<open>getFile\<close>.
\<close>

section \<open>Libraries\<close>

record crypto =
  aes_encrypt :: "string \<Rightarrow> string \<Rightarrow> string \<Rightarrow> string \<times> string"
  aes_decrypt :: "string \<Rightarrow> string \<Rightarrow> string \<Rightarrow> string \<Rightarrow> string option"
  ecc_public :: "string \<Rightarrow> string"
  ecc_encrypt :: "string \<Rightarrow> string \<Rightarrow> string \<times> string \<times> string \<times> string"
  ecc_decrypt :: "string \<Rightarrow> string \<times> string \<times> string \<times> string \<Rightarrow> string option"
  ecc_sign :: "string \<Rightarrow> string \<Rightarrow> string"
  ecc_verify :: "string \<Rightarrow> string \<Rightarrow> string \<Rightarrow> bool"

text \<open>AES-GCM: a 128-bit tag, and decryption inverts encryption under the same key and iv.\<close>

definition aes_ok :: "crypto \<Rightarrow> bool" where
  "aes_ok C \<longleftrightarrow> (\<forall>k iv p. length k = 32 \<longrightarrow> length iv = 12 \<longrightarrow>
     length (snd (aes_encrypt C k iv p)) = 16 \<and>
     aes_decrypt C k iv (snd (aes_encrypt C k iv p)) (fst (aes_encrypt C k iv p)) = Some p)"

text \<open>\<open>eccrypto.encrypt\<close> returns an iv of 16 bytes, an uncompressed ephemeral key of 65 and a mac of
  32, and \<open>decrypt\<close> with the private key inverts it; public keys are uncompressed.\<close>

definition ecc_ok :: "crypto \<Rightarrow> string \<Rightarrow> bool" where
  "ecc_ok C priv \<longleftrightarrow>
     length (ecc_public C priv) = 65 \<and> hd (ecc_public C priv) = CHR 0x04 \<and>
     (\<forall>m. case ecc_encrypt C (ecc_public C priv) m of (iv, eph, ct, mac) \<Rightarrow>
        length iv = 16 \<and> length eph = 65 \<and> length mac = 32 \<and>
        ecc_decrypt C priv (iv, eph, ct, mac) = Some m)"

text \<open>Signatures are DER sequences of at most 72 bytes and verify under the public key.\<close>

definition sig_ok :: "crypto \<Rightarrow> string \<Rightarrow> bool" where
  "sig_ok C priv \<longleftrightarrow> (\<forall>h. \<exists>s. ecc_sign C priv h = CHR 0x30 # s \<and> length s \<le> 71 \<and>
     ecc_verify C (ecc_public C priv) h (CHR 0x30 # s))"

section \<open>Symmetric encryption\<close>

definition KEY_LENGTH_BYTES :: nat where "KEY_LENGTH_BYTES = 256 div 8"
definition IV_LENGTH_BYTES :: nat where "IV_LENGTH_BYTES = 96 div 8"
definition AUTH_TAG_LENGTH_BYTES :: nat where "AUTH_TAG_LENGTH_BYTES = 128 div 8"

lemma key_lengths [simp]: "KEY_LENGTH_BYTES = 32" "IV_LENGTH_BYTES = 12" "AUTH_TAG_LENGTH_BYTES = 16"
  by (simp_all add: KEY_LENGTH_BYTES_def IV_LENGTH_BYTES_def AUTH_TAG_LENGTH_BYTES_def)

record encrypted_data =
  ed_key :: string
  encryptedMaterial :: string

record encrypted_file =
  ef_key :: string
  ef_fileId :: string

definition createFromPlaintext ::
  "crypto \<Rightarrow> string \<Rightarrow> string \<Rightarrow> string \<Rightarrow> string option \<Rightarrow> encrypted_data result" where
  "createFromPlaintext C rndKey iv plaintext forceEncryptionKey =
     (let key = (case forceEncryptionKey of Some k \<Rightarrow> k | None \<Rightarrow> rndKey) in
      if key = replicate KEY_LENGTH_BYTES (CHR 0x00) \<or> length key \<noteq> KEY_LENGTH_BYTES
      then Inl (DisplayableError ''key is empty or invalid length'')
      else (let (cipherText, tag) = aes_encrypt C key iv plaintext
            in Inr \<lparr>ed_key = key, encryptedMaterial = iv @ tag @ cipherText\<rparr>))"

definition decrypt :: "crypto \<Rightarrow> encrypted_data \<Rightarrow> string result" where
  "decrypt C e =
     (let m = encryptedMaterial e;
          iv = take IV_LENGTH_BYTES m;
          tag = take AUTH_TAG_LENGTH_BYTES (drop IV_LENGTH_BYTES m);
          cipherText = drop (IV_LENGTH_BYTES + AUTH_TAG_LENGTH_BYTES) m
      in case aes_decrypt C (ed_key e) iv tag cipherText of
           None \<Rightarrow> Inl (PlainError ''Unsupported state or unable to authenticate data'')
         | Some p \<Rightarrow> Inr p)"

lemma decrypt_create:
  assumes "aes_ok C" "length iv = 12" "createFromPlaintext C k iv p f = Inr e"
  shows "decrypt C e = Inr p"
proof -
  define key where "key = (case f of Some k \<Rightarrow> k | None \<Rightarrow> k)"
  obtain ct tag where a: "aes_encrypt C key iv p = (ct, tag)" by (cases "aes_encrypt C key iv p")
  have c: "length key = 32" "e = \<lparr>ed_key = key, encryptedMaterial = iv @ tag @ ct\<rparr>"
    using assms(3) a by (simp_all add: createFromPlaintext_def key_def [symmetric] Let_def split: if_splits)
  then have "length tag = 16" "aes_decrypt C key iv tag ct = Some p"
    using assms(1,2) a unfolding aes_ok_def by (metis fst_conv snd_conv)+
  with c assms(2) show ?thesis by (simp add: decrypt_def)
qed

lemma ed_eta [simp]: "\<lparr>ed_key = ed_key e, encryptedMaterial = encryptedMaterial e\<rparr> = e"
  by (cases e) simp

lemma ef_eta [simp]: "\<lparr>ef_key = ef_key f, ef_fileId = ef_fileId f\<rparr> = f"
  by (cases f) simp

lemma create_ok:
  "length k = 32 \<Longrightarrow> k \<noteq> replicate 32 (CHR 0x00) \<Longrightarrow>
   \<exists>m. createFromPlaintext C k iv p None = Inr \<lparr>ed_key = k, encryptedMaterial = m\<rparr>"
  by (cases "aes_encrypt C k iv p") (simp add: createFromPlaintext_def)

definition encryptAndUploadData ::
  "crypto \<Rightarrow> (string \<Rightarrow> ('s, string) act) \<Rightarrow> string \<Rightarrow> string \<Rightarrow> string \<Rightarrow> ('s, encrypted_file) act" where
  "encryptAndUploadData C put rndKey iv data =
     await (liftR (createFromPlaintext C rndKey iv data None)) (\<lambda>e.
     await (put (encryptedMaterial e)) (\<lambda>fileId.
     retA \<lparr>ef_key = ed_key e, ef_fileId = fileId\<rparr>))"

definition downloadAndDecryptFile ::
  "crypto \<Rightarrow> (string \<Rightarrow> ('s, string) act) \<Rightarrow> encrypted_file \<Rightarrow> ('s, string) act" where
  "downloadAndDecryptFile C fetch f =
     await (fetch (ef_fileId f)) (\<lambda>m. liftR (decrypt C \<lparr>ed_key = ef_key f, encryptedMaterial = m\<rparr>))"

section \<open>Asymmetric encryption\<close>

definition enc_mark :: string where
  "enc_mark = [CHR 0x05] @ ''$'' @ [CHR 0x06] @ ''z'' @ [CHR 0xC3, CHR 0xB5] @ ''*''"

definition PROLOGUE_PLAIN :: string where "PROLOGUE_PLAIN = ''PN^ENC'' @ enc_mark @ ''PLAIN''"
definition PROLOGUE_ASYMM :: string where "PROLOGUE_ASYMM = ''PN^ENC'' @ enc_mark @ ''ASYMM''"
definition PROLOGUE_CONTAINER :: string where "PROLOGUE_CONTAINER = ''PN^ENC'' @ enc_mark @ ''CONT''"
definition PROLOGUE_RAWASYMM :: string where "PROLOGUE_RAWASYMM = ''PN^ENC'' @ enc_mark @ ''RAWASYMM''"

definition FFFF :: string where "FFFF = [CHR 0xFF, CHR 0xFF]"

definition encryptRawPlaintextAsymmetric :: "crypto \<Rightarrow> string \<Rightarrow> string \<Rightarrow> string" where
  "encryptRawPlaintextAsymmetric C plaintext publicKey =
     (case ecc_encrypt C (CHR 0x04 # publicKey) (PROLOGUE_PLAIN @ plaintext) of
        (iv, ephemPublicKey, ciphertext, mac) \<Rightarrow>
          PROLOGUE_RAWASYMM @ FFFF @ iv @ FFFF @ ephemPublicKey @ FFFF @ mac @ FFFF @ ciphertext)"

text \<open>Reads \<open>n\<close> bytes after a boundary \<open>ffff\<close>: the bytes and what follows them.\<close>

definition read_field :: "nat \<Rightarrow> string \<Rightarrow> (string \<times> string) result" where
  "read_field n s =
     (if take 2 s \<noteq> FFFF then Inl (DisplayableError ''Decryption failed: boundary not aligned'')
      else Inr (take n (drop 2 s), drop (2 + n) s))"

definition decryptRawPlaintextAsymmetric :: "crypto \<Rightarrow> string \<Rightarrow> string \<Rightarrow> string result" where
  "decryptRawPlaintextAsymmetric C encrypted privateKey =
     (let n = length PROLOGUE_RAWASYMM in
      if take n encrypted \<noteq> PROLOGUE_RAWASYMM
      then Inl (DisplayableError (''Decryption failed: invalid '' @ [CHR 0x22] @ ''rawasymm'' @ [CHR 0x22] @ '' prologue''))
      else case read_field 16 (drop n encrypted) of Inl e \<Rightarrow> Inl e
      | Inr (iv, r1) \<Rightarrow> (case read_field 65 r1 of Inl e \<Rightarrow> Inl e
      | Inr (eph, r2) \<Rightarrow> (case read_field 32 r2 of Inl e \<Rightarrow> Inl e
      | Inr (mac, r3) \<Rightarrow> (case read_field 0 r3 of Inl e \<Rightarrow> Inl e
      | Inr (_, ciphertext) \<Rightarrow>
          (case ecc_decrypt C privateKey (iv, eph, ciphertext, mac) of
             None \<Rightarrow> Inl (PlainError ''Bad MAC'')
           | Some d \<Rightarrow>
               if take (length PROLOGUE_PLAIN) d \<noteq> PROLOGUE_PLAIN
               then Inl (DisplayableError ''Decryption failed: decrypted data does not match prologue'')
               else Inr (drop (length PROLOGUE_PLAIN) d))))))"

lemma read_field_FFFF [simp]: "length x = n \<Longrightarrow> read_field n (FFFF @ x @ r) = Inr (x, r)"
  by (simp add: read_field_def FFFF_def)

lemma read_field_end [simp]: "read_field 0 (FFFF @ r) = Inr ([], r)"
  by (simp add: read_field_def FFFF_def)

lemma public_key_cons: "ecc_ok C priv \<Longrightarrow> CHR 0x04 # tl (ecc_public C priv) = ecc_public C priv"
  by (cases "ecc_public C priv") (auto simp: ecc_ok_def)

lemma decrypt_encrypt_raw:
  assumes "ecc_ok C priv"
  shows "decryptRawPlaintextAsymmetric C (encryptRawPlaintextAsymmetric C p (tl (ecc_public C priv))) priv = Inr p"
proof -
  obtain iv eph ct mac where e: "ecc_encrypt C (ecc_public C priv) (PROLOGUE_PLAIN @ p) = (iv, eph, ct, mac)"
    by (cases "ecc_encrypt C (ecc_public C priv) (PROLOGUE_PLAIN @ p)") auto
  then have "length iv = 16" "length eph = 65" "length mac = 32"
    "ecc_decrypt C priv (iv, eph, ct, mac) = Some (PROLOGUE_PLAIN @ p)"
    using assms by (auto simp: ecc_ok_def split: prod.splits)
  then show ?thesis
    by (simp add: decryptRawPlaintextAsymmetric_def encryptRawPlaintextAsymmetric_def public_key_cons [OF assms] e Let_def)
qed

definition encryptAndUploadDataAsymmetric ::
  "crypto \<Rightarrow> (string \<Rightarrow> string) \<Rightarrow> (string \<Rightarrow> ('s, string) act) \<Rightarrow> string \<Rightarrow> string \<Rightarrow>
   string \<Rightarrow> string \<Rightarrow> string \<Rightarrow> ('s, string) act" where
  "encryptAndUploadDataAsymmetric C H put rndKey iv host data publicKey =
     await (encryptAndUploadData C put rndKey iv data) (\<lambda>f.
       let keyInfo = PROLOGUE_ASYMM @ ef_key f @ hex_decode (ef_fileId f) @ H host in
       await (guardA (length keyInfo = length PROLOGUE_ASYMM + 32 + 32 + 32)
                (DisplayableError ''Data to encrypt asymmetrically has incorrect length'')) (\<lambda>_.
       put (PROLOGUE_CONTAINER @ H publicKey @ encryptRawPlaintextAsymmetric C keyInfo publicKey)))"

text \<open>What \<open>downloadAndDecryptDataAsymmetric\<close> checks before it fetches the file: the key and the id
  of the file, or the error.\<close>

definition open_container ::
  "crypto \<Rightarrow> (string \<Rightarrow> string) \<Rightarrow> string \<Rightarrow> string \<Rightarrow> string \<Rightarrow> encrypted_file result" where
  "open_container C H host downloaded privateKey =
     (let n = length PROLOGUE_CONTAINER; a = length PROLOGUE_ASYMM; pub = ecc_public C privateKey in
      if take n downloaded \<noteq> PROLOGUE_CONTAINER
      then Inl (DisplayableError ''Downloaded data does not have encryption container prologue'')
      else if pub = [] \<or> hd pub \<noteq> CHR 0x04
      then Inl (DisplayableError ''Public key isn't prefixed with 0x04'')
      else if take 32 (drop n downloaded) \<noteq> H (tl pub)
      then Inl (DisplayableError ''Downloaded data does not match expected public key'')
      else (case decryptRawPlaintextAsymmetric C (drop (n + 32) downloaded) privateKey of
              Inl e \<Rightarrow> Inl e
            | Inr info \<Rightarrow>
                if take a info \<noteq> PROLOGUE_ASYMM
                then Inl (DisplayableError ''Downloaded data does not have asymm encryption prologue'')
                else if length info \<noteq> a + 32 + 32 + 32
                then Inl (DisplayableError ''Downloaded data has unexpected extra bytes'')
                else if H host \<noteq> drop (a + 32 + 32) info
                then Inl (DisplayableError ''Downloaded data does not match expected host'')
                else Inr \<lparr>ef_key = take 32 (drop a info),
                          ef_fileId = hex_encode (take 32 (drop (a + 32) info))\<rparr>))"

definition downloadAndDecryptDataAsymmetric ::
  "crypto \<Rightarrow> (string \<Rightarrow> string) \<Rightarrow> (string \<Rightarrow> ('s, string) act) \<Rightarrow> string \<Rightarrow> string \<Rightarrow> string \<Rightarrow>
   ('s, string) act" where
  "downloadAndDecryptDataAsymmetric C H fetch host fileId privateKey =
     await (fetch fileId) (\<lambda>downloaded.
     await (liftR (open_container C H host downloaded privateKey)) (\<lambda>f.
     downloadAndDecryptFile C fetch f))"

lemma open_container_roundtrip:
  assumes "ecc_ok C priv" "\<forall>x. length (H x) = 32" "length k = 32" "length i = 32"
  shows "open_container C H host' (PROLOGUE_CONTAINER @ H (tl (ecc_public C priv)) @
      encryptRawPlaintextAsymmetric C (PROLOGUE_ASYMM @ k @ i @ H host) (tl (ecc_public C priv))) priv =
    (if H host' = H host then Inr \<lparr>ef_key = k, ef_fileId = hex_encode i\<rparr>
     else Inl (DisplayableError ''Downloaded data does not match expected host''))"
proof -
  have "ecc_public C priv \<noteq> []" "hd (ecc_public C priv) = CHR 0x04" using assms(1) by (auto simp: ecc_ok_def)
  with assms(2-4) show ?thesis
    by (simp add: open_container_def Let_def decrypt_encrypt_raw [OF assms(1)])
qed

section \<open>The store of blobs\<close>

text \<open>A reader of blobs with the operation that stores one and returns its id, 32 bytes in
  hexadecimal.\<close>

locale blob_store = blob_reader +
  fixes put :: "string \<Rightarrow> 'a \<Rightarrow> 'a \<times> string async"
  assumes put_id: "\<exists>s'. put d s = (s', Ret (bid d))"
    and bid_hex: "held d \<Longrightarrow> \<exists>x. length x = 32 \<and> bid d = hex_encode x"
begin

lemma file_roundtrip:
  assumes "aes_ok C" "length iv = 12" "encryptAndUploadData C put k iv d s0 = (s1, Ret f)"
    and "\<And>e. createFromPlaintext C k iv d None = Inr e \<Longrightarrow> held (encryptedMaterial e)" "ok s"
  shows "\<exists>s'. downloadAndDecryptFile C fetch f s = (s', Ret d) \<and> ok s'"
proof -
  obtain e where e: "createFromPlaintext C k iv d None = Inr e"
    using assms(3) by (cases "createFromPlaintext C k iv d None") (auto simp: encryptAndUploadData_def throwA_def)
  obtain s' where p: "put (encryptedMaterial e) s0 = (s', Ret (bid (encryptedMaterial e)))" using put_id by blast
  then have f: "f = \<lparr>ef_key = ed_key e, ef_fileId = bid (encryptedMaterial e)\<rparr>"
    using assms(3) e by (simp add: encryptAndUploadData_def retA_def)
  obtain s2 where "fetch (bid (encryptedMaterial e)) s = (s2, Ret (encryptedMaterial e))" "ok s2"
    using fetch_held [OF assms(5) assms(4) [OF e]] by blast
  then show ?thesis using decrypt_create [OF assms(1,2) e]
    by (auto simp: downloadAndDecryptFile_def f liftR_def)
qed

text \<open>The container that an upload for a public key stores, as a function of the random values.\<close>

lemma asymmetric_upload:
  assumes "length k = 32" "k \<noteq> replicate 32 (CHR 0x00)" "\<forall>x. length (H x) = 32"
    and "createFromPlaintext C k iv d None = Inr e" "held (encryptedMaterial e)"
  shows "\<exists>s' i. length i = 32 \<and> bid (encryptedMaterial e) = hex_encode i \<and>
    encryptAndUploadDataAsymmetric C H put k iv host d pub s =
      (s', Ret (bid (PROLOGUE_CONTAINER @ H pub @
         encryptRawPlaintextAsymmetric C (PROLOGUE_ASYMM @ k @ i @ H host) pub)))"
proof -
  obtain i where i: "length i = 32" "bid (encryptedMaterial e) = hex_encode i" using bid_hex [OF assms(5)] by blast
  have ek: "ed_key e = k" using create_ok [OF assms(1,2), of C iv d] assms(4) by auto
  obtain s1 where "put (encryptedMaterial e) s = (s1, Ret (hex_encode i))" using put_id i(2) by metis
  then have u: "encryptAndUploadData C put k iv d s = (s1, Ret \<lparr>ef_key = k, ef_fileId = hex_encode i\<rparr>)"
    using assms(4) ek by (simp add: encryptAndUploadData_def retA_def)
  obtain s2 where "put (PROLOGUE_CONTAINER @ H pub @
      encryptRawPlaintextAsymmetric C (PROLOGUE_ASYMM @ k @ i @ H host) pub) s1 =
      (s2, Ret (bid (PROLOGUE_CONTAINER @ H pub @
         encryptRawPlaintextAsymmetric C (PROLOGUE_ASYMM @ k @ i @ H host) pub)))"
    using put_id by blast
  with u i assms(1,3) show ?thesis
    by (intro exI [of _ s2] exI [of _ i]) (simp add: encryptAndUploadDataAsymmetric_def Let_def)
qed

lemma asymmetric_download:
  assumes "ecc_ok C priv" "aes_ok C" "\<forall>x. length (H x) = 32" "length k = 32" "length i = 32" "length iv = 12"
    and "k \<noteq> replicate 32 (CHR 0x00)"
    and "createFromPlaintext C k iv d None = Inr e" "bid (encryptedMaterial e) = hex_encode i"
    and "c = PROLOGUE_CONTAINER @ H (tl (ecc_public C priv)) @
         encryptRawPlaintextAsymmetric C (PROLOGUE_ASYMM @ k @ i @ H host) (tl (ecc_public C priv))"
    and "held c" "held (encryptedMaterial e)" "ok s"
  shows "\<exists>s'. ok s' \<and> downloadAndDecryptDataAsymmetric C H fetch host' (bid c) priv s =
    (s', if H host' = H host then Ret d
         else Throw (DisplayableError ''Downloaded data does not match expected host''))"
proof -
  have ek: "ed_key e = k" using create_ok [OF assms(4,7), of C iv d] assms(8) by auto
  obtain s1 where s1: "fetch (bid c) s = (s1, Ret c)" "ok s1" using fetch_held [OF assms(13,11)] by blast
  obtain s2 where s2: "fetch (hex_encode i) s1 = (s2, Ret (encryptedMaterial e))" "ok s2"
    using fetch_held [OF s1(2) assms(12)] assms(9) by metis
  have dec: "decrypt C \<lparr>ed_key = k, encryptedMaterial = encryptedMaterial e\<rparr> = Inr d"
    using decrypt_create [OF assms(2,6,8)] unfolding ek [symmetric] by simp
  have o: "open_container C H host' c priv = (if H host' = H host then Inr \<lparr>ef_key = k, ef_fileId = hex_encode i\<rparr>
     else Inl (DisplayableError ''Downloaded data does not match expected host''))"
    unfolding assms(10) by (rule open_container_roundtrip [OF assms(1,3,4,5)])
  show ?thesis
  proof (cases "H host' = H host")
    case True
    with s1 s2 dec o show ?thesis
      by (simp add: downloadAndDecryptDataAsymmetric_def downloadAndDecryptFile_def liftR_def)
  next
    case False
    with s1 o show ?thesis
      by (simp add: downloadAndDecryptDataAsymmetric_def throwA_def)
  qed
qed

end

interpretation bs: blob_store "\<lambda>i. getFile cfg H sources i u" "upload_file_id (CHUNK_SIZE cfg) H"
  "readable cfg H sources" "reader_ok cfg H sources" "\<lambda>d. uploadData cfg H d False" for cfg H sources u
proof unfold_locales
  show "\<exists>s'. uploadData cfg H d False s = (s', Ret (upload_file_id (CHUNK_SIZE cfg) H d))" for d s
    using uploadData_False by blast
  show "\<exists>x. length x = 32 \<and> upload_file_id (CHUNK_SIZE cfg) H d = hex_encode x"
    if "readable cfg H sources d" for d
    using that upload_file_id_hash [of "CHUNK_SIZE cfg" H d] by (auto simp: readable_def hash_id_def)
qed

text \<open>Data encrypted for a public key and uploaded under a host name is returned, after any
  uploads, to the holder of the private key who asks for the same host, and refused with the host
  error to the same holder asking for a host with another hash; here over the node's own storage.\<close>

theorem asymmetric_roundtrip:
  assumes "ecc_ok C priv" "aes_ok C" "\<forall>x. length (H x) = 32" "length k = 32" "length iv = 12"
    and "k \<noteq> replicate 32 (CHR 0x00)" "createFromPlaintext C k iv d None = Inr e"
    and "readable cfg H sources (encryptedMaterial e)" "readable cfg H sources c"
    and "c = PROLOGUE_CONTAINER @ H (tl (ecc_public C priv)) @ encryptRawPlaintextAsymmetric C
         (PROLOGUE_ASYMM @ k @ hex_decode (upload_file_id (CHUNK_SIZE cfg) H (encryptedMaterial e)) @ H host)
         (tl (ecc_public C priv))"
    and "reader_ok cfg H sources st"
  shows "\<exists>fileId. snd (encryptAndUploadDataAsymmetric C H (\<lambda>x. uploadData cfg H x False) k iv host d
           (tl (ecc_public C priv)) st0) = Ret fileId \<and>
    snd (downloadAndDecryptDataAsymmetric C H (\<lambda>i. getFile cfg H sources i True) host' fileId priv st) =
      (if H host' = H host then Ret d
       else Throw (DisplayableError ''Downloaded data does not match expected host''))"
proof -
  obtain s1 i where i: "length i = 32" "upload_file_id (CHUNK_SIZE cfg) H (encryptedMaterial e) = hex_encode i"
    and u: "encryptAndUploadDataAsymmetric C H (\<lambda>x. uploadData cfg H x False) k iv host d (tl (ecc_public C priv)) st0 =
      (s1, Ret (upload_file_id (CHUNK_SIZE cfg) H (PROLOGUE_CONTAINER @ H (tl (ecc_public C priv)) @
         encryptRawPlaintextAsymmetric C (PROLOGUE_ASYMM @ k @ i @ H host) (tl (ecc_public C priv)))))"
    using bs.asymmetric_upload [OF assms(4,6,3,7,8)] by blast
  have c: "c = PROLOGUE_CONTAINER @ H (tl (ecc_public C priv)) @
      encryptRawPlaintextAsymmetric C (PROLOGUE_ASYMM @ k @ i @ H host) (tl (ecc_public C priv))"
    unfolding assms(10) i(2) by simp
  obtain s2 where "downloadAndDecryptDataAsymmetric C H (\<lambda>i. getFile cfg H sources i True) host'
      (upload_file_id (CHUNK_SIZE cfg) H c) priv st =
    (s2, if H host' = H host then Ret d
         else Throw (DisplayableError ''Downloaded data does not match expected host''))"
    using bs.asymmetric_download [OF assms(1,2,3,4) i(1) assms(5-7) i(2) c assms(9,8,11), of True host'] by blast
  with u c show ?thesis by simp
qed

definition toy_crypto :: crypto where
  "toy_crypto = \<lparr>aes_encrypt = (\<lambda>k iv p. (p, replicate 16 (CHR ''t''))), aes_decrypt = (\<lambda>k iv tag ct. Some ct),
     ecc_public = (\<lambda>priv. CHR 0x04 # replicate 64 (CHR ''p'')),
     ecc_encrypt = (\<lambda>pub m. (replicate 16 (CHR ''i''), replicate 65 (CHR ''e''), m, replicate 32 (CHR ''m''))),
     ecc_decrypt = (\<lambda>priv (iv, eph, ct, mac). Some ct),
     ecc_sign = (\<lambda>priv h. CHR 0x30 # ''s''), ecc_verify = (\<lambda>pub h s. s = CHR 0x30 # ''s'')\<rparr>"

lemma toy_crypto_ok: "aes_ok toy_crypto" "ecc_ok toy_crypto priv" "sig_ok toy_crypto priv"
  by (simp_all add: aes_ok_def ecc_ok_def sig_ok_def toy_crypto_def)

definition toy_material :: string where
  "toy_material = replicate 12 (CHR ''v'') @ replicate 16 (CHR ''t'') @ ''data''"

definition toy_container :: string where
  "toy_container = PROLOGUE_CONTAINER @ replicate 32 (CHR ''c'') @ encryptRawPlaintextAsymmetric toy_crypto
     (PROLOGUE_ASYMM @ replicate 32 (CHR ''k'') @ replicate 32 (CHR ''a'') @ replicate 32 (CHR ''c''))
     (replicate 64 (CHR ''p''))"

definition toy_hash :: "string \<Rightarrow> string" where
  "toy_hash x = replicate 32 (if x = toy_material then CHR ''a'' else if x = toy_container then CHR ''b'' else CHR ''c'')"

definition toy_sources :: "(string \<Rightarrow> string option) list" where
  "toy_sources = [\<lambda>_. Some toy_material, \<lambda>_. Some toy_container]"

lemma toy_neq: "toy_material \<noteq> toy_container" "replicate 64 (CHR ''p'') \<noteq> toy_material"
  "replicate 64 (CHR ''p'') \<noteq> toy_container" "''h'' \<noteq> toy_material" "''h'' \<noteq> toy_container"
  by code_simp+

lemma toy_blob:
  assumes "d \<in> {toy_material, toy_container}"
  shows "readable wit_config toy_hash toy_sources d \<and> upload_file_id 1000 toy_hash d = hex_encode (toy_hash d)"
proof -
  have c: "chunkify 1000 d = [d]" "\<not> starts_with CHUNKINFO_PROLOGUE d"
    using assms by (auto, code_simp+)
  have z: "\<not> isZeroStorageId (hex_encode (replicate 32 (CHR ''a'')))"
    "\<not> isZeroStorageId (hex_encode (replicate 32 (CHR ''b'')))" by code_simp+
  have "\<forall>d'. toy_hash d' = toy_hash d \<longrightarrow> d' = d" using assms toy_neq by (auto simp: toy_hash_def split: if_splits)
  moreover have "\<exists>src \<in> set toy_sources. src (hash_id toy_hash d) = Some d" using assms by (auto simp: toy_sources_def)
  ultimately have "served toy_hash toy_sources d" by (simp add: served_def)
  moreover have "\<not> isZeroStorageId (hex_encode (toy_hash d))" using assms z by (auto simp: toy_hash_def)
  ultimately show ?thesis using c
    by (simp add: readable_def storable_def upload_chunks_def upload_file_id_def hash_id_def wit_config_def)
      (simp add: toy_hash_def)
qed

lemma toy_reader_ok: "reader_ok wit_config H sources empty_store"
  by (simp add: reader_ok_def node_ok_def disk_sound_def settled_def file_cached_ok_def empty_store_def)

lemma asymmetric_roundtrip_witness:
  "\<exists>fileId. snd (encryptAndUploadDataAsymmetric toy_crypto toy_hash (\<lambda>x. uploadData wit_config toy_hash x False)
       (replicate 32 (CHR ''k'')) (replicate 12 (CHR ''v'')) ''h'' ''data'' (tl (ecc_public toy_crypto [])) empty_store) = Ret fileId \<and>
    snd (downloadAndDecryptDataAsymmetric toy_crypto toy_hash (\<lambda>i. getFile wit_config toy_hash toy_sources i True)
       ''h'' fileId [] empty_store) =
      (if toy_hash ''h'' = toy_hash ''h'' then Ret ''data''
       else Throw (DisplayableError ''Downloaded data does not match expected host''))"
proof (rule asymmetric_roundtrip)
  show "createFromPlaintext toy_crypto (replicate 32 (CHR ''k'')) (replicate 12 (CHR ''v'')) ''data'' None =
      Inr \<lparr>ed_key = replicate 32 (CHR ''k''), encryptedMaterial = toy_material\<rparr>"
    by code_simp
  have "toy_hash toy_material = replicate 32 (CHR ''a'')" "toy_hash ''h'' = replicate 32 (CHR ''c'')"
    "toy_hash (replicate 64 (CHR ''p'')) = replicate 32 (CHR ''c'')"
    using toy_neq unfolding toy_hash_def by simp_all
  moreover have "tl (ecc_public toy_crypto []) = replicate 64 (CHR ''p'')" by (simp add: toy_crypto_def)
  moreover have "CHUNK_SIZE wit_config = 1000" by (simp add: wit_config_def)
  ultimately show "toy_container = PROLOGUE_CONTAINER @ toy_hash (tl (ecc_public toy_crypto [])) @
      encryptRawPlaintextAsymmetric toy_crypto (PROLOGUE_ASYMM @ replicate 32 (CHR ''k'') @
        hex_decode (upload_file_id (CHUNK_SIZE wit_config) toy_hash
          (encryptedMaterial \<lparr>ed_key = replicate 32 (CHR ''k''), encryptedMaterial = toy_material\<rparr>)) @ toy_hash ''h'')
      (tl (ecc_public toy_crypto []))"
    using toy_blob [of toy_material] by (simp only: encrypted_data.select_convs hex_decode_encode toy_container_def insertI1)
  show "replicate 32 (CHR ''k'') \<noteq> replicate 32 (CHR 0x00)" by code_simp
  show "readable wit_config toy_hash toy_sources
      (encryptedMaterial \<lparr>ed_key = replicate 32 (CHR ''k''), encryptedMaterial = toy_material\<rparr>)"
    using toy_blob [of toy_material] by simp
  show "readable wit_config toy_hash toy_sources toy_container" using toy_blob [of toy_container] by simp
qed (simp_all add: toy_crypto_ok toy_reader_ok toy_hash_def)

end
