(* ===== verification/Signatures.thy ===== *)
theory Signatures
  imports Envelope
begin

text \<open>
  Signed blobs of \<open>src/client/encryption.ts\<close>: the fixed-size signature, the
  envelope that names the sender and the host, its verification, and the
  combination with encryption for an identity.  The registry of communication
  keys (\<open>ethereum.commPublicKeyByIdentity\<close>) is the parameter \<open>commKey\<close>, the
  node's own identity and private key are arguments.
\<close>

section \<open>Signing\<close>

definition signRawData :: "crypto \<Rightarrow> (string \<Rightarrow> string) \<Rightarrow> string \<Rightarrow> string \<Rightarrow> string result" where
  "signRawData C H data privateKey =
     (let signature = ecc_sign C privateKey (H data) in
      if length signature > 75 then Inl (PlainError ''ERR_OUT_OF_RANGE'')
      else Inr (replicate (75 - length signature) (CHR 0xFF) @ signature))"

definition verifyRawData ::
  "crypto \<Rightarrow> (string \<Rightarrow> string) \<Rightarrow> string \<Rightarrow> string \<Rightarrow> string \<Rightarrow> bool result" where
  "verifyRawData C H data signature publicKey =
     (let signatureDER = dropWhile (\<lambda>c. c = CHR 0xFF) signature in
      if signatureDER = [] \<or> hd signatureDER \<noteq> CHR 0x30
      then Inl (DisplayableError ''Invalid signature'')
      else if \<not> ecc_verify C (CHR 0x04 # publicKey) (H data) signatureDER
      then Inl (PlainError ''Bad signature'')
      else Inr True)"

definition SIGNATURE_PROLOGUE_INNER :: string where "SIGNATURE_PROLOGUE_INNER = ''PN^SIGN'' @ enc_mark @ ''INNER''"
definition SIGNATURE_PROLOGUE_OUTER :: string where "SIGNATURE_PROLOGUE_OUTER = ''PN^SIGN'' @ enc_mark @ ''OUTER''"

text \<open>The part of the envelope that is signed.\<close>

definition signed_part :: "(string \<Rightarrow> string) \<Rightarrow> string \<Rightarrow> string \<Rightarrow> string \<Rightarrow> string" where
  "signed_part H identity host data =
     SIGNATURE_PROLOGUE_INNER @ identity @ [CHR 0x00] @ H host @ data"

definition wrapWithSignature ::
  "crypto \<Rightarrow> (string \<Rightarrow> string) \<Rightarrow> string option \<Rightarrow> string \<Rightarrow> string \<Rightarrow> string \<Rightarrow> string result" where
  "wrapWithSignature C H myIdentity host data privateKey =
     (if \<not> (\<exists>i \<in> set_option myIdentity. i \<noteq> [])
      then Inl (DisplayableError ''No identity found, cannot sign'')
      else (let combined = signed_part H (case myIdentity of None \<Rightarrow> [] | Some i \<Rightarrow> i) host data in
            case signRawData C H combined privateKey of
              Inl e \<Rightarrow> Inl e
            | Inr signature \<Rightarrow> Inr (SIGNATURE_PROLOGUE_OUTER @ signature @ combined)))"

section \<open>Verifying\<close>

text \<open>\<open>data.indexOf(0x00, from)\<close>\<close>

definition index_of_from :: "char \<Rightarrow> nat \<Rightarrow> string \<Rightarrow> int" where
  "index_of_from c from s =
     (let r = takeWhile (\<lambda>x. x \<noteq> c) (drop from s) in
      if from + length r < length s then int (from + length r) else -1)"

definition parse_public_key :: "string \<Rightarrow> string result" where
  "parse_public_key hex =
     (let k = hex_decode (replace_first ''0x'' [] hex) in
      if k = replicate (512 div 8) (CHR 0x00) \<or> length k = 0 then Inl (DisplayableError ''Empty public key'')
      else if length k \<noteq> 512 div 8 then Inl (DisplayableError ''Invalid public key'')
      else Inr k)"

record verified_data =
  vd_identity :: string
  vd_host :: string
  vd_data :: string

definition verify_envelope ::
  "crypto \<Rightarrow> (string \<Rightarrow> string) \<Rightarrow> (string \<Rightarrow> string) \<Rightarrow> string \<Rightarrow> string \<Rightarrow> verified_data result" where
  "verify_envelope C H commKey host downloaded =
     (let o' = length SIGNATURE_PROLOGUE_OUTER; i' = length SIGNATURE_PROLOGUE_INNER in
      if take o' downloaded \<noteq> SIGNATURE_PROLOGUE_OUTER
      then Inl (DisplayableError ''Downloaded data does not have outer signature prologue'')
      else let signature = take 75 (drop o' downloaded); data = drop (o' + 75) downloaded in
      if take i' data \<noteq> SIGNATURE_PROLOGUE_INNER
      then Inl (DisplayableError ''Downloaded data does not have inner signature prologue'')
      else let idEnd = index_of_from (CHR 0x00) i' data;
               senderIdentity = js_slice (int i') idEnd data;
               expectedHostHashed = js_slice (idEnd + 1) (idEnd + 1 + 256 div 8) data in
      if H host \<noteq> expectedHostHashed
      then Inl (DisplayableError ''Downloaded data does not match expected host'')
      else let content = js_slice (idEnd + 1 + 256 div 8) (int (length data)) data in
      case parse_public_key (commKey senderIdentity) of
        Inl e \<Rightarrow> Inl e
      | Inr key \<Rightarrow>
          (case verifyRawData C H data signature key of
             Inl e \<Rightarrow> Inl e
           | Inr v \<Rightarrow> if \<not> v then Inl (DisplayableError ''Signature verification failed'')
                      else Inr \<lparr>vd_identity = senderIdentity, vd_host = host, vd_data = content\<rparr>))"

definition downloadAndVerifySignature ::
  "crypto \<Rightarrow> (string \<Rightarrow> string) \<Rightarrow> (string \<Rightarrow> string) \<Rightarrow> (string \<Rightarrow> ('s, string) act) \<Rightarrow> string \<Rightarrow>
   string + string \<Rightarrow> ('s, verified_data) act" where
  "downloadAndVerifySignature C H commKey fetch host fileIdOrBuffer =
     await (case fileIdOrBuffer of Inl fileId \<Rightarrow> fetch fileId | Inr buf \<Rightarrow> retA buf)
       (\<lambda>downloaded. liftR (verify_envelope C H commKey host downloaded))"

lemma index_of_from_found:
  "CHR 0x00 \<notin> set i \<Longrightarrow> index_of_from (CHR 0x00) (length p) (p @ i @ CHR 0x00 # r) = int (length p + length i)"
proof -
  assume "CHR 0x00 \<notin> set i"
  then have "takeWhile (\<lambda>x. x \<noteq> CHR 0x00) (i @ CHR 0x00 # r) = i"
    by (subst takeWhile_append2) auto
  then show ?thesis by (simp add: index_of_from_def)
qed

lemma sign_verify:
  assumes "sig_ok C priv" "ecc_ok C priv" "signRawData C H data priv = Inr s"
  shows "length s = 75 \<and> verifyRawData C H data s (tl (ecc_public C priv)) = Inr True"
proof -
  obtain r where r: "ecc_sign C priv (H data) = CHR 0x30 # r" "length r \<le> 71"
    "ecc_verify C (ecc_public C priv) (H data) (CHR 0x30 # r)"
    using assms(1) unfolding sig_ok_def by blast
  then have s: "s = replicate (74 - length r) (CHR 0xFF) @ CHR 0x30 # r"
    using assms(3) by (simp add: signRawData_def)
  have "dropWhile (\<lambda>c. c = CHR 0xFF) s = CHR 0x30 # r"
    unfolding s by (subst dropWhile_append2) auto
  with r s show ?thesis
    using public_key_cons [OF assms(2)] by (simp add: verifyRawData_def)
qed

lemma sign_total: "sig_ok C priv \<Longrightarrow> \<exists>s. signRawData C H data priv = Inr s"
proof -
  assume "sig_ok C priv"
  then obtain r where "ecc_sign C priv (H data) = CHR 0x30 # r" "length r \<le> 71" unfolding sig_ok_def by blast
  then show ?thesis by (simp add: signRawData_def)
qed

lemma wrap_eq:
  "wrapWithSignature C H (Some me) host d priv = Inr w \<Longrightarrow>
   \<exists>s. signRawData C H (signed_part H me host d) priv = Inr s \<and>
     w = SIGNATURE_PROLOGUE_OUTER @ s @ signed_part H me host d \<and> me \<noteq> []"
  by (auto simp: wrapWithSignature_def Let_def split: if_splits sum.splits)

lemma verify_wrapped:
  assumes "sig_ok C priv" "ecc_ok C priv" "\<forall>x. length (H x) = 32" "CHR 0x00 \<notin> set me"
    and "parse_public_key (commKey me) = Inr (tl (ecc_public C priv))"
    and "wrapWithSignature C H (Some me) host d priv = Inr w"
  shows "verify_envelope C H commKey host' w =
    (if H host' = H host then Inr \<lparr>vd_identity = me, vd_host = host', vd_data = d\<rparr>
     else Inl (DisplayableError ''Downloaded data does not match expected host''))"
proof -
  let ?i = "length SIGNATURE_PROLOGUE_INNER" and ?data = "signed_part H me host d"
  obtain s where s: "signRawData C H ?data priv = Inr s" and w: "w = SIGNATURE_PROLOGUE_OUTER @ s @ ?data"
    using wrap_eq [OF assms(6)] by blast
  have v: "length s = 75" "verifyRawData C H ?data s (tl (ecc_public C priv)) = Inr True"
    using sign_verify [OF assms(1,2) s] by auto
  have idx: "index_of_from (CHR 0x00) ?i ?data = int (?i + length me)"
    unfolding signed_part_def using index_of_from_found [OF assms(4), of SIGNATURE_PROLOGUE_INNER "H host @ d"] by simp
  have id': "js_slice (int ?i) (int (?i + length me)) ?data = me"
    unfolding js_slice_nat by (simp add: signed_part_def)
  have "js_slice (int (?i + length me + 1)) (int (?i + length me + 1 + 32)) ?data = H host"
    unfolding js_slice_nat using assms(3) by (simp add: signed_part_def)
  then have hh: "js_slice (int (?i + length me) + 1) (int (?i + length me) + 1 + 256 div 8) ?data = H host"
    by (simp add: algebra_simps)
  have "js_slice (int (?i + length me + 1 + 32)) (int (length ?data)) ?data = d"
    unfolding js_slice_nat using assms(3) by (simp add: signed_part_def)
  then have dd: "js_slice (int (?i + length me) + 1 + 256 div 8) (int (length ?data)) ?data = d"
    by (simp add: algebra_simps)
  have t: "take (length SIGNATURE_PROLOGUE_OUTER) w = SIGNATURE_PROLOGUE_OUTER"
    "take 75 (drop (length SIGNATURE_PROLOGUE_OUTER) w) = s" "drop (length SIGNATURE_PROLOGUE_OUTER + 75) w = ?data"
    "take ?i ?data = SIGNATURE_PROLOGUE_INNER"
    using v(1) by (simp_all add: w) (simp add: signed_part_def)
  show ?thesis
    unfolding verify_envelope_def Let_def t idx id' hh dd
    by (simp add: assms(5) v(2))
qed

text \<open>An envelope that the node signs is accepted for the same host as coming from the node's
  identity with the same data, when that identity's registered key is the signer's, and refused
  with the host error for a host with another hash.\<close>

theorem signed_envelope_roundtrip:
  assumes "sig_ok C priv" "ecc_ok C priv" "\<forall>x. length (H x) = 32" "CHR 0x00 \<notin> set me" "me \<noteq> []"
    and "parse_public_key (commKey me) = Inr (tl (ecc_public C priv))"
  shows "\<exists>w. wrapWithSignature C H (Some me) host d priv = Inr w \<and>
    verify_envelope C H commKey host' w =
      (if H host' = H host then Inr \<lparr>vd_identity = me, vd_host = host', vd_data = d\<rparr>
       else Inl (DisplayableError ''Downloaded data does not match expected host''))"
proof -
  obtain s where "signRawData C H (signed_part H me host d) priv = Inr s" using sign_total [OF assms(1)] by blast
  then obtain w where "wrapWithSignature C H (Some me) host d priv = Inr w"
    using assms(5) by (simp add: wrapWithSignature_def Let_def)
  with verify_wrapped [where commKey = commKey and me = me, OF assms(1-4,6)] show ?thesis by blast
qed

lemma toy_key: "parse_public_key (''0x'' @ hex_encode (replicate 64 (CHR ''p''))) = Inr (replicate 64 (CHR ''p''))"
  by code_simp

lemma signed_envelope_roundtrip_witness:
  "\<exists>w. wrapWithSignature toy_crypto toy_hash (Some ''alice'') ''h'' ''data'' [] = Inr w \<and>
    verify_envelope toy_crypto toy_hash (\<lambda>_. ''0x'' @ hex_encode (replicate 64 (CHR ''p''))) ''h'' w =
      (if toy_hash ''h'' = toy_hash ''h'' then Inr \<lparr>vd_identity = ''alice'', vd_host = ''h'', vd_data = ''data''\<rparr>
       else Inl (DisplayableError ''Downloaded data does not match expected host''))"
proof (rule signed_envelope_roundtrip)
  show "parse_public_key (''0x'' @ hex_encode (replicate 64 (CHR ''p''))) = Inr (tl (ecc_public toy_crypto []))"
    unfolding toy_key by (simp add: toy_crypto_def)
qed (simp_all add: toy_crypto_ok toy_hash_def)

lemma verifyRawData_accepts:
  "verifyRawData C H data s key = Inr v \<Longrightarrow> v = True \<and>
     (\<exists>der. dropWhile (\<lambda>c. c = CHR 0xFF) s = der \<and> ecc_verify C (CHR 0x04 # key) (H data) der)"
  by (auto simp: verifyRawData_def Let_def split: if_splits)

lemma index_of_from_bounds:
  assumes "c \<in> set (drop n s)"
  shows "\<exists>i r. s = take n s @ i @ c # r \<and> c \<notin> set i \<and> index_of_from c n s = int (n + length i)"
proof -
  let ?t = "takeWhile (\<lambda>x. x \<noteq> c) (drop n s)" and ?u = "dropWhile (\<lambda>x. x \<noteq> c) (drop n s)"
  have n: "n < length s" using assms by (cases "n < length s") auto
  have u: "?u \<noteq> []" using assms by (auto simp: dropWhile_eq_Nil_conv)
  then have "hd ?u = c" using hd_dropWhile [of "\<lambda>x. x \<noteq> c" "drop n s"] by blast
  with u obtain r where "?u = c # r" by (cases ?u) auto
  then have r: "drop n s = ?t @ c # r" using takeWhile_dropWhile_id [of "\<lambda>x. x \<noteq> c" "drop n s"] by simp
  have c: "c \<notin> set ?t" using set_takeWhileD by fastforce
  have "length (drop n s) = length ?t + 1 + length r" by (subst r) simp
  then have "n + length ?t < length s" by simp
  then have "index_of_from c n s = int (n + length ?t)" by (simp add: index_of_from_def)
  moreover have "s = take n s @ ?t @ c # r" using r append_take_drop_id [of n s] by simp
  ultimately show ?thesis using c by blast
qed

text \<open>C31: an accepted envelope is authentic in all its parts: it consists of the prologues, a
  signature, the returned identity, the hash of the returned host and the returned data, and the
  signature verifies, under the key registered for that identity, over identity, host and data.\<close>

theorem accepted_envelope_authentic:
  assumes "verify_envelope C H commKey host w = Inr v" "\<forall>x. length (H x) = 32"
    and "CHR 0x00 \<in> set (drop (length SIGNATURE_PROLOGUE_OUTER + 75 + length SIGNATURE_PROLOGUE_INNER) w)"
  shows "\<exists>s key. w = SIGNATURE_PROLOGUE_OUTER @ s @ signed_part H (vd_identity v) host (vd_data v) \<and>
    vd_host v = host \<and> parse_public_key (commKey (vd_identity v)) = Inr key \<and>
    ecc_verify C (CHR 0x04 # key) (H (signed_part H (vd_identity v) host (vd_data v)))
      (dropWhile (\<lambda>c. c = CHR 0xFF) s)"
proof -
  let ?o = "length SIGNATURE_PROLOGUE_OUTER" and ?i = "length SIGNATURE_PROLOGUE_INNER"
  define data where "data = drop (?o + 75) w"
  define s where "s = take 75 (drop ?o w)"
  have acc: "take ?o w = SIGNATURE_PROLOGUE_OUTER" "take ?i data = SIGNATURE_PROLOGUE_INNER"
    "H host = js_slice (index_of_from (CHR 0x00) ?i data + 1) (index_of_from (CHR 0x00) ?i data + 1 + 256 div 8) data"
    "vd_host v = host" "vd_identity v = js_slice (int ?i) (index_of_from (CHR 0x00) ?i data) data"
    "vd_data v = js_slice (index_of_from (CHR 0x00) ?i data + 1 + 256 div 8) (int (length data)) data"
    and "\<exists>key. parse_public_key (commKey (vd_identity v)) = Inr key \<and> (\<exists>b. verifyRawData C H data s key = Inr b)"
    using assms(1) unfolding verify_envelope_def Let_def data_def [symmetric] s_def [symmetric]
    by (auto split: if_splits sum.splits)
  then obtain key where key: "parse_public_key (commKey (vd_identity v)) = Inr key"
    "ecc_verify C (CHR 0x04 # key) (H data) (dropWhile (\<lambda>c. c = CHR 0xFF) s)"
    using verifyRawData_accepts by metis
  have "CHR 0x00 \<in> set (drop ?i data)" using assms(3) by (simp add: data_def add.commute)
  then obtain me r where ix: "data = take ?i data @ me @ CHR 0x00 # r" "index_of_from (CHR 0x00) ?i data = int (?i + length me)"
    using index_of_from_bounds by blast
  then have d: "data = SIGNATURE_PROLOGUE_INNER @ me @ CHR 0x00 # r" using acc(2) by simp
  have me: "vd_identity v = me" unfolding acc(5) ix(2) js_slice_nat by (subst (1) d) simp
  have "H host = js_slice (int (?i + length me + 1)) (int (?i + length me + 1 + 32)) data"
    using acc(3) ix(2) by (simp add: algebra_simps)
  then have h: "H host = take 32 r" unfolding js_slice_nat by (subst (asm) d) simp
  have "vd_data v = js_slice (int (?i + length me + 1 + 32)) (int (length data)) data"
    using acc(6) ix(2) by (simp add: algebra_simps)
  then have dd: "vd_data v = drop 32 r" unfolding js_slice_nat by (subst (asm) (2) d) (simp add: d)
  have sp: "data = signed_part H (vd_identity v) host (vd_data v)"
    unfolding signed_part_def me h dd by (subst d) simp
  have "w = SIGNATURE_PROLOGUE_OUTER @ s @ data"
    using acc(1) unfolding data_def s_def by (metis append_take_drop_id drop_drop add.commute)
  with key acc(4) sp show ?thesis by auto
qed

lemma accepted_envelope_authentic_witness:
  "\<exists>w v s key. verify_envelope toy_crypto toy_hash (\<lambda>_. ''0x'' @ hex_encode (replicate 64 (CHR ''p''))) ''h'' w = Inr v \<and>
    w = SIGNATURE_PROLOGUE_OUTER @ s @ signed_part toy_hash (vd_identity v) ''h'' (vd_data v) \<and> vd_host v = ''h'' \<and>
    parse_public_key (''0x'' @ hex_encode (replicate 64 (CHR ''p''))) = Inr key \<and>
    ecc_verify toy_crypto (CHR 0x04 # key) (toy_hash (signed_part toy_hash (vd_identity v) ''h'' (vd_data v)))
      (dropWhile (\<lambda>c. c = CHR 0xFF) s)"
proof -
  let ?ck = "\<lambda>_. ''0x'' @ hex_encode (replicate 64 (CHR ''p''))"
  obtain s where s: "signRawData toy_crypto toy_hash (signed_part toy_hash ''alice'' ''h'' ''data'') [] = Inr s"
    using sign_total [OF toy_crypto_ok(3)] by blast
  define w where "w = SIGNATURE_PROLOGUE_OUTER @ s @ signed_part toy_hash ''alice'' ''h'' ''data''"
  have wr: "wrapWithSignature toy_crypto toy_hash (Some ''alice'') ''h'' ''data'' [] = Inr w"
    by (simp add: wrapWithSignature_def Let_def s w_def)
  have pk: "parse_public_key (?ck ''alice'') = Inr (tl (ecc_public toy_crypto []))"
    unfolding toy_key by (simp add: toy_crypto_def)
  have ve: "verify_envelope toy_crypto toy_hash ?ck ''h'' w = Inr \<lparr>vd_identity = ''alice'', vd_host = ''h'', vd_data = ''data''\<rparr>"
    using verify_wrapped [where commKey = ?ck and host' = "''h''", OF toy_crypto_ok(3,2) _ _ pk wr] by (simp add: toy_hash_def)
  have "length s = 75" using sign_verify [OF toy_crypto_ok(3,2) s] by simp
  then have z: "CHR 0x00 \<in> set (drop (length SIGNATURE_PROLOGUE_OUTER + 75 + length SIGNATURE_PROLOGUE_INNER) w)"
    by (simp add: w_def signed_part_def)
  have "\<forall>x. length (toy_hash x) = 32" by (simp add: toy_hash_def)
  from accepted_envelope_authentic [OF ve this z] ve show ?thesis by blast
qed

section \<open>Signed and encrypted for an identity\<close>

definition encryptAndUploadDataForIdentity ::
  "crypto \<Rightarrow> (string \<Rightarrow> string) \<Rightarrow> (string \<Rightarrow> string) \<Rightarrow> (string \<Rightarrow> ('s, string) act) \<Rightarrow> string \<Rightarrow> string \<Rightarrow>
   string \<Rightarrow> string \<Rightarrow> string \<Rightarrow> ('s, string) act" where
  "encryptAndUploadDataForIdentity C H commKey put rndKey iv host data identity =
     await (liftR (parse_public_key (commKey identity))) (\<lambda>publicKey.
     encryptAndUploadDataAsymmetric C H put rndKey iv host data publicKey)"

definition signEncryptUploadForIdentity ::
  "crypto \<Rightarrow> (string \<Rightarrow> string) \<Rightarrow> (string \<Rightarrow> string) \<Rightarrow> string option \<Rightarrow> (string \<Rightarrow> ('s, string) act) \<Rightarrow>
   string \<Rightarrow> string \<Rightarrow> string \<Rightarrow> string \<Rightarrow> string \<Rightarrow> string \<Rightarrow> ('s, string) act" where
  "signEncryptUploadForIdentity C H commKey myIdentity put rndKey iv host data identity privateKey =
     await (liftR (wrapWithSignature C H myIdentity host data privateKey)) (\<lambda>signedPlaintext.
     encryptAndUploadDataForIdentity C H commKey put rndKey iv host signedPlaintext identity)"

definition signEncryptUploadForIdentityFromMe ::
  "crypto \<Rightarrow> (string \<Rightarrow> string) \<Rightarrow> (string \<Rightarrow> string) \<Rightarrow> string option \<Rightarrow> (string \<Rightarrow> ('s, string) act) \<Rightarrow>
   string \<Rightarrow> string \<Rightarrow> string \<Rightarrow> string \<Rightarrow> string \<Rightarrow> string \<Rightarrow> ('s, string) act" where
  "signEncryptUploadForIdentityFromMe C H commKey myIdentity put rndKey iv networkPrivateKey host data identity =
     signEncryptUploadForIdentity C H commKey myIdentity put rndKey iv host data identity
       (hex_decode networkPrivateKey)"

definition downloadVerifyDecryptFromIdentity ::
  "crypto \<Rightarrow> (string \<Rightarrow> string) \<Rightarrow> (string \<Rightarrow> string) \<Rightarrow> (string \<Rightarrow> ('s, string) act) \<Rightarrow> string \<Rightarrow>
   string \<Rightarrow> string \<Rightarrow> ('s, verified_data) act" where
  "downloadVerifyDecryptFromIdentity C H commKey fetch host fileId privateKey =
     await (downloadAndDecryptDataAsymmetric C H fetch host fileId privateKey) (\<lambda>decrypted.
     downloadAndVerifySignature C H commKey fetch host (Inr decrypted))"

definition downloadVerifyDecryptFromIdentityForMe ::
  "crypto \<Rightarrow> (string \<Rightarrow> string) \<Rightarrow> (string \<Rightarrow> string) \<Rightarrow> (string \<Rightarrow> ('s, string) act) \<Rightarrow> string \<Rightarrow>
   string \<Rightarrow> string \<Rightarrow> ('s, verified_data) act" where
  "downloadVerifyDecryptFromIdentityForMe C H commKey fetch networkPrivateKey host fileId =
     downloadVerifyDecryptFromIdentity C H commKey fetch host fileId (hex_decode networkPrivateKey)"

text \<open>Whoever receives a message that decrypts and verifies knows its sender, its host and its
  text; the sender is the one whose key signed it.\<close>

lemma received_message_authentic:
  assumes "snd (downloadVerifyDecryptFromIdentity C H commKey fetch host fileId priv st) = Ret v"
  shows "\<exists>w. verify_envelope C H commKey host w = Inr v"
  using assms unfolding downloadVerifyDecryptFromIdentity_def downloadAndVerifySignature_def
  by (auto dest!: await_Ret simp: liftR_def split: sum.splits)

end
