(* ===== verification/Container.thy ===== *)
theory Container
  imports Envelope "HOL-Library.Sublist"
begin

text \<open>
  The class \<open>EncryptionContainer\<close> of \<open>src/client/encryption.ts\<close>: a tree of
  maps whose strings and buffers are encrypted files.  Storing a text and
  downloading a file are arguments.  Containers are values: a container that
  is stored in two places is two copies.  The section on paths relates the
  operations to \<open>lookup\<close>, the partial map from paths to values that a
  container stands for.
\<close>

section \<open>Values and containers\<close>

datatype cval =
    CUndef
  | CNull
  | CBool bool
  | CNum int
  | CStr string
  | CBuf string
  | CFile encrypted_file
  | CData encrypted_data
  | CCont container
  | CArr "cval list"
  | CObj "(string \<times> cval) list"
and container = Container (citems: "(string \<times> cval) list") (ctypes: "(string \<times> json option) list")

datatype item_type = IT_string | IT_number | IT_object | IT_boolean | IT_Buffer | IT_EncryptedFile | IT_EncryptionContainer

fun item_type_name :: "item_type \<Rightarrow> string" where
  "item_type_name IT_string = ''string''"
| "item_type_name IT_number = ''number''"
| "item_type_name IT_object = ''object''"
| "item_type_name IT_boolean = ''boolean''"
| "item_type_name IT_Buffer = ''Buffer''"
| "item_type_name IT_EncryptedFile = ''EncryptedFile''"
| "item_type_name IT_EncryptionContainer = ''EncryptionContainer''"

definition new_container :: container where
  "new_container = Container [] []"

definition put_item :: "string \<Rightarrow> cval \<Rightarrow> item_type \<Rightarrow> container \<Rightarrow> container" where
  "put_item k v t c = Container (obj_set k v (citems c)) (obj_set k (Some (JStr (item_type_name t))) (ctypes c))"

fun csz :: "cval \<Rightarrow> nat" where
  "csz (CArr xs) = Suc (sum_list (map (\<lambda>x. Suc (csz x)) xs))"
| "csz (CObj m) = Suc (sum_list (map (\<lambda>(k, x). Suc (csz x)) m))"
| "csz (CData _) = 7"
| "csz _ = 1"

lemma csz_index [simp]:
  "sum_list (map (\<lambda>(k, x). Suc (csz x)) (index_entries n xs)) = sum_list (map (\<lambda>x. Suc (csz x)) xs)"
  by (induction xs arbitrary: n) auto

text \<open>\<open>set\<close>; \<open>Object.keys(null)\<close> is a \<open>TypeError\<close>.\<close>

function cset :: "(string \<Rightarrow> ('s, encrypted_file) act) \<Rightarrow> string \<Rightarrow> cval \<Rightarrow> container \<Rightarrow> ('s, container) act"
  and cset_all :: "(string \<Rightarrow> ('s, encrypted_file) act) \<Rightarrow> (string \<times> cval) list \<Rightarrow> container \<Rightarrow> ('s, container) act" where
  "cset put k v c =
     (case v of
        CStr s \<Rightarrow> await (put s) (\<lambda>f. retA (put_item k (CFile f) IT_string c))
      | CBuf s \<Rightarrow> await (put s) (\<lambda>f. retA (put_item k (CFile f) IT_Buffer c))
      | CNum n \<Rightarrow> retA (put_item k v IT_number c)
      | CBool b \<Rightarrow> retA (put_item k v IT_boolean c)
      | CCont d \<Rightarrow> retA (put_item k v IT_EncryptionContainer c)
      | CFile f \<Rightarrow> retA (put_item k v IT_EncryptedFile c)
      | CNull \<Rightarrow> throwA TypeError
      | CUndef \<Rightarrow> throwA (DisplayableError ''Unknown type'')
      | CData e \<Rightarrow>
          await (cset_all put [(''key'', CBuf (ed_key e)), (''encryptedMaterial'', CBuf (encryptedMaterial e))] new_container)
            (\<lambda>d. retA (put_item k (CCont d) IT_EncryptionContainer c))
      | CArr xs \<Rightarrow>
          if xs = [] then retA (put_item k v IT_object c)
          else await (cset_all put (index_entries 0 xs) new_container) (\<lambda>d. retA (put_item k (CCont d) IT_EncryptionContainer c))
      | CObj m \<Rightarrow>
          if m = [] then retA (put_item k v IT_object c)
          else await (cset_all put m new_container) (\<lambda>d. retA (put_item k (CCont d) IT_EncryptionContainer c)))"
| "cset_all put [] c = retA c"
| "cset_all put ((k, v) # es) c = await (cset put k v c) (cset_all put es)"
  by pat_completeness auto
termination
  by (relation "measure (\<lambda>x. case x of
        Inl (_, _, v, _) \<Rightarrow> csz v
      | Inr (_, es, _) \<Rightarrow> sum_list (map (\<lambda>(k, x). Suc (csz x)) es))") auto

declare cset.simps [simp del]

section \<open>Operations along a path\<close>

text \<open>The container that the segments lead to.\<close>

fun descend :: "string list \<Rightarrow> container \<Rightarrow> container option" where
  "descend [] c = Some c"
| "descend (k # ks) c = (case obj_get (citems c) k of Some (CCont d) \<Rightarrow> descend ks d | _ \<Rightarrow> None)"

definition cget ::
  "(encrypted_file \<Rightarrow> ('s, string) act) \<Rightarrow> string \<Rightarrow> container \<Rightarrow> ('s, cval) act" where
  "cget fetch path c =
     (let segments = split_ch (CHR ''/'') path in
      case descend (butlast segments) c of
        None \<Rightarrow> retA CUndef
      | Some d \<Rightarrow>
          (case obj_get (citems d) (last segments) of
             None \<Rightarrow> retA CUndef
           | Some (CFile f) \<Rightarrow>
               await (fetch f) (\<lambda>p. retA (CData \<lparr>ed_key = ef_key f, encryptedMaterial = p\<rparr>))
           | Some v \<Rightarrow> retA v))"

fun chas_segs :: "string list \<Rightarrow> cval \<Rightarrow> bool" where
  "chas_segs [] v = (v \<noteq> CUndef)"
| "chas_segs (k # ks) v =
     (case v of
        CCont c \<Rightarrow> chas_segs ks (case obj_get (citems c) k of None \<Rightarrow> CUndef | Some w \<Rightarrow> w)
      | _ \<Rightarrow> False)"

definition chas :: "string \<Rightarrow> container \<Rightarrow> bool" where
  "chas path c = chas_segs (split_ch (CHR ''/'') path) (CCont c)"

text \<open>\<open>setPath\<close> creates the containers on the way; they stay when it fails, so the container is
  returned with the outcome.\<close>

fun csetPath_segs ::
  "(string \<Rightarrow> ('s, encrypted_file) act) \<Rightarrow> string list \<Rightarrow> cval \<Rightarrow> container \<Rightarrow> 's \<Rightarrow> 's \<times> container \<times> unit async" where
  "csetPath_segs put [] v c s = (s, c, Ret ())"
| "csetPath_segs put [k] v c s =
     (case cset put k v c s of
        (s', Ret c') \<Rightarrow> (s', c', Ret ())
      | (s', Throw e) \<Rightarrow> (s', c, Throw e)
      | (s', WaitFor ev i) \<Rightarrow> (s', c, WaitFor ev i))"
| "csetPath_segs put (k # ks) v c s =
     (let c1 = (if obj_get (citems c) k = None then put_item k (CCont new_container) IT_EncryptionContainer c else c) in
      case obj_get (citems c1) k of
        Some (CCont d) \<Rightarrow>
          (case csetPath_segs put ks v d s of
             (s', d', r) \<Rightarrow> (s', Container (obj_set k (CCont d') (citems c1)) (ctypes c1), r))
      | _ \<Rightarrow> (s, c1, Throw (DisplayableError ''Cannot set path'')))"

definition csetPath ::
  "(string \<Rightarrow> ('s, encrypted_file) act) \<Rightarrow> string \<Rightarrow> cval \<Rightarrow> container \<Rightarrow> 's \<Rightarrow> 's \<times> container \<times> unit async" where
  "csetPath put path v c s = csetPath_segs put (split_ch (CHR ''/'') path) v c s"

fun cdelete_segs :: "string list \<Rightarrow> container \<Rightarrow> container \<times> bool" where
  "cdelete_segs [] c = (c, False)"
| "cdelete_segs [k] c =
     (if obj_get (citems c) k = None then (c, False)
      else (Container (obj_del k (citems c)) (obj_del k (ctypes c)), True))"
| "cdelete_segs (k # ks) c =
     (case obj_get (citems c) k of
        Some (CCont d) \<Rightarrow>
          (case cdelete_segs ks d of (d', b) \<Rightarrow> (Container (obj_set k (CCont d') (citems c)) (ctypes c), b))
      | _ \<Rightarrow> (c, False))"

definition cdelete :: "string \<Rightarrow> container \<Rightarrow> container \<times> bool" where
  "cdelete path c = cdelete_segs (split_ch (CHR ''/'') path) c"

fun toObject :: "container \<Rightarrow> cval" and plain :: "cval \<Rightarrow> cval" where
  "toObject (Container its ts) = CObj (map (\<lambda>(k, v). (k, plain v)) its)"
| "plain (CCont c) = toObject c"
| "plain v = v"

definition cgetPath ::
  "(encrypted_file \<Rightarrow> ('s, string) act) \<Rightarrow> string \<Rightarrow> container \<Rightarrow> ('s, cval) act" where
  "cgetPath fetch path c =
     await (cget fetch path c) (\<lambda>value.
       case value of
         CFile f \<Rightarrow> await (fetch f) (\<lambda>p. retA (CBuf p))
       | CCont d \<Rightarrow> retA (toObject d)
       | v \<Rightarrow> retA v)"

section \<open>Serialisation\<close>

definition buffer_json :: "string \<Rightarrow> json" where
  "buffer_json s = JObj [(''type'', JStr ''Buffer''), (''data'', JArr (map (\<lambda>c. JNum (int (of_char c))) s))]"

text \<open>\<open>JSON.stringify\<close> of a value; maps have no enumerable properties.\<close>

fun c2j :: "cval \<Rightarrow> json" where
  "c2j CUndef = JNull"
| "c2j CNull = JNull"
| "c2j (CBool b) = JBool b"
| "c2j (CNum n) = JNum n"
| "c2j (CStr s) = JStr s"
| "c2j (CBuf s) = buffer_json s"
| "c2j (CFile f) = JObj [(''key'', buffer_json (ef_key f)), (''fileId'', JStr (ef_fileId f))]"
| "c2j (CData e) = JObj [(''key'', buffer_json (ed_key e)), (''encryptedMaterial'', buffer_json (encryptedMaterial e))]"
| "c2j (CCont c) = JObj [(''items'', JObj []), (''itemTypes'', JObj [])]"
| "c2j (CArr xs) = JArr (map c2j xs)"
| "c2j (CObj m) = JObj (concat (map (\<lambda>(k, v). if v = CUndef then [] else [(k, c2j v)]) m))"

fun j2c :: "json \<Rightarrow> cval" where
  "j2c JNull = CNull"
| "j2c (JBool b) = CBool b"
| "j2c (JNum n) = CNum n"
| "j2c (JStr s) = CStr s"
| "j2c (JArr xs) = CArr (map j2c xs)"
| "j2c (JObj m) = CObj (map (\<lambda>(k, v). (k, j2c v)) m)"

definition item_json :: "container \<Rightarrow> string \<times> cval \<Rightarrow> string \<times> json" where
  "item_json c p =
     (case p of (k, v) \<Rightarrow> (k, JArr
       (case v of
          CFile f \<Rightarrow> [JStr (hex_encode (ef_key f)), JStr (item_type_name IT_EncryptedFile), JStr (ef_fileId f)]
        | CCont d \<Rightarrow> [JNull, JStr (item_type_name IT_EncryptionContainer), c2j (toObject d)]
        | _ \<Rightarrow> [JNull, (case obj_get (ctypes c) k of Some (Some t) \<Rightarrow> t | _ \<Rightarrow> JNull), c2j v])))"

definition serializeToJSON :: "container \<Rightarrow> string" where
  "serializeToJSON c = jprint (JObj (map (item_json c) (citems c)))"

text \<open>What \<open>for ... in\<close> sees of a parsed value, and what array destructuring sees.\<close>

definition json_entries :: "json \<Rightarrow> (string \<times> json) list" where
  "json_entries j = (case j of JObj m \<Rightarrow> m | JArr xs \<Rightarrow> index_entries 0 xs
     | JStr s \<Rightarrow> index_entries 0 (map (\<lambda>c. JStr [c]) s) | _ \<Rightarrow> [])"

definition json_elements :: "json \<Rightarrow> json list option" where
  "json_elements j = (case j of JArr xs \<Rightarrow> Some xs | JStr s \<Rightarrow> Some (map (\<lambda>c. JStr [c]) s) | _ \<Rightarrow> None)"

definition nth_json :: "nat \<Rightarrow> json list \<Rightarrow> json option" where
  "nth_json i xs = (if i < length xs then Some (xs ! i) else None)"

text \<open>\<open>deserializeFromJSON\<close> of a parsed value; the recursion prints and parses the nested value,
  which gives the value back.  Fuel bounds the nesting.  An entry of a file without a string id is
  refused here, the code keeps it.\<close>

fun deser :: "nat \<Rightarrow> json \<Rightarrow> container result"
  and deser_items :: "nat \<Rightarrow> (string \<times> json) list \<Rightarrow> container \<Rightarrow> container result" where
  "deser 0 j = Inl (PlainError ''out of fuel'')"
| "deser (Suc n) j = deser_items n (json_entries j) new_container"
| "deser_items n [] c = Inr c"
| "deser_items n ((k, j) # m) c =
     (case json_elements j of
        None \<Rightarrow> Inl TypeError
      | Some xs \<Rightarrow>
          (case (if nth_json 1 xs = Some (JStr (item_type_name IT_EncryptedFile))
                 then (case (nth_json 0 xs, nth_json 2 xs) of
                         (Some (JStr key), Some (JStr fileId)) \<Rightarrow> Inr (CFile \<lparr>ef_key = hex_decode key, ef_fileId = fileId\<rparr>)
                       | _ \<Rightarrow> Inl TypeError)
                 else if nth_json 1 xs = Some (JStr (item_type_name IT_EncryptionContainer))
                 then (case nth_json 2 xs of
                         None \<Rightarrow> Inl (PlainError ''SyntaxError'')
                       | Some v \<Rightarrow> map_sum id CCont (deser n v))
                 else Inr (case nth_json 2 xs of None \<Rightarrow> CUndef | Some v \<Rightarrow> j2c v)) of
             Inl e \<Rightarrow> Inl e
           | Inr v \<Rightarrow> deser_items n m (Container (obj_set k v (citems c)) (obj_set k (nth_json 1 xs) (ctypes c)))))"

definition deserializeFromJSON :: "nat \<Rightarrow> string \<Rightarrow> container result" where
  "deserializeFromJSON n text =
     (case jparse text of None \<Rightarrow> Inl (PlainError ''SyntaxError'') | Some j \<Rightarrow> deser n j)"

section \<open>A container as a map from paths\<close>

fun lookup :: "string list \<Rightarrow> cval \<Rightarrow> cval option" where
  "lookup [] v = Some v"
| "lookup (k # ks) v =
     (case v of
        CCont c \<Rightarrow> (case obj_get (citems c) k of None \<Rightarrow> None | Some w \<Rightarrow> lookup ks w)
      | _ \<Rightarrow> None)"

lemma chas_lookup: "chas_segs ks v \<longleftrightarrow> (\<exists>w. lookup ks v = Some w \<and> w \<noteq> CUndef)"
proof (induction ks arbitrary: v)
  case (Cons k ks)
  have "\<not> chas_segs ks CUndef" for ks by (cases ks) auto
  with Cons show ?case by (auto split: cval.splits option.splits)
qed simp

lemma lookup_descend:
  "ks \<noteq> [] \<Longrightarrow> lookup ks (CCont c) =
     (case descend (butlast ks) c of None \<Rightarrow> None | Some d \<Rightarrow> obj_get (citems d) (last ks))"
proof (induction ks arbitrary: c)
  case (Cons k ks)
  show ?case
  proof (cases "ks = []")
    case False
    have none: "lookup ks v = None" if "\<forall>d. v \<noteq> CCont d" for v
      using False that by (cases ks) (auto split: cval.splits)
    show ?thesis
    proof (cases "obj_get (citems c) k")
      case (Some w)
      with False none [of w] Cons.IH show ?thesis by (cases w) (auto split: option.splits)
    qed (use False in simp)
  qed (simp split: option.splits)
qed simp

text \<open>What \<open>set\<close> stores for a value that is not an object of the language.\<close>

fun kept_as :: "(string \<Rightarrow> ('s, encrypted_file) act) \<Rightarrow> cval \<Rightarrow> cval \<Rightarrow> bool" where
  "kept_as put (CStr x) w = (\<exists>s s' f. put x s = (s', Ret f) \<and> w = CFile f)"
| "kept_as put (CBuf x) w = (\<exists>s s' f. put x s = (s', Ret f) \<and> w = CFile f)"
| "kept_as put (CNum n) w = (w = CNum n)"
| "kept_as put (CBool b) w = (w = CBool b)"
| "kept_as put (CFile f) w = (w = CFile f)"
| "kept_as put (CCont c) w = (w = CCont c)"
| "kept_as put _ w = (\<exists>d. w = CCont d \<or> w = CArr [] \<or> w = CObj [])"

lemma cset_items:
  assumes "cset put k v c s = (s', Ret c')"
  shows "\<exists>w. citems c' = obj_set k w (citems c) \<and> kept_as put v w \<and> w \<noteq> CUndef"
proof (cases v)
  case (CStr x)
  with await_RetD [of "put x"] assms show ?thesis
    by (force simp: cset.simps put_item_def retA_def)
next
  case (CBuf x)
  with await_RetD [of "put x"] assms show ?thesis
    by (force simp: cset.simps put_item_def retA_def)
qed (use assms in \<open>auto simp: cset.simps put_item_def retA_def throwA_def await_def
       split: if_splits prod.splits async.splits\<close>)

lemma csetPath_lookup:
  "csetPath_segs put p v c s = (s', c', Ret ()) \<Longrightarrow> p \<noteq> [] \<Longrightarrow>
   (\<exists>w. lookup p (CCont c') = Some w \<and> kept_as put v w \<and> w \<noteq> CUndef) \<and>
   (\<forall>q. \<not> prefix p q \<and> \<not> prefix q p \<longrightarrow> lookup q (CCont c') = lookup q (CCont c))"
proof (induction put p v c s arbitrary: s' c' rule: csetPath_segs.induct)
  case (2 put k v c s)
  then obtain w where w: "citems c' = obj_set k w (citems c)" "kept_as put v w" "w \<noteq> CUndef"
    using cset_items [of put k v c s] by (auto split: prod.splits async.splits)
  then have "lookup q (CCont c') = lookup q (CCont c)" if "\<not> prefix [k] q" "\<not> prefix q [k]" for q
    using that by (cases q) auto
  with w show ?case by auto
next
  case (3 put k k2 ks v c s)
  define c1 where "c1 = (if obj_get (citems c) k = None then put_item k (CCont new_container) IT_EncryptionContainer c else c)"
  obtain d where d: "obj_get (citems c1) k = Some (CCont d)"
    using "3.prems"(1) by (auto simp: c1_def [symmetric] Let_def split: option.splits cval.splits)
  obtain d' where r: "csetPath_segs put (k2 # ks) v d s = (s', d', Ret ())"
    and c': "c' = Container (obj_set k (CCont d') (citems c1)) (ctypes c1)"
    using "3.prems"(1) d by (auto simp: c1_def [symmetric] Let_def split: prod.splits)
  note ih = "3.IH" [OF c1_def d refl r, simplified]
  have "lookup q (CCont c') = lookup q (CCont c)" if q: "\<not> prefix (k # k2 # ks) q" "\<not> prefix q (k # k2 # ks)" for q
  proof (cases q)
    case (Cons j q')
    show ?thesis
    proof (cases "j = k")
      case True
      with q Cons have "\<not> prefix (k2 # ks) q'" "\<not> prefix q' (k2 # ks)" by auto
      with ih have e: "lookup q' (CCont d') = lookup q' (CCont d)" by blast
      show ?thesis
      proof (cases "obj_get (citems c) k")
        case None
        with d have "d = new_container" by (simp add: c1_def put_item_def)
        moreover have "q' \<noteq> []" using q(2) Cons True by auto
        ultimately show ?thesis using None True Cons c' e
          by (cases q') (simp_all add: new_container_def)
      next
        case (Some w)
        with d True Cons c' e show ?thesis by (simp add: c1_def)
      qed
    next
      case False
      with Cons c' show ?thesis by (simp add: c1_def put_item_def)
    qed
  qed (use q in simp)
  with ih c' show ?case by auto
qed simp

lemma cdelete_lookup:
  "cdelete_segs p c = (c', b) \<Longrightarrow> p \<noteq> [] \<Longrightarrow>
   b = (lookup p (CCont c) \<noteq> None) \<and> lookup p (CCont c') = None \<and>
   (\<forall>q. \<not> prefix p q \<and> \<not> prefix q p \<longrightarrow> lookup q (CCont c') = lookup q (CCont c))"
proof (induction p c arbitrary: c' b rule: cdelete_segs.induct)
  case (2 k c)
  have "lookup q (CCont c') = lookup q (CCont c)" if "\<not> prefix [k] q" "\<not> prefix q [k]" for q
    using that 2 by (cases q) (auto split: if_splits)
  with 2 show ?case by (auto split: if_splits)
next
  case (3 k k2 ks c)
  show ?case
  proof (cases "\<exists>d. obj_get (citems c) k = Some (CCont d)")
    case True
    then obtain d d' where d: "obj_get (citems c) k = Some (CCont d)" and r: "cdelete_segs (k2 # ks) d = (d', b)"
      and c': "c' = Container (obj_set k (CCont d') (citems c)) (ctypes c)"
      using "3.prems"(1) by (auto split: prod.splits)
    note ih = "3.IH" [OF d refl r, simplified]
    have "lookup q (CCont c') = lookup q (CCont c)" if q: "\<not> prefix (k # k2 # ks) q" "\<not> prefix q (k # k2 # ks)" for q
    proof (cases q)
      case (Cons j q')
      with q have "j = k \<Longrightarrow> \<not> prefix (k2 # ks) q' \<and> \<not> prefix q' (k2 # ks)" by auto
      with ih d c' Cons show ?thesis by (cases "j = k") auto
    qed (use q in simp)
    with ih d c' show ?thesis by auto
  next
    case False
    then have "c' = c" "\<not> b" "lookup (k # k2 # ks) (CCont c) = None"
      using "3.prems"(1) by (auto split: option.splits cval.splits)
    then show ?thesis by simp
  qed
qed simp



text \<open>Containers that hold files, numbers and truth values only.\<close>

definition flat_value :: "cval \<Rightarrow> bool" where
  "flat_value v = (case v of CFile f \<Rightarrow> True | CNum n \<Rightarrow> True | CBool b \<Rightarrow> True | _ \<Rightarrow> False)"

definition flat :: "container \<Rightarrow> bool" where
  "flat c \<longleftrightarrow> distinct (map fst (citems c)) \<and>
     (\<forall>(k, v) \<in> set (citems c). flat_value v \<and>
        (\<forall>n. v = CNum n \<longrightarrow> obj_get (ctypes c) k = Some (Some (JStr ''number''))) \<and>
        (\<forall>n. v = CBool n \<longrightarrow> obj_get (ctypes c) k = Some (Some (JStr ''boolean''))))"

lemma deser_item:
  assumes "flat_value v" "\<forall>n. v = CNum n \<longrightarrow> obj_get (ctypes c) k = Some (Some (JStr ''number''))"
    "\<forall>n. v = CBool n \<longrightarrow> obj_get (ctypes c) k = Some (Some (JStr ''boolean''))"
  shows "\<exists>t. deser_items n (item_json c (k, v) # m) d =
    deser_items n m (Container (obj_set k v (citems d)) (obj_set k t (ctypes d)))"
  using assms
  by (cases v) (auto simp: flat_value_def item_json_def json_elements_def nth_json_def)

lemma deser_flat:
  "\<forall>(k, v) \<in> set its. flat_value v \<and> (\<forall>n. v = CNum n \<longrightarrow> obj_get (ctypes c) k = Some (Some (JStr ''number''))) \<and>
       (\<forall>n. v = CBool n \<longrightarrow> obj_get (ctypes c) k = Some (Some (JStr ''boolean''))) \<Longrightarrow>
   distinct (map fst (citems d @ its)) \<Longrightarrow>
   \<exists>d'. deser_items n (map (item_json c) its) d = Inr d' \<and> citems d' = citems d @ its"
proof (induction its arbitrary: d)
  case (Cons i its)
  obtain k v where i: "i = (k, v)" by (cases i)
  obtain t where e: "deser_items n (item_json c i # map (item_json c) its) d =
      deser_items n (map (item_json c) its) (Container (obj_set k v (citems d)) (obj_set k t (ctypes d)))"
    using deser_item [of v c k n] Cons.prems(1) i by force
  have "obj_set k v (citems d) = citems d @ [(k, v)]"
    using Cons.prems(2) i by (intro obj_set_new) auto
  with e Cons.IH [of "Container (obj_set k v (citems d)) (obj_set k t (ctypes d))"] Cons.prems i show ?case by simp
qed simp

text \<open>A container without subcontainers is read back from its serialisation: the same keys in
  order with the same files, numbers and truth values.\<close>

theorem flat_container_roundtrip:
  assumes "flat c"
  shows "\<exists>c'. deserializeFromJSON 1 (serializeToJSON c) = Inr c' \<and> citems c' = citems c"
proof -
  have "jwf (snd (item_json c p))" if "flat_value (snd p)"
    "\<forall>n. snd p = CNum n \<longrightarrow> obj_get (ctypes c) (fst p) = Some (Some (JStr ''number''))"
    "\<forall>n. snd p = CBool n \<longrightarrow> obj_get (ctypes c) (fst p) = Some (Some (JStr ''boolean''))" for p
    using that by (cases p; cases "snd p") (auto simp: item_json_def flat_value_def)
  then have "\<forall>p \<in> set (citems c). jwf (snd (item_json c p))" using assms by (fastforce simp: flat_def)
  moreover have "fst \<circ> item_json c = fst" by (auto simp: item_json_def)
  ultimately have "jwf (JObj (map (item_json c) (citems c)))" using assms by (simp add: flat_def)
  then have "jparse (serializeToJSON c) = Some (JObj (map (item_json c) (citems c)))"
    unfolding serializeToJSON_def by (rule jparse_print)
  moreover obtain c' where "deser_items 0 (map (item_json c) (citems c)) new_container = Inr c'" "citems c' = citems c"
    using deser_flat [where its = "citems c" and c = c and d = new_container and n = 0] assms by (auto simp: flat_def new_container_def)
  ultimately show ?thesis by (simp add: deserializeFromJSON_def json_entries_def)
qed

lemma flat_container_roundtrip_witness:
  "\<exists>c'. deserializeFromJSON 1 (serializeToJSON (Container [(''n'', CNum 5)] [(''n'', Some (JStr ''number''))])) = Inr c' \<and>
    citems c' = [(''n'', CNum 5)]"
  using flat_container_roundtrip [of "Container [(''n'', CNum 5)] [(''n'', Some (JStr ''number''))]"]
  by (simp add: flat_def flat_value_def)

text \<open>A container with a nested container that is not empty is not: the nested one is written
  as a plain object, whose entries are not arrays.\<close>

theorem nested_container_unreadable:
  "deserializeFromJSON 5 (serializeToJSON (Container [(''a'', CCont (Container [(''b'', CNum 5)] [(''b'', Some (JStr ''number''))]))]
     [(''a'', Some (JStr ''EncryptionContainer''))])) = Inl TypeError"
  by code_simp

text \<open>\<open>getPath\<close> never returns the text of a file as such but wrapped in an \<open>EncryptedData\<close>
  whose encrypted material is the text.\<close>

theorem getPath_wraps_plaintext:
  assumes "lookup (split_ch (CHR ''/'') path) (CCont c) = Some (CFile f)" "fetch f s = (s', Ret text)"
  shows "cgetPath fetch path c s = (s', Ret (CData \<lparr>ed_key = ef_key f, encryptedMaterial = text\<rparr>))"
  using assms(1) assms(2)
  by (auto simp: lookup_descend cgetPath_def cget_def Let_def retA_def split: option.splits)

lemma getPath_wraps_plaintext_witness:
  "cgetPath (\<lambda>f s. (s, Ret ''text'')) ''a'' (Container [(''a'', CFile \<lparr>ef_key = ''k'', ef_fileId = ''i''\<rparr>)] []) () =
    ((), Ret (CData \<lparr>ed_key = ''k'', encryptedMaterial = ''text''\<rparr>))"
  using getPath_wraps_plaintext [of "''a''" "Container [(''a'', CFile \<lparr>ef_key = ''k'', ef_fileId = ''i''\<rparr>)] []"
      "\<lparr>ef_key = ''k'', ef_fileId = ''i''\<rparr>" "\<lambda>f s. (s, Ret ''text'')" "()"]
  by simp

end
