(* ===== verification/Sequencer.thy ===== *)
theory Sequencer
  imports Caches
begin

text \<open>
  Operations that run one at a time: \<open>ensureSequential\<close> and
  \<open>_processSequential\<close> of \<open>src/client/hostStorage.ts\<close>, and the queue of
  \<open>src/client/storage/progress.ts\<close>, which is the same machine over chunk ids.
\<close>

section \<open>One operation at a time\<close>

text \<open>\<open>ensureSequential\<close>: the operations waiting, the one running, the flag, the scheduled calls of
  \<open>_processSequential\<close>, and the operations started so far.\<close>

record 'op sequencer =
  waiting :: "'op queue"
  running :: "'op option"
  inProgress :: bool
  scheduled :: nat
  started :: "'op list"

definition new_sequencer :: "'op sequencer" where
  "new_sequencer = \<lparr>waiting = [], running = None, inProgress = False, scheduled = 0, started = []\<rparr>"

definition processSequential :: "'op sequencer \<Rightarrow> 'op sequencer" where
  "processSequential s =
     (if inProgress s then s
      else case dequeue (waiting s) of
             (q, Some f) \<Rightarrow> s\<lparr>waiting := q, running := Some f, inProgress := True, started := started s @ [f]\<rparr>
           | (_, None) \<Rightarrow> s)"

definition ensureSequential :: "'op \<Rightarrow> 'op sequencer \<Rightarrow> 'op sequencer" where
  "ensureSequential f s = processSequential (s\<lparr>waiting := enqueue f (waiting s)\<rparr>)"

text \<open>The running operation settles: the next call is scheduled and the flag is reset.\<close>

definition operation_done :: "'op sequencer \<Rightarrow> 'op sequencer" where
  "operation_done s = s\<lparr>running := None, inProgress := False, scheduled := scheduled s + 1\<rparr>"

definition immediate_call :: "'op sequencer \<Rightarrow> 'op sequencer" where
  "immediate_call s = processSequential (s\<lparr>scheduled := scheduled s - 1\<rparr>)"

inductive seq_reach :: "'op list \<Rightarrow> 'op sequencer \<Rightarrow> bool" where
  init: "seq_reach [] new_sequencer"
| call: "seq_reach fs s \<Longrightarrow> seq_reach (fs @ [f]) (ensureSequential f s)"
| settled: "seq_reach fs s \<Longrightarrow> running s \<noteq> None \<Longrightarrow> seq_reach fs (operation_done s)"
| immediate: "seq_reach fs s \<Longrightarrow> 0 < scheduled s \<Longrightarrow> seq_reach fs (immediate_call s)"

definition seq_inv :: "'op list \<Rightarrow> 'op sequencer \<Rightarrow> bool" where
  "seq_inv fs s \<longleftrightarrow> started s @ waiting s = fs \<and> (inProgress s \<longleftrightarrow> running s \<noteq> None) \<and>
     (\<forall>f. running s = Some f \<longrightarrow> started s \<noteq> [] \<and> last (started s) = f) \<and>
     (waiting s \<noteq> [] \<longrightarrow> running s \<noteq> None \<or> 0 < scheduled s)"

lemma seq_inv_process:
  "started s @ waiting s = fs \<Longrightarrow> (inProgress s \<longleftrightarrow> running s \<noteq> None) \<Longrightarrow>
   (\<forall>f. running s = Some f \<longrightarrow> started s \<noteq> [] \<and> last (started s) = f) \<Longrightarrow> seq_inv fs (processSequential s)"
  by (cases "waiting s") (auto simp: processSequential_def seq_inv_def dequeue_def)

lemma seq_reach_inv: "seq_reach fs s \<Longrightarrow> seq_inv fs s"
proof (induction rule: seq_reach.induct)
  case (call fs s f)
  then show ?case unfolding ensureSequential_def
    by (intro seq_inv_process) (auto simp: seq_inv_def enqueue_def)
next
  case (immediate fs s)
  then show ?case unfolding immediate_call_def
    by (intro seq_inv_process) (auto simp: seq_inv_def)
qed (auto simp: seq_inv_def new_sequencer_def operation_done_def)



end
