(* ===== verification/HostStorage.thy ===== *)
theory HostStorage
  imports Envelope Sequencer
begin

text \<open>
  The host storage of \<open>src/client/hostStorage.ts\<close>: a tree of trackers, each an
  encrypted file whose entries are literals, encrypted strings and buffers, or
  further trackers.  Encrypting and uploading a text (\<open>encput\<close>, with an
  optional forced key) and fetching and decrypting a file (\<open>encget\<close>) are
  arguments; what the operations promise about them is in \<open>HostLaws\<close>.  Trackers are owned by their
  parent and not shared, so an operation returns the updated tracker.  Reading
  recurses on fuel, the depth of the tree being unknown before its nodes are
  loaded.
\<close>

section \<open>Values and trackers\<close>

datatype hval =
    HUndef
  | HNull
  | HBool bool
  | HNum int
  | HStr string
  | HBuf string
  | HArr "hval list"
  | HObj "(string \<times> hval) list"

datatype ttype = TString | TObject | TArray | TBuffer | TLiteral | TOther string

datatype tval =
    VLit hval
  | VFile encrypted_file
  | VTracker tracker
and tracker = Tracker (items: "(string \<times> ttype \<times> tval) list") (pending_keys: "string list")
    (encFile: "encrypted_file option")

definition empty_tracker :: tracker where
  "empty_tracker = Tracker [] [] None"

fun tag_of :: "ttype \<Rightarrow> string" where
  "tag_of TString = ''S''"
| "tag_of TObject = ''O''"
| "tag_of TArray = ''A''"
| "tag_of TBuffer = ''B''"
| "tag_of TLiteral = ''L''"
| "tag_of (TOther s) = s"

definition type_of_tag :: "string \<Rightarrow> ttype" where
  "type_of_tag s =
     (if s = ''S'' then TString else if s = ''O'' then TObject else if s = ''A'' then TArray
      else if s = ''B'' then TBuffer else if s = ''L'' then TLiteral else TOther s)"

text \<open>\<open>JSON.stringify\<close> of a literal: \<open>undefined\<close> is dropped from objects and is null in arrays; a
  buffer has the form of \<open>Buffer.toJSON\<close>.\<close>

fun h2j :: "hval \<Rightarrow> json" where
  "h2j HUndef = JNull"
| "h2j HNull = JNull"
| "h2j (HBool b) = JBool b"
| "h2j (HNum n) = JNum n"
| "h2j (HStr s) = JStr s"
| "h2j (HBuf s) = JObj [(''type'', JStr ''Buffer''), (''data'', JArr (map (\<lambda>c. JNum (int (of_char c))) s))]"
| "h2j (HArr xs) = JArr (map h2j xs)"
| "h2j (HObj m) = JObj (concat (map (\<lambda>(k, v). if v = HUndef then [] else [(k, h2j v)]) m))"

fun j2h :: "json \<Rightarrow> hval" where
  "j2h JNull = HNull"
| "j2h (JBool b) = HBool b"
| "j2h (JNum n) = HNum n"
| "j2h (JStr s) = HStr s"
| "j2h (JArr xs) = HArr (map j2h xs)"
| "j2h (JObj m) = HObj (map (\<lambda>(k, v). (k, j2h v)) m)"

definition set_item :: "string \<Rightarrow> ttype \<times> tval \<Rightarrow> tracker \<Rightarrow> tracker" where
  "set_item k x tr = (case tr of Tracker its p e \<Rightarrow> Tracker (obj_set k x its) p e)"

definition mark_pending :: "string \<Rightarrow> tracker \<Rightarrow> tracker" where
  "mark_pending k tr = (case tr of Tracker its p e \<Rightarrow> Tracker its (if k \<in> set p then p else p @ [k]) e)"

section \<open>Storing a tracker\<close>

definition file_ref :: "encrypted_file \<Rightarrow> json" where
  "file_ref f = JArr [JStr (hex_encode (ef_key f)), JStr (ef_fileId f)]"

definition ser_entry :: "ttype \<Rightarrow> json option \<Rightarrow> json" where
  "ser_entry t v = JObj ((''t'', JStr (tag_of t)) # (case v of None \<Rightarrow> [] | Some j \<Rightarrow> [(''v'', j)]))"

text \<open>\<open>serialize\<close> uploads the subtrackers that have no file yet; \<open>upload\<close> stores the text and
  remembers the file.\<close>

fun tracker_upload ::
  "(string option \<Rightarrow> string \<Rightarrow> ('s, encrypted_file) act) \<Rightarrow> string option \<Rightarrow> tracker \<Rightarrow> ('s, tracker) act"
  and serialize ::
  "(string option \<Rightarrow> string \<Rightarrow> ('s, encrypted_file) act) \<Rightarrow> (string \<times> ttype \<times> tval) list \<Rightarrow>
   ('s, (string \<times> json) list \<times> (string \<times> ttype \<times> tval) list) act" where
  "tracker_upload encput force (Tracker its p e) =
     await (serialize encput its) (\<lambda>(members, its').
     await (encput force (jprint (JObj members))) (\<lambda>f. retA (Tracker its' p (Some f))))"
| "serialize encput [] = retA ([], [])"
| "serialize encput ((k, t, v) # its) =
     await (case v of
              VFile f \<Rightarrow> retA (ser_entry t (Some (file_ref f)), v)
            | VTracker tr \<Rightarrow>
                await (if encFile tr = None then tracker_upload encput None tr else retA tr) (\<lambda>tr'.
                  retA (ser_entry t (map_option file_ref (encFile tr')), VTracker tr'))
            | VLit h \<Rightarrow> retA (ser_entry t (if h = HUndef then None else Some (h2j h)), v))
       (\<lambda>(j, v'). await (serialize encput its) (\<lambda>(members, its'). retA ((k, j) # members, (k, t, v') # its')))"

text \<open>A stored item; the program writes only objects with a string \<open>t\<close>.\<close>

definition item_of_json :: "json \<Rightarrow> (ttype \<times> tval) option" where
  "item_of_json j =
     (case jstr (jget ''t'' j) of
        None \<Rightarrow> None
      | Some t \<Rightarrow> Some (type_of_tag t, VLit (case jget ''v'' j of None \<Rightarrow> HUndef | Some v \<Rightarrow> j2h v)))"

fun items_of_json :: "(string \<times> json) list \<Rightarrow> (string \<times> ttype \<times> tval) list option" where
  "items_of_json [] = Some []"
| "items_of_json ((k, j) # m) =
     (case (item_of_json j, items_of_json m) of
        (Some (t, v), Some its) \<Rightarrow> Some ((k, t, v) # its) | _ \<Rightarrow> None)"

definition fromDownload :: "(encrypted_file \<Rightarrow> ('s, string) act) \<Rightarrow> encrypted_file \<Rightarrow> ('s, tracker) act" where
  "fromDownload encget f =
     await (encget f) (\<lambda>data.
       case jparse data of
         None \<Rightarrow> throwA (PlainError ''SyntaxError'')
       | Some (JObj m) \<Rightarrow>
           (case items_of_json m of None \<Rightarrow> throwA TypeError | Some its \<Rightarrow> retA (Tracker its [] (Some f)))
       | Some _ \<Rightarrow> throwA TypeError)"

section \<open>Walking down a path\<close>

definition ref_of :: "hval \<Rightarrow> encrypted_file option" where
  "ref_of h = (case h of
     HArr (HStr key # HStr fileId # _) \<Rightarrow> Some \<lparr>ef_key = hex_decode key, ef_fileId = fileId\<rparr> | _ \<Rightarrow> None)"

text \<open>The item with its encrypted parts loaded.\<close>

definition load_item :: "(encrypted_file \<Rightarrow> ('s, string) act) \<Rightarrow> ttype \<times> tval \<Rightarrow> ('s, ttype \<times> tval) act" where
  "load_item encget item =
     (case item of (t, v) \<Rightarrow>
        if t = TObject \<or> t = TArray
        then (case v of
                VTracker _ \<Rightarrow> retA item
              | VFile _ \<Rightarrow> throwA (DisplayableError ''Invalid path data'')
              | VLit h \<Rightarrow>
                  (case h of
                     HArr _ \<Rightarrow>
                       (case ref_of h of
                          None \<Rightarrow> throwA TypeError
                        | Some f \<Rightarrow> await (fromDownload encget f) (\<lambda>tr. retA (t, VTracker tr)))
                   | _ \<Rightarrow> throwA (DisplayableError ''Invalid path data'')))
        else if t = TString \<or> t = TBuffer
        then (case v of
                VFile _ \<Rightarrow> retA item
              | VLit h \<Rightarrow> (case ref_of h of None \<Rightarrow> throwA TypeError | Some f \<Rightarrow> retA (t, VFile f))
              | VTracker _ \<Rightarrow> throwA TypeError)
        else retA item)"

text \<open>\<open>_sub\<close>: the tracker with the item loaded, the item, the key and the rest of the path.\<close>

definition tsub ::
  "(encrypted_file \<Rightarrow> ('s, string) act) \<Rightarrow> string list \<Rightarrow> tracker \<Rightarrow>
   ('s, tracker \<times> (ttype \<times> tval) option \<times> string \<times> string list) act" where
  "tsub encget path tr =
     (case path of
        [] \<Rightarrow> throwA (DisplayableError ''Invalid path'')
      | k # rest \<Rightarrow>
          (case obj_get (items tr) k of
             None \<Rightarrow> retA (tr, None, k, rest)
           | Some item \<Rightarrow>
               await (load_item encget item) (\<lambda>item'. retA (set_item k item' tr, Some item', k, rest))))"

definition as_tracker :: "exn \<Rightarrow> tval \<Rightarrow> ('s, tracker) act" where
  "as_tracker e v = (case v of VTracker tr \<Rightarrow> retA tr | _ \<Rightarrow> throwA e)"

text \<open>\<open>toLiteral\<close> on one item; an object is read by \<open>toObject\<close>, which reads every key.\<close>

fun tget :: "(encrypted_file \<Rightarrow> ('s, string) act) \<Rightarrow> nat \<Rightarrow> string list \<Rightarrow> tracker \<Rightarrow> ('s, tracker \<times> hval) act"
  and to_object :: "(encrypted_file \<Rightarrow> ('s, string) act) \<Rightarrow> nat \<Rightarrow> string list \<Rightarrow> tracker \<Rightarrow>
    ('s, tracker \<times> (string \<times> hval) list) act" where
  "tget encget 0 path tr = throwA (PlainError ''out of fuel'')"
| "tget encget (Suc n) path tr =
     await (tsub encget path tr) (\<lambda>(tr1, sub, k, rest).
       case sub of
         None \<Rightarrow> retA (tr1, HUndef)
       | Some (t, v) \<Rightarrow>
           if rest \<noteq> []
           then await (as_tracker (DisplayableError ''Invalid path value'') v) (\<lambda>str.
                await (tget encget n rest str) (\<lambda>(str', r). retA (set_item k (t, VTracker str') tr1, r)))
           else if t = TString
           then (case v of
                   VFile f \<Rightarrow> await (encget f) (\<lambda>s. retA (tr1, HStr s))
                 | _ \<Rightarrow> throwA (DisplayableError ''Invalid tracker item source type''))
           else if t = TBuffer
           then (case v of
                   VFile f \<Rightarrow> await (encget f) (\<lambda>s. retA (tr1, HBuf s))
                 | _ \<Rightarrow> throwA (DisplayableError ''Invalid tracker item source type''))
           else if t = TObject \<or> t = TArray
           then await (as_tracker (DisplayableError ''Invalid tracker item source type'') v) (\<lambda>str.
                await (to_object encget n (keys (items str)) str) (\<lambda>(str', m).
                  retA (set_item k (t, VTracker str') tr1, HObj m)))
           else if t = TLiteral
           then (case v of VLit h \<Rightarrow> retA (tr1, h) | _ \<Rightarrow> retA (tr1, HUndef))
           else throwA (DisplayableError ''Invalid tracker item type''))"
| "to_object encget 0 ks tr = throwA (PlainError ''out of fuel'')"
| "to_object encget (Suc n) [] tr = retA (tr, [])"
| "to_object encget (Suc n) (k # ks) tr =
     await (tget encget n [k] tr) (\<lambda>(tr1, v).
     await (to_object encget n ks tr1) (\<lambda>(tr2, m). retA (tr2, (k, v) # m)))"

fun tdir :: "(encrypted_file \<Rightarrow> ('s, string) act) \<Rightarrow> string list \<Rightarrow> tracker \<Rightarrow> ('s, hval) act" where
  "tdir encget [] tr = throwA (DisplayableError ''Invalid path'')"
| "tdir encget (k # rest) tr =
     await (tsub encget (k # rest) tr) (\<lambda>(tr1, sub, _, _).
       case sub of
         None \<Rightarrow> retA HUndef
       | Some (t, v) \<Rightarrow>
           await (as_tracker (DisplayableError ''Invalid path value: not a HostStorageTracker'') v) (\<lambda>str.
             if rest \<noteq> [] then tdir encget rest str
             else retA (HArr (map HStr (keys (items str))))))"

fun tlen :: "(encrypted_file \<Rightarrow> ('s, string) act) \<Rightarrow> string list \<Rightarrow> tracker \<Rightarrow> ('s, nat) act" where
  "tlen encget [] tr = throwA (DisplayableError ''Invalid path'')"
| "tlen encget (k # rest) tr =
     await (tsub encget (k # rest) tr) (\<lambda>(tr1, sub, _, _).
       case sub of
         None \<Rightarrow> retA 0
       | Some (t, v) \<Rightarrow>
           if rest \<noteq> []
           then await (as_tracker (DisplayableError ''Invalid path value'') v) (\<lambda>str. tlen encget rest str)
           else if t = TArray \<or> t = TObject
           then await (as_tracker (DisplayableError ''Invalid path value'') v) (\<lambda>str. retA (length (items str)))
           else if t = TLiteral
           then (case v of
                   VLit (HArr xs) \<Rightarrow> retA (length xs)
                 | _ \<Rightarrow> throwA (DisplayableError ''Invalid type for len''))
           else throwA (DisplayableError (''Invalid tracker item type for len: '' @ tag_of t)))"

section \<open>Changing a tracker\<close>

fun hsz :: "hval \<Rightarrow> nat" where
  "hsz (HArr xs) = Suc (sum_list (map (\<lambda>x. Suc (hsz x)) xs))"
| "hsz (HObj m) = Suc (sum_list (map (\<lambda>(k, x). Suc (hsz x)) m))"
| "hsz _ = 1"

lemma hsz_index [simp]:
  "sum_list (map (\<lambda>(k, x). Suc (hsz x)) (index_entries n xs)) = sum_list (map (\<lambda>x. Suc (hsz x)) xs)"
  by (induction xs arbitrary: n) auto

text \<open>The values for which \<open>Object.keys(v).length === 0\<close>, and the entries of \<open>for (const k in v)\<close>.\<close>

definition no_keys :: "hval \<Rightarrow> bool" where
  "no_keys v \<longleftrightarrow> v \<in> {HArr [], HObj [], HBuf []}"

text \<open>\<open>set\<close>; in the nested case the code reads \<open>this.items[k].v\<close> before it creates a missing
  entry, so a missing entry is a \<open>TypeError\<close>.\<close>

function tset ::
  "(string option \<Rightarrow> string \<Rightarrow> ('s, encrypted_file) act) \<Rightarrow> (encrypted_file \<Rightarrow> ('s, string) act) \<Rightarrow>
   string list \<Rightarrow> hval \<Rightarrow> tracker \<Rightarrow> ('s, tracker) act"
  and tset_all ::
  "(string option \<Rightarrow> string \<Rightarrow> ('s, encrypted_file) act) \<Rightarrow> (encrypted_file \<Rightarrow> ('s, string) act) \<Rightarrow>
   (string \<times> hval) list \<Rightarrow> tracker \<Rightarrow> ('s, tracker) act" where
  "tset encput encget [] v tr = throwA (DisplayableError ''Invalid path'')"
| "tset encput encget (k # rest) v tr =
     await (tsub encget (k # rest) tr) (\<lambda>(tr1, sub, _, _).
       if rest \<noteq> []
       then (case sub of
               None \<Rightarrow> throwA TypeError
             | Some (t, v0) \<Rightarrow>
                 if v0 = VLit HUndef then throwA (DisplayableError ''Invalid path data in set'')
                 else await (as_tracker (DisplayableError ''Invalid path data in set: item.v is not a HostStorageTracker'') v0) (\<lambda>str.
                      await (tset encput encget rest v str) (\<lambda>str'.
                      tracker_upload encput None (mark_pending k (set_item k (t, VTracker str') tr1)))))
       else if no_keys v then tracker_upload encput None (set_item k (TLiteral, VLit v) tr1)
       else (case v of
               HStr s \<Rightarrow> await (encput None s) (\<lambda>f.
                 tracker_upload encput None (mark_pending k (set_item k (TString, VFile f) tr1)))
             | HBuf s \<Rightarrow> await (encput None s) (\<lambda>f.
                 tracker_upload encput None (mark_pending k (set_item k (TBuffer, VFile f) tr1)))
             | HArr xs \<Rightarrow> await (tset_all encput encget (index_entries 0 xs) empty_tracker) (\<lambda>t1.
                 await (tracker_upload encput None t1) (\<lambda>t2.
                 tracker_upload encput None (mark_pending k (set_item k (TObject, VTracker t2) tr1))))
             | HObj m \<Rightarrow> await (tset_all encput encget m empty_tracker) (\<lambda>t1.
                 await (tracker_upload encput None t1) (\<lambda>t2.
                 tracker_upload encput None (mark_pending k (set_item k (TObject, VTracker t2) tr1))))
             | _ \<Rightarrow> tracker_upload encput None (set_item k (TLiteral, VLit v) tr1)))"
| "tset_all encput encget [] tr = retA tr"
| "tset_all encput encget ((k, v) # es) tr =
     await (tset encput encget [k] v tr) (\<lambda>tr1. tset_all encput encget es tr1)"
  by pat_completeness auto
termination
  by (relation "measures [\<lambda>x. case x of Inl (_, _, _, v, _) \<Rightarrow> hsz v
       | Inr (_, _, es, _) \<Rightarrow> sum_list (map (\<lambda>(k, x). Suc (hsz x)) es),
       \<lambda>x. case x of Inl (_, _, p, _, _) \<Rightarrow> length p | Inr (_, _, es, _) \<Rightarrow> 0]") auto

declare tset.simps [simp del]

definition item_tracker :: "(ttype \<times> tval) option \<Rightarrow> ('s, tracker) act" where
  "item_tracker sub =
     (case sub of None \<Rightarrow> throwA TypeError
      | Some (_, v) \<Rightarrow> as_tracker (DisplayableError ''Invalid path value'') v)"

definition item_type :: "(ttype \<times> tval) option \<Rightarrow> ttype" where
  "item_type sub = (case sub of None \<Rightarrow> TLiteral | Some (t, _) \<Rightarrow> t)"

fun tunset ::
  "(string option \<Rightarrow> string \<Rightarrow> ('s, encrypted_file) act) \<Rightarrow> (encrypted_file \<Rightarrow> ('s, string) act) \<Rightarrow>
   string list \<Rightarrow> tracker \<Rightarrow> ('s, tracker) act" where
  "tunset encput encget [] tr = throwA (DisplayableError ''Invalid path'')"
| "tunset encput encget (k # rest) tr =
     await (tsub encget (k # rest) tr) (\<lambda>(tr1, sub, _, _).
       if sub = None then throwA TypeError
       else if rest \<noteq> []
       then await (item_tracker sub) (\<lambda>str.
            await (tunset encput encget rest str) (\<lambda>str'.
            tracker_upload encput None (mark_pending k (set_item k (item_type sub, VTracker str') tr1))))
       else tracker_upload encput None (mark_pending k (set_item k (TLiteral, VLit HUndef) tr1)))"

fun is_array :: "hval \<Rightarrow> bool" where
  "is_array (HArr xs) = True"
| "is_array _ = False"

text \<open>\<open>_newEncArray\<close>: \<open>passed\<close> is what \<open>filter\<close> answers; it compares the string index with a
  number, so it is the same for every index.  A literal is stored as the first element, the value to
  append is not used in that case.\<close>

definition newEncArray ::
  "(string option \<Rightarrow> string \<Rightarrow> ('s, encrypted_file) act) \<Rightarrow> (encrypted_file \<Rightarrow> ('s, string) act) \<Rightarrow>
   string \<Rightarrow> hval \<Rightarrow> bool \<Rightarrow> int option \<Rightarrow> tracker \<Rightarrow> ('s, tracker) act" where
  "newEncArray encput encget k app passed insertIndex tr =
     await (case insertIndex of Some i \<Rightarrow> retA i | None \<Rightarrow> await (tlen encget [k] tr) (\<lambda>n. retA (int n))) (\<lambda>idx.
       case obj_get (items tr) k of
         None \<Rightarrow> throwA TypeError
       | Some (t, v) \<Rightarrow>
           if t = TLiteral
           then (case v of
                   VLit h \<Rightarrow>
                     if h = HUndef \<or> is_array h
                     then await (tset encput encget [''0''] h empty_tracker) (\<lambda>t1. tracker_upload encput None t1)
                     else throwA (DisplayableError ''Invalid type for append'')
                 | _ \<Rightarrow> throwA (DisplayableError ''Invalid type for append''))
           else if t = TArray
           then (case v of
                   VLit (HArr xs) \<Rightarrow>
                     (let result = (if passed
                        then concat (map (\<lambda>i. HArr xs # (if idx = int i then [HNull] else [])) [0..<length xs]) else [])
                      in await (tset_all encput encget (index_entries 0 result) empty_tracker) (\<lambda>t1.
                         await (if app = HUndef then retA t1 else tset encput encget [show_int idx] app t1) (\<lambda>t2.
                         tracker_upload encput None t2)))
                 | _ \<Rightarrow> throwA (DisplayableError ''Invalid type for append, doesnt match''))
           else throwA (DisplayableError ''Invalid tracker item type for append''))"

fun tappend ::
  "(string option \<Rightarrow> string \<Rightarrow> ('s, encrypted_file) act) \<Rightarrow> (encrypted_file \<Rightarrow> ('s, string) act) \<Rightarrow>
   string list \<Rightarrow> hval \<Rightarrow> tracker \<Rightarrow> ('s, tracker) act" where
  "tappend encput encget [] v tr = throwA (DisplayableError ''Invalid path'')"
| "tappend encput encget (k # rest) v tr =
     await (tsub encget (k # rest) tr) (\<lambda>(tr1, sub, _, _).
       if rest \<noteq> []
       then await (item_tracker sub) (\<lambda>str.
            await (tappend encput encget rest v str) (\<lambda>str'.
            tracker_upload encput None (mark_pending k (set_item k (item_type sub, VTracker str') tr1))))
       else await (newEncArray encput encget k v False None tr1) (\<lambda>a.
            tracker_upload encput None (mark_pending k (set_item k (TArray, VTracker a) tr1))))"

text \<open>In the nested case \<open>insertAt\<close> appends.\<close>

definition tinsertAt ::
  "(string option \<Rightarrow> string \<Rightarrow> ('s, encrypted_file) act) \<Rightarrow> (encrypted_file \<Rightarrow> ('s, string) act) \<Rightarrow>
   string list \<Rightarrow> hval \<Rightarrow> int \<Rightarrow> tracker \<Rightarrow> ('s, tracker) act" where
  "tinsertAt encput encget path v index tr =
     await (tsub encget path tr) (\<lambda>(tr1, sub, k, rest).
       if rest \<noteq> []
       then await (item_tracker sub) (\<lambda>str.
            await (tappend encput encget rest v str) (\<lambda>str'.
            tracker_upload encput None (mark_pending k (set_item k (item_type sub, VTracker str') tr1))))
       else await (newEncArray encput encget k v True (Some index) tr1) (\<lambda>a.
            tracker_upload encput None (mark_pending k (set_item k (TArray, VTracker a) tr1))))"

fun tremoveAt ::
  "(string option \<Rightarrow> string \<Rightarrow> ('s, encrypted_file) act) \<Rightarrow> (encrypted_file \<Rightarrow> ('s, string) act) \<Rightarrow>
   string list \<Rightarrow> int \<Rightarrow> tracker \<Rightarrow> ('s, tracker) act" where
  "tremoveAt encput encget [] index tr = throwA (DisplayableError ''Invalid path'')"
| "tremoveAt encput encget (k # rest) index tr =
     await (tsub encget (k # rest) tr) (\<lambda>(tr1, sub, _, _).
       if rest \<noteq> []
       then await (item_tracker sub) (\<lambda>str.
            await (tremoveAt encput encget rest index str) (\<lambda>str'.
            tracker_upload encput None (mark_pending k (set_item k (item_type sub, VTracker str') tr1))))
       else await (newEncArray encput encget k HUndef True None tr1) (\<lambda>a.
            tracker_upload encput None (mark_pending k (set_item k (TArray, VTracker a) tr1))))"

fun treplaceAt ::
  "(string option \<Rightarrow> string \<Rightarrow> ('s, encrypted_file) act) \<Rightarrow> (encrypted_file \<Rightarrow> ('s, string) act) \<Rightarrow>
   string list \<Rightarrow> hval \<Rightarrow> int \<Rightarrow> tracker \<Rightarrow> ('s, tracker) act" where
  "treplaceAt encput encget [] v index tr = throwA (DisplayableError ''Invalid path'')"
| "treplaceAt encput encget (k # rest) v index tr =
     await (tsub encget (k # rest) tr) (\<lambda>(tr1, sub, _, _).
       await (item_tracker sub) (\<lambda>str.
       await (if rest \<noteq> [] then treplaceAt encput encget rest v index str
              else tset encput encget [show_int index] v str) (\<lambda>str'.
       tracker_upload encput None (mark_pending k (set_item k (item_type sub, VTracker str') tr1)))))"

section \<open>The root\<close>

text \<open>Which root file to load: \<open>local_id\<close> is the content of the local file or empty.\<close>

definition choose_root :: "string \<Rightarrow> string option \<Rightarrow> string option" where
  "choose_root local_id remote_id =
     (if local_id \<noteq> [] \<and> (\<exists>r \<in> set_option remote_id. r \<noteq> []) then Some local_id
      else if local_id \<noteq> [] \<and> isValidStorageId local_id then Some local_id
      else (case remote_id of
              Some r \<Rightarrow> if r \<noteq> [] \<and> isValidStorageId r then Some r else None
            | None \<Rightarrow> None))"

text \<open>A root that cannot be loaded is replaced by an empty one.\<close>

definition getRoot ::
  "(encrypted_file \<Rightarrow> ('s, string) act) \<Rightarrow> string \<Rightarrow> string \<Rightarrow> string option \<Rightarrow> ('s, tracker) act" where
  "getRoot encget rootKey local_id remote_id =
     (case choose_root local_id remote_id of
        None \<Rightarrow> retA empty_tracker
      | Some fileId \<Rightarrow>
          catchA (fromDownload encget \<lparr>ef_key = rootKey, ef_fileId = fileId\<rparr>) (\<lambda>_. retA empty_tracker))"

datatype modify_type = M_SET | M_UNSET | M_APPEND | M_REMOVE_AT | M_INSERT_AT | M_REPLACE_AT

definition modify_root ::
  "(string option \<Rightarrow> string \<Rightarrow> ('s, encrypted_file) act) \<Rightarrow> (encrypted_file \<Rightarrow> ('s, string) act) \<Rightarrow>
   modify_type \<Rightarrow> string list \<Rightarrow> hval \<Rightarrow> int option \<Rightarrow> tracker \<Rightarrow> ('s, tracker) act" where
  "modify_root encput encget type path v index tr =
     (let undefined_value = throwA (DisplayableError ''Value must be defined'') in
      case type of
        M_SET \<Rightarrow> if v = HUndef then undefined_value else tset encput encget path v tr
      | M_UNSET \<Rightarrow> tunset encput encget path tr
      | M_APPEND \<Rightarrow> tappend encput encget path v tr
      | M_INSERT_AT \<Rightarrow>
          (case index of None \<Rightarrow> throwA (DisplayableError ''Index must be specified for insert_at'')
           | Some i \<Rightarrow> if v = HUndef then undefined_value else tinsertAt encput encget path v i tr)
      | M_REMOVE_AT \<Rightarrow>
          (case index of None \<Rightarrow> throwA (DisplayableError ''Index must be specified for remove_at'')
           | Some i \<Rightarrow> tremoveAt encput encget path i tr)
      | M_REPLACE_AT \<Rightarrow>
          (case index of None \<Rightarrow> throwA (DisplayableError ''Index must be specified for replace_at'')
           | Some i \<Rightarrow> if v = HUndef then undefined_value else treplaceAt encput encget path v i tr))"

text \<open>\<open>hostStorageModify\<close>: the id that is written to the local root file.\<close>

definition hostStorageModify ::
  "(string option \<Rightarrow> string \<Rightarrow> ('s, encrypted_file) act) \<Rightarrow> (encrypted_file \<Rightarrow> ('s, string) act) \<Rightarrow>
   string \<Rightarrow> string \<Rightarrow> string option \<Rightarrow> string \<Rightarrow> string list \<Rightarrow> hval \<Rightarrow> modify_type \<Rightarrow> int option \<Rightarrow>
   ('s, string) act" where
  "hostStorageModify encput encget rootKey local_id remote_id host path v type index =
     await (getRoot encget rootKey local_id remote_id) (\<lambda>root.
     await (modify_root encput encget type (host # path) v index root) (\<lambda>root1.
     await (tracker_upload encput (Some rootKey) root1) (\<lambda>root2.
     retA (case encFile root2 of None \<Rightarrow> [] | Some f \<Rightarrow> ef_fileId f))))"

definition hostStorageGet ::
  "(encrypted_file \<Rightarrow> ('s, string) act) \<Rightarrow> nat \<Rightarrow> string \<Rightarrow> string \<Rightarrow> string option \<Rightarrow> string \<Rightarrow> string list \<Rightarrow>
   ('s, hval) act" where
  "hostStorageGet encget fuel rootKey local_id remote_id host path =
     await (getRoot encget rootKey local_id remote_id) (\<lambda>root.
     await (tget encget fuel (host # path) root) (\<lambda>(_, v). retA v))"

definition hostStorageDir ::
  "(encrypted_file \<Rightarrow> ('s, string) act) \<Rightarrow> string \<Rightarrow> string \<Rightarrow> string option \<Rightarrow> string \<Rightarrow> string list \<Rightarrow> ('s, hval) act" where
  "hostStorageDir encget rootKey local_id remote_id host path =
     await (getRoot encget rootKey local_id remote_id) (\<lambda>root. tdir encget (host # path) root)"

definition hostStorageLen ::
  "(encrypted_file \<Rightarrow> ('s, string) act) \<Rightarrow> string \<Rightarrow> string \<Rightarrow> string option \<Rightarrow> string \<Rightarrow> string list \<Rightarrow> ('s, nat) act" where
  "hostStorageLen encget rootKey local_id remote_id host path =
     await (getRoot encget rootKey local_id remote_id) (\<lambda>root. tlen encget (host # path) root)"

section \<open>Synchronising the root\<close>

definition SYNC_INTERVAL :: int where "SYNC_INTERVAL = 1000 * 10"

record sync_state =
  syncing :: bool
  syncAgain :: bool
  lastSync :: int

datatype sync_action = SyncNothing | SyncLater int | SyncNow

text \<open>The start of \<open>syncHostStorage\<close> at time \<open>now\<close>, and its end.\<close>

definition sync_begin :: "int \<Rightarrow> sync_state \<Rightarrow> sync_state \<times> sync_action" where
  "sync_begin now s =
     (if syncing s then (s\<lparr>syncAgain := True\<rparr>, SyncNothing)
      else if lastSync s + SYNC_INTERVAL > now
      then (s, SyncLater (SYNC_INTERVAL - (now - lastSync s)))
      else (s\<lparr>syncing := True, syncAgain := False, lastSync := now\<rparr>, SyncNow))"

definition sync_end :: "bool \<Rightarrow> sync_state \<Rightarrow> sync_state \<times> sync_action" where
  "sync_end failed s =
     (s\<lparr>syncing := False\<rparr>, if \<not> failed \<and> syncAgain s then SyncLater 0 else SyncNothing)"

lemma sync_rate:
  "snd (sync_begin now s) = SyncNow \<Longrightarrow> lastSync s + SYNC_INTERVAL \<le> now \<and> lastSync (fst (sync_begin now s)) = now"
  by (auto simp: sync_begin_def split: if_splits)

end
