(* ===== verification/HostLaws.thy ===== *)
theory HostLaws
  imports HostStorage
begin

text \<open>
  What the operations of \<open>HostStorage\<close> promise.  The client's side needs only
  the interface \<open>enc_store\<close>: a text that was stored encrypted can be fetched
  back.  It is interpreted on \<open>host_put\<close> and \<open>host_get\<close>, the composition of
  \<open>Envelope\<close> with the node's storage that \<open>hostStorage.ts\<close> uses; their state
  is the number of random values drawn and the storage.
\<close>

section \<open>Stored texts\<close>

locale enc_store =
  fixes encput :: "string option \<Rightarrow> string \<Rightarrow> ('s, encrypted_file) act"
    and encget :: "encrypted_file \<Rightarrow> ('s, string) act"
    and held :: "string \<Rightarrow> bool"
    and holds :: "encrypted_file \<Rightarrow> string \<Rightarrow> bool"
    and ok :: "'s \<Rightarrow> bool"
  assumes put_holds: "encput force x s = (s', Ret f) \<Longrightarrow> held x \<Longrightarrow> holds f x"
    and get_holds: "ok s \<Longrightarrow> holds f x \<Longrightarrow> \<exists>s'. encget f s = (s', Ret x) \<and> ok s'"

definition host_put ::
  "crypto \<Rightarrow> config \<Rightarrow> (string \<Rightarrow> string) \<Rightarrow> (nat \<Rightarrow> string \<times> string) \<Rightarrow> string option \<Rightarrow> string \<Rightarrow>
   (nat \<times> store, encrypted_file) act" where
  "host_put C cfg H rnd force data s =
     (case s of (n, st) \<Rightarrow>
        (case createFromPlaintext C (fst (rnd n)) (snd (rnd n)) data force of
           Inl e \<Rightarrow> ((Suc n, st), Throw e)
         | Inr e \<Rightarrow>
             (case uploadData cfg H (encryptedMaterial e) False st of
                (st', Ret fileId) \<Rightarrow> ((Suc n, st'), Ret \<lparr>ef_key = ed_key e, ef_fileId = fileId\<rparr>)
              | (st', Throw x) \<Rightarrow> ((Suc n, st'), Throw x)
              | (st', WaitFor ev k) \<Rightarrow> ((Suc n, st'), WaitFor ev k))))"

definition host_get ::
  "crypto \<Rightarrow> config \<Rightarrow> (string \<Rightarrow> string) \<Rightarrow> (string \<Rightarrow> string option) list \<Rightarrow> encrypted_file \<Rightarrow>
   (nat \<times> store, string) act" where
  "host_get C cfg H sources f s =
     (case downloadAndDecryptFile C (\<lambda>i. getFile cfg H sources i True) f (snd s) of
        (st', r) \<Rightarrow> ((fst s, st'), r))"

definition host_held ::
  "crypto \<Rightarrow> config \<Rightarrow> (string \<Rightarrow> string) \<Rightarrow> (nat \<Rightarrow> string \<times> string) \<Rightarrow> (string \<Rightarrow> string option) list \<Rightarrow>
   string \<Rightarrow> bool" where
  "host_held C cfg H rnd sources x \<longleftrightarrow> aes_ok C \<and> (\<forall>n. length (snd (rnd n)) = 12) \<and>
     (\<forall>n force e. createFromPlaintext C (fst (rnd n)) (snd (rnd n)) x force = Inr e \<longrightarrow>
        readable cfg H sources (encryptedMaterial e))"

definition host_holds ::
  "crypto \<Rightarrow> config \<Rightarrow> (string \<Rightarrow> string) \<Rightarrow> (string \<Rightarrow> string option) list \<Rightarrow> encrypted_file \<Rightarrow> string \<Rightarrow> bool" where
  "host_holds C cfg H sources f x \<longleftrightarrow>
     (\<exists>m. readable cfg H sources m \<and> ef_fileId f = upload_file_id (CHUNK_SIZE cfg) H m \<and>
        decrypt C \<lparr>ed_key = ef_key f, encryptedMaterial = m\<rparr> = Inr x)"

interpretation hs: enc_store "host_put C cfg H rnd" "host_get C cfg H sources"
  "host_held C cfg H rnd sources" "host_holds C cfg H sources" "\<lambda>s. reader_ok cfg H sources (snd s)"
  for C cfg H rnd sources
proof unfold_locales
  fix force x s s' f
  assume p: "host_put C cfg H rnd force x s = (s', Ret f)" and h: "host_held C cfg H rnd sources x"
  obtain n st where s: "s = (n, st)" by (cases s)
  obtain e where e: "createFromPlaintext C (fst (rnd n)) (snd (rnd n)) x force = Inr e"
    using p s by (cases "createFromPlaintext C (fst (rnd n)) (snd (rnd n)) x force") (auto simp: host_put_def)
  have "f = \<lparr>ef_key = ed_key e, ef_fileId = upload_file_id (CHUNK_SIZE cfg) H (encryptedMaterial e)\<rparr>"
    using p uploadData_False [of cfg H "encryptedMaterial e" st] by (auto simp: host_put_def s e split: prod.splits)
  moreover have "decrypt C e = Inr x" "readable cfg H sources (encryptedMaterial e)"
    using h e decrypt_create [OF _ _ e] by (auto simp: host_held_def)
  ultimately show "host_holds C cfg H sources f x" unfolding host_holds_def by auto
next
  fix s :: "nat \<times> store" and f x
  assume o: "reader_ok cfg H sources (snd s)" and "host_holds C cfg H sources f x"
  then obtain m where m: "readable cfg H sources m" "ef_fileId f = upload_file_id (CHUNK_SIZE cfg) H m"
    "decrypt C \<lparr>ed_key = ef_key f, encryptedMaterial = m\<rparr> = Inr x" unfolding host_holds_def by blast
  obtain st' where "getFile cfg H sources (ef_fileId f) True (snd s) = (st', Ret m)" "reader_ok cfg H sources st'"
    using st.fetch_held [OF o m(1), of True] m(2) by auto
  with m(3) show "\<exists>s'. host_get C cfg H sources f s = (s', Ret x) \<and> reader_ok cfg H sources (snd s')"
    by (auto simp: host_get_def downloadAndDecryptFile_def liftR_def)
qed

section \<open>Setting and getting\<close>

lemma obj_set_get [simp]: "obj_get (items (set_item k x tr)) j = (if j = k then Some x else obj_get (items tr) j)"
  by (cases tr) (simp add: set_item_def)

lemma mark_pending_items [simp]: "items (mark_pending k tr) = items tr"
  by (cases tr) (simp add: mark_pending_def)

text \<open>A value that storing its tracker leaves as it is.\<close>

fun stable :: "tval \<Rightarrow> bool" where
  "stable (VTracker tr) = (encFile tr \<noteq> None)"
| "stable _ = True"

lemma serialize_get:
  "serialize encput its s = (s', Ret (members, its')) \<Longrightarrow> obj_get its k = Some (t, v) \<Longrightarrow> stable v \<Longrightarrow>
   obj_get its' k = Some (t, v)"
proof (induction its arbitrary: s s' members its')
  case (Cons i its)
  obtain j t0 v0 where i: "i = (j, t0, v0)" by (cases i)
  from Cons.prems(1) obtain s1 x v1 s2 m2 i2 where
    v1: "its' = (j, t0, v1) # i2" and r: "serialize encput its s1 = (s2, Ret (m2, i2))"
    and e: "stable v0 \<Longrightarrow> v1 = v0"
    by (cases v0; auto simp: i await_def retA_def split: prod.splits async.splits if_splits)
  show ?case
  proof (cases "j = k")
    case True
    with Cons.prems v1 e i show ?thesis by simp
  next
    case False
    with Cons.prems v1 Cons.IH [OF r] i show ?thesis by simp
  qed
qed simp

lemma upload_get:
  assumes "tracker_upload encput force tr s = (s', Ret tr')" "obj_get (items tr) k = Some (t, v)" "stable v"
  shows "obj_get (items tr') k = Some (t, v) \<and> encFile tr' \<noteq> None"
proof -
  obtain its p e where tr: "tr = Tracker its p e" by (cases tr)
  from assms(1) obtain s1 m its' where "serialize encput its s = (s1, Ret (m, its'))" "items tr' = its'" "encFile tr' \<noteq> None"
    by (auto simp: tr await_def retA_def split: prod.splits async.splits)
  with serialize_get assms(2,3) tr show ?thesis by fastforce
qed


lemma load_item_loaded:
  "load_item encget it s = (s', Ret it') \<Longrightarrow> load_item encget it' s1 = (s1, Ret it')"
  by (cases it; cases "snd it")
    (auto simp: load_item_def await_def retA_def throwA_def split: if_splits hval.splits option.splits prod.splits async.splits)

lemma load_item_tracker:
  "load_item encget it s = (s', Ret (t, VTracker tr)) \<Longrightarrow> load_item encget (t, VTracker tr') s1 = (s1, Ret (t, VTracker tr'))"
  by (cases it; cases "snd it")
    (auto simp: load_item_def await_def retA_def throwA_def split: if_splits hval.splits option.splits prod.splits async.splits)

lemma tsub_cons:
  "tsub encget (k # rest) tr s = (s', Ret (tr1, sub, k', rest')) \<Longrightarrow>
   k' = k \<and> rest' = rest \<and> (case sub of None \<Rightarrow> obj_get (items tr) k = None
     | Some it \<Rightarrow> \<exists>it0. obj_get (items tr) k = Some it0 \<and> load_item encget it0 s = (s', Ret it))"
  by (auto simp: tsub_def await_def retA_def split: option.splits prod.splits async.splits)

lemma tsub_loaded:
  "obj_get (items tr) k = Some it \<Longrightarrow> load_item encget it s = (s', Ret it') \<Longrightarrow>
   tsub encget (k # rest) tr s = (s', Ret (set_item k it' tr, Some it', k, rest))"
  by (simp add: tsub_def retA_def)

text \<open>The values that are stored in one entry.\<close>

fun scalar :: "hval \<Rightarrow> bool" where
  "scalar (HArr xs) = (xs = [])"
| "scalar (HObj m) = (m = [])"
| "scalar _ = True"

definition secret_of :: "hval \<Rightarrow> string option" where
  "secret_of v = (case v of HStr s \<Rightarrow> Some s | HBuf s \<Rightarrow> if s = [] then None else Some s | _ \<Rightarrow> None)"

context enc_store
begin

text \<open>The entry that \<open>set\<close> leaves for a scalar.\<close>

definition entry_holds :: "hval \<Rightarrow> ttype \<times> tval \<Rightarrow> bool" where
  "entry_holds v it \<longleftrightarrow>
     (case v of
        HStr x \<Rightarrow> (\<exists>f. it = (TString, VFile f) \<and> holds f x)
      | HBuf x \<Rightarrow> if x = [] then it = (TLiteral, VLit v) else (\<exists>f. it = (TBuffer, VFile f) \<and> holds f x)
      | _ \<Rightarrow> it = (TLiteral, VLit v))"

lemma tset_scalar:
  assumes "tset encput encget [k] v tr s = (s', Ret tr')" "scalar v" "\<forall>x \<in> set_option (secret_of v). held x"
  shows "(\<exists>it. obj_get (items tr') k = Some it \<and> entry_holds v it) \<and> encFile tr' \<noteq> None"
proof -
  obtain it tr0 s0 where u: "tracker_upload encput None tr0 s0 = (s', Ret tr')"
    and g: "obj_get (items tr0) k = Some it" "entry_holds v it" "stable (snd it)"
  proof (cases "secret_of v")
    case None
    with assms(1,2) that show ?thesis
      by (cases v) (auto simp: tset.simps await_def no_keys_def secret_of_def entry_holds_def
        split: prod.splits async.splits if_splits)
  next
    case (Some x)
    obtain f s1 s2 tr0 where "encput None x s1 = (s2, Ret f)" "tracker_upload encput None tr0 s2 = (s', Ret tr')"
      "obj_get (items tr0) k = Some (if v = HStr x then TString else TBuffer, VFile f)"
      using assms(1,2) Some
      by (cases v) (auto simp: tset.simps await_def no_keys_def secret_of_def split: prod.splits async.splits if_splits)
    moreover have "holds f x" using put_holds calculation(1) assms(3) Some by auto
    ultimately show ?thesis using Some that
      by (cases v) (auto simp: secret_of_def entry_holds_def split: if_splits)
  qed
  from upload_get [OF u, of k "fst it" "snd it"] g show ?thesis by auto
qed

lemma tget_entry:
  assumes "obj_get (items tr) k = Some it" "entry_holds v it" "ok s"
  shows "\<exists>s' tr'. tget encget (Suc n) [k] tr s = (s', Ret (tr', v)) \<and> ok s'"
proof -
  have "load_item encget it s = (s, Ret it)"
    using assms(2) by (cases v) (auto simp: entry_holds_def load_item_def retA_def split: if_splits)
  note sub = tsub_loaded [OF assms(1) this, of "[]"]
  show ?thesis
  proof (cases "secret_of v")
    case None
    with assms(2,3) sub show ?thesis
      by (cases v) (auto simp: entry_holds_def secret_of_def retA_def split: if_splits)
  next
    case (Some x)
    then obtain f t where it: "it = (t, VFile f)" "holds f x" "t = TString \<and> v = HStr x \<or> t = TBuffer \<and> v = HBuf x"
      using assms(2) by (cases v) (auto simp: entry_holds_def secret_of_def split: if_splits)
    obtain s' where "encget f s = (s', Ret x)" "ok s'" using get_holds [OF assms(3) it(2)] by blast
    with it sub show ?thesis by (auto simp: retA_def)
  qed
qed

lemma set_get:
  assumes "tset encput encget p v tr s = (s', Ret tr')" "scalar v" "\<forall>x \<in> set_option (secret_of v). held x"
    "ok s1" "length p \<le> n"
  shows "(\<exists>s2 tr2. tget encget n p tr' s1 = (s2, Ret (tr2, v)) \<and> ok s2) \<and> encFile tr' \<noteq> None"
  using assms
proof (induction p arbitrary: tr s s' tr' s1 n)
  case Nil
  then show ?case by (simp add: tset.simps throwA_def)
next
  case (Cons k rest)
  then obtain n' where n: "n = Suc n'" "length rest \<le> n'" by (cases n) auto
  show ?case
  proof (cases "rest = []")
    case True
    with tset_scalar [of k v tr s s' tr'] Cons.prems tget_entry [of tr' k] n(1) show ?thesis by blast
  next
    case False
    obtain sa q where q: "tsub encget (k # rest) tr s = (sa, Ret q)"
      and r: "(case q of (tr1, sub, _, _) \<Rightarrow> (case sub of
               None \<Rightarrow> throwA TypeError
             | Some (t, v0) \<Rightarrow>
                 if v0 = VLit HUndef then throwA (DisplayableError ''Invalid path data in set'')
                 else await (as_tracker (DisplayableError ''Invalid path data in set: item.v is not a HostStorageTracker'') v0) (\<lambda>str.
                      await (tset encput encget rest v str) (\<lambda>str'.
                      tracker_upload encput None (mark_pending k (set_item k (t, VTracker str') tr1)))))) sa = (s', Ret tr')"
      using await_RetD [OF Cons.prems(1) [unfolded tset.simps]] False by (auto split: prod.splits)
    obtain tr1 sub where q2: "q = (tr1, sub, k, rest)" using tsub_cons [of encget k rest tr s] q by (cases q) auto
    obtain t str where sub2: "sub = Some (t, VTracker str)"
      using r q2 by (auto simp: throwA_def as_tracker_def split: option.splits if_splits tval.splits)
    have r2: "await (tset encput encget rest v str) (\<lambda>str'.
        tracker_upload encput None (mark_pending k (set_item k (t, VTracker str') tr1))) sa = (s', Ret tr')"
      using r by (simp add: q2 sub2 as_tracker_def)
    obtain sb str' where st: "tset encput encget rest v str sa = (sb, Ret str')"
      and up: "tracker_upload encput None (mark_pending k (set_item k (t, VTracker str') tr1)) sb = (s', Ret tr')"
      using await_RetD [OF r2] by blast
    have sub: "tsub encget (k # rest) tr s = (sa, Ret (tr1, Some (t, VTracker str), k, rest))" using q q2 sub2 by simp
    obtain it0 where "load_item encget it0 s = (sa, Ret (t, VTracker str))" using tsub_cons [OF sub] by auto
    then have li: "load_item encget (t, VTracker str') s1 = (s1, Ret (t, VTracker str'))" by (rule load_item_tracker)
    obtain s2 str2 where ih: "tget encget n' rest str' s1 = (s2, Ret (str2, v))" "ok s2" "encFile str' \<noteq> None"
      using Cons.IH [OF st Cons.prems(2,3,4) n(2)] by blast
    then have "obj_get (items tr') k = Some (t, VTracker str') \<and> encFile tr' \<noteq> None"
      by (intro upload_get [OF up]) auto
    with tsub_loaded [OF _ li] ih False n(1) show ?thesis
      by (auto simp: as_tracker_def retA_def)
  qed
qed

end


text \<open>C32: what \<open>set\<close> wrote, \<open>get\<close> reads: after setting a scalar at any path of a tracker, getting
  the same path of the new tracker gives the value back, on any later sound state of the node, and the
  new tracker has been uploaded.\<close>

theorem host_set_then_get:
  assumes "tset (host_put C cfg H rnd) (host_get C cfg H sources) p v tr s = (s', Ret tr')" "scalar v"
    and "\<forall>x \<in> set_option (secret_of v). host_held C cfg H rnd sources x"
    and "reader_ok cfg H sources (snd s1)" "length p \<le> n"
  shows "(\<exists>s2 tr2. tget (host_get C cfg H sources) n p tr' s1 = (s2, Ret (tr2, v))) \<and> encFile tr' \<noteq> None"
  using hs.set_get [OF assms] by blast

definition toy_rnd :: "nat \<Rightarrow> string \<times> string" where
  "toy_rnd n = (replicate 32 (CHR ''k''), replicate 12 (CHR ''v''))"

lemma toy_held: "host_held toy_crypto wit_config toy_hash toy_rnd toy_sources ''data''"
proof -
  have "readable wit_config toy_hash toy_sources (encryptedMaterial e)"
    if "createFromPlaintext toy_crypto (fst (toy_rnd n)) (snd (toy_rnd n)) ''data'' force = Inr e" for n force e
  proof -
    have "encryptedMaterial e = toy_material"
      using that by (auto simp: createFromPlaintext_def toy_crypto_def toy_rnd_def toy_material_def Let_def split: if_splits)
    then show ?thesis using toy_blob [of toy_material] by simp
  qed
  then show ?thesis by (simp add: host_held_def toy_crypto_ok toy_rnd_def)
qed

lemma toy_key_ok: "replicate 32 (CHR ''k'') \<noteq> replicate 32 (CHR 0x00)"
  by code_simp

lemma toy_put:
  "\<exists>s' f. host_put toy_crypto cfg H toy_rnd None x s = (s', Ret f)"
proof -
  obtain n st where s: "s = (n, st)" by (cases s)
  obtain m where "createFromPlaintext toy_crypto (fst (toy_rnd n)) (snd (toy_rnd n)) x None =
      Inr \<lparr>ed_key = replicate 32 (CHR ''k''), encryptedMaterial = m\<rparr>"
    using create_ok [of "replicate 32 (CHR ''k'')" toy_crypto "snd (toy_rnd n)" x] toy_key_ok by (auto simp: toy_rnd_def)
  moreover obtain st' where "uploadData cfg H m False st = (st', Ret (upload_file_id (CHUNK_SIZE cfg) H m))"
    using uploadData_False by blast
  ultimately show ?thesis by (simp add: host_put_def s)
qed

lemma toy_set:
  "\<exists>s' tr'. tset (host_put toy_crypto cfg H toy_rnd) encget [k] (HStr x) empty_tracker s = (s', Ret tr')"
proof -
  let ?put = "host_put toy_crypto cfg H toy_rnd"
  obtain s1 f where p: "?put None x s = (s1, Ret f)" using toy_put by blast
  obtain s2 g where p2: "?put None (jprint (JObj [(k, ser_entry TString (Some (file_ref f)))])) s1 = (s2, Ret g)"
    using toy_put by blast
  show ?thesis
    by (simp add: tset.simps tsub_def empty_tracker_def no_keys_def p p2 set_item_def mark_pending_def await_def retA_def
      del: jprint.simps)
qed

lemma host_set_then_get_witness:
  "\<exists>s' tr'. tset (host_put toy_crypto wit_config toy_hash toy_rnd) (host_get toy_crypto wit_config toy_hash toy_sources)
      [''h''] (HStr ''data'') empty_tracker (0, empty_store) = (s', Ret tr') \<and>
    (\<exists>s2 tr2. tget (host_get toy_crypto wit_config toy_hash toy_sources) 1 [''h''] tr' (0, empty_store) =
      (s2, Ret (tr2, HStr ''data''))) \<and> encFile tr' \<noteq> None"
proof -
  obtain s' tr' where t: "tset (host_put toy_crypto wit_config toy_hash toy_rnd)
      (host_get toy_crypto wit_config toy_hash toy_sources) [''h''] (HStr ''data'') empty_tracker (0, empty_store) = (s', Ret tr')"
    using toy_set by blast
  from host_set_then_get [OF t, where ?s1.0 = "(0, empty_store)" and n = 1] toy_held toy_reader_ok t
  show ?thesis by (auto simp: secret_of_def)
qed

section \<open>Storing a tracker and loading it\<close>

text \<open>The item of a loaded tracker that stands for an item of the stored one.\<close>

fun stored_item :: "ttype \<times> tval \<Rightarrow> ttype \<times> tval" where
  "stored_item (t, VFile f) = (type_of_tag (tag_of t), VLit (HArr [HStr (hex_encode (ef_key f)), HStr (ef_fileId f)]))"
| "stored_item (t, VLit h) = (type_of_tag (tag_of t), VLit (if h = HUndef then HUndef else j2h (h2j h)))"
| "stored_item (t, VTracker tr) = (type_of_tag (tag_of t), VLit (case encFile tr of None \<Rightarrow> HUndef
     | Some f \<Rightarrow> HArr [HStr (hex_encode (ef_key f)), HStr (ef_fileId f)]))"

lemma item_of_entry:
  "item_of_json (ser_entry t v) = Some (type_of_tag (tag_of t), VLit (case v of None \<Rightarrow> HUndef | Some j \<Rightarrow> j2h j))"
  by (cases v) (simp_all add: item_of_json_def ser_entry_def)

lemma serialize_items:
  "serialize encput its s = (s', Ret (members, its')) \<Longrightarrow>
   items_of_json members = Some (map (\<lambda>(k, it). (k, stored_item it)) its') \<and> map fst members = map fst its \<and>
   map fst its' = map fst its"
proof (induction its arbitrary: s s' members its')
  case (Cons i its)
  obtain j t0 v0 where i: "i = (j, t0, v0)" by (cases i)
  from Cons.prems(1) obtain s1 jv v1 m2 i2 where
    v1: "its' = (j, t0, v1) # i2" "members = (j, jv) # m2" and r: "serialize encput its s1 = (s', Ret (m2, i2))"
    and e: "item_of_json jv = Some (stored_item (t0, v1))"
    by (cases v0; auto simp: i item_of_entry await_def retA_def file_ref_def split: prod.splits async.splits if_splits option.splits)
  from Cons.IH [OF r] v1 e i show ?case by simp
qed (simp add: retA_def)

lemma load_stored_file: "t = TString \<or> t = TBuffer \<Longrightarrow> load_item encget (stored_item (t, VFile f)) = retA (t, VFile f)"
  by (auto simp: load_item_def ref_of_def type_of_tag_def)


lemma stored_literal: "stored_item (TLiteral, VLit HNull) = (TLiteral, VLit HNull)"
  "stored_item (TLiteral, VLit (HNum n)) = (TLiteral, VLit (HNum n))"
  "stored_item (TLiteral, VLit (HBool b)) = (TLiteral, VLit (HBool b))"
  by (simp_all add: type_of_tag_def)

lemma upload_eq:
  assumes "serialize encput (items tr) s = (sa, Ret (members, its'))"
    and "encput force (jprint (JObj members)) sa = (s', Ret f)"
  shows "tracker_upload encput force tr s = (s', Ret (Tracker its' (pending_keys tr) (Some f)))"
  using assms by (cases tr) (simp add: retA_def del: jprint.simps)

context enc_store
begin

lemma upload_fromDownload:
  assumes "serialize encput (items tr) s = (sa, Ret (members, its'))" "jwf (JObj members)" "held (jprint (JObj members))"
    and "tracker_upload encput force tr s = (s', Ret tr')" "ok s1"
  shows "\<exists>f s2. encFile tr' = Some f \<and> items tr' = its' \<and> ok s2 \<and>
    fromDownload encget f s1 = (s2, Ret (Tracker (map (\<lambda>(k, it). (k, stored_item it)) its') [] (Some f)))"
proof -
  obtain f where p: "encput force (jprint (JObj members)) sa = (s', Ret f)" and e: "tr' = Tracker its' (pending_keys tr) (Some f)"
  proof (cases "encput force (jprint (JObj members)) sa")
    case (Pair sb r)
    with assms(1,4) that show ?thesis
      by (cases tr; cases r) (auto simp: retA_def simp del: jprint.simps)
  qed
  obtain s2 where "encget f s1 = (s2, Ret (jprint (JObj members)))" "ok s2"
    using get_holds [OF assms(5) put_holds [OF p assms(3)]] by blast
  moreover have "jparse (jprint (JObj members)) = Some (JObj members)" using assms(2) by (rule jparse_print)
  ultimately show ?thesis using serialize_items [OF assms(1)] e
    by (simp add: fromDownload_def retA_def del: jprint.simps)
qed

end

text \<open>A tracker that was uploaded and is loaded again from its file has the same keys in the same
  order, each with the stored form of its item; the encrypted strings and buffers among them and plain
  literals are read as they were written.\<close>

theorem tracker_roundtrip:
  assumes "serialize (host_put C cfg H rnd) (items tr) s = (sa, Ret (members, its'))"
    and "jwf (JObj members)" "host_held C cfg H rnd sources (jprint (JObj members))"
    and "tracker_upload (host_put C cfg H rnd) force tr s = (s', Ret tr')" "reader_ok cfg H sources (snd s1)"
  shows "\<exists>f s2 tr2. encFile tr' = Some f \<and> fromDownload (host_get C cfg H sources) f s1 = (s2, Ret tr2) \<and>
    map fst (items tr2) = map fst (items tr) \<and>
    (\<forall>k t g. obj_get (items tr') k = Some (t, VFile g) \<and> t \<in> {TString, TBuffer} \<longrightarrow>
       (\<exists>it. obj_get (items tr2) k = Some it \<and> load_item (host_get C cfg H sources) it s2 = (s2, Ret (t, VFile g)))) \<and>
    (\<forall>k n. obj_get (items tr') k = Some (TLiteral, VLit (HNum n)) \<longrightarrow> obj_get (items tr2) k = Some (TLiteral, VLit (HNum n)))"
proof -
  obtain f s2 where r: "encFile tr' = Some f" "items tr' = its'" "fromDownload (host_get C cfg H sources) f s1 =
      (s2, Ret (Tracker (map (\<lambda>(k, it). (k, stored_item it)) its') [] (Some f)))"
    using hs.upload_fromDownload [OF assms] by blast
  have m: "obj_get (map (\<lambda>(k, it). (k, stored_item it)) its') k = map_option stored_item (obj_get its' k)" for k
    by (induction its') auto
  have f: "\<exists>it. obj_get (map (\<lambda>(k, it). (k, stored_item it)) its') k = Some it \<and>
      load_item (host_get C cfg H sources) it s2 = (s2, Ret (t, VFile g))"
    if "obj_get (items tr') k = Some (t, VFile g)" "t \<in> {TString, TBuffer}" for k t g
    using that by (auto simp: m r(2) load_stored_file retA_def simp del: stored_item.simps)
  have ks: "map fst (map (\<lambda>(k, it). (k, stored_item it)) its') = map fst (items tr)"
    using serialize_items [OF assms(1)] by (simp add: split_def comp_def)
  show ?thesis
    by (rule exI [of _ f], rule exI [of _ s2], rule exI [of _ "Tracker (map (\<lambda>(k, it). (k, stored_item it)) its') [] (Some f)"])
      (use f ks r m in \<open>auto simp: stored_literal simp del: stored_item.simps map_map\<close>)
qed


definition num_text :: string where
  "num_text = jprint (JObj [(''n'', ser_entry TLiteral (Some (JNum 7)))])"

definition num_material :: string where
  "num_material = replicate 12 (CHR ''v'') @ replicate 16 (CHR ''t'') @ num_text"

definition num_hash :: "string \<Rightarrow> string" where
  "num_hash x = replicate 32 (if x = num_material then CHR ''a'' else CHR ''c'')"

lemma num_readable: "readable wit_config num_hash [\<lambda>_. Some num_material] num_material"
proof -
  have c: "chunkify 1000 num_material = [num_material]" "\<not> starts_with CHUNKINFO_PROLOGUE num_material"
    "\<not> isZeroStorageId (hex_encode (replicate 32 (CHR ''a'')))"
    by code_simp+
  have "\<forall>d'. num_hash d' = num_hash num_material \<longrightarrow> d' = num_material" by (auto simp: num_hash_def split: if_splits)
  then have "served num_hash [\<lambda>_. Some num_material] num_material" by (simp add: served_def)
  with c show ?thesis
    by (simp add: readable_def storable_def upload_chunks_def upload_file_id_def hash_id_def wit_config_def)
      (simp add: num_hash_def)
qed

lemma num_held: "host_held toy_crypto wit_config num_hash toy_rnd [\<lambda>_. Some num_material] num_text"
proof -
  have "readable wit_config num_hash [\<lambda>_. Some num_material] (encryptedMaterial e)"
    if "createFromPlaintext toy_crypto (fst (toy_rnd n)) (snd (toy_rnd n)) num_text force = Inr e" for n force e
  proof -
    have "encryptedMaterial e = num_material"
      using that by (auto simp: createFromPlaintext_def toy_crypto_def toy_rnd_def num_material_def Let_def split: if_splits)
    then show ?thesis using num_readable by simp
  qed
  then show ?thesis by (simp add: host_held_def toy_crypto_ok toy_rnd_def)
qed

lemma tracker_roundtrip_witness:
  "\<exists>f s' tr' s2 tr2. tracker_upload (host_put toy_crypto wit_config num_hash toy_rnd) None
      (Tracker [(''n'', TLiteral, VLit (HNum 7))] [] None) (0, empty_store) = (s', Ret tr') \<and> encFile tr' = Some f \<and>
    fromDownload (host_get toy_crypto wit_config num_hash [\<lambda>_. Some num_material]) f (0, empty_store) = (s2, Ret tr2) \<and>
    obj_get (items tr2) ''n'' = Some (TLiteral, VLit (HNum 7))"
proof -
  let ?tr = "Tracker [(''n'', TLiteral, VLit (HNum 7))] [] None"
  let ?put = "host_put toy_crypto wit_config num_hash toy_rnd"
  have s: "serialize ?put (items ?tr) (0, empty_store) =
      ((0, empty_store), Ret ([(''n'', ser_entry TLiteral (Some (JNum 7)))], items ?tr))"
    by (simp add: retA_def)
  obtain s' f where p: "?put None (jprint (JObj [(''n'', ser_entry TLiteral (Some (JNum 7)))])) (0, empty_store) = (s', Ret f)"
    using toy_put by blast
  have u: "tracker_upload ?put None ?tr (0, empty_store) = (s', Ret (Tracker (items ?tr) (pending_keys ?tr) (Some f)))"
    by (rule upload_eq [OF s p])
  have "jwf (JObj [(''n'', ser_entry TLiteral (Some (JNum 7)))])" by (simp add: ser_entry_def)
  from tracker_roundtrip [OF s this num_held [unfolded num_text_def] u, of "(0, empty_store)"] toy_reader_ok
  obtain s2 tr2 where d: "fromDownload (host_get toy_crypto wit_config num_hash [\<lambda>_. Some num_material]) f (0, empty_store) = (s2, Ret tr2)"
    and l: "\<forall>k n. obj_get (items ?tr) k = Some (TLiteral, VLit (HNum n)) \<longrightarrow> obj_get (items tr2) k = Some (TLiteral, VLit (HNum n))"
    by auto
  have "obj_get (items tr2) ''n'' = Some (TLiteral, VLit (HNum 7))" by (rule l [rule_format]) simp
  with d u show ?thesis by (metis tracker.sel(3))
qed

text \<open>Below a missing key nothing can be set: the operation is a \<open>TypeError\<close> that changes
  nothing, although the code after the failing test is there to create the missing object.\<close>

theorem set_below_missing_key_fails:
  "obj_get (items tr) k = None \<Longrightarrow> rest \<noteq> [] \<Longrightarrow> tset encput encget (k # rest) v tr s = (s, Throw TypeError)"
  by (simp add: tset.simps tsub_def throwA_def)

lemma set_below_missing_key_fails_witness:
  "tset (\<lambda>_ _. throwA TypeError) (\<lambda>_. throwA TypeError) [''h'', ''a''] (HNum 1) empty_tracker () = ((), Throw TypeError)"
  by (rule set_below_missing_key_fails) (simp_all add: empty_tracker_def)

end
