(* ===== verification/Progress.thy ===== *)
theory Progress
  imports Directory Async Sequencer
begin

text \<open>
  The upload progress of files and directories, \<open>src/client/storage/progress.ts\<close>:
  the caches of statuses, the parents of chunks, files and directories, and
  the propagation of a finished chunk to its files and their directories.  A
  progress is an exact fraction here and a double in the code.  The objects
  that serve as sets are lists of keys.  The updates of parents recurse on
  fuel: the code follows the parent links as they are.
\<close>

section \<open>State\<close>

record file_up =
  uf_uploaded :: bool
  uf_failed :: bool
  uf_progress :: rat
  uf_chunk_ids :: "string list"
  uf_size :: "nat option"

record dir_up =
  ud_uploaded :: bool
  ud_progress :: rat
  ud_failed :: bool
  ud_file_ids :: "string list"
  ud_is_dir :: "(string, bool) obj"
  ud_totalChunks :: nat
  ud_dir_size :: nat

record progress =
  fileUploadCache :: "(string, file_up) obj"
  dirUploadCache :: "(string, dir_up) obj"
  chunkUploadCache :: "(string, upload_status) obj"
  chunkParents :: "(string, string list) obj"
  fileParents :: "(string, string list) obj"
  dirParents :: "(string, string list) obj"
  db :: store

type_synonym 'a prog_act = "(progress, 'a) act"

definition new_progress :: "store \<Rightarrow> progress" where
  "new_progress st = \<lparr>fileUploadCache = [], dirUploadCache = [], chunkUploadCache = [],
     chunkParents = [], fileParents = [], dirParents = [], db = st\<rparr>"

definition modS :: "('s \<Rightarrow> 's) \<Rightarrow> ('s, unit) act" where
  "modS f s = (f s, Ret ())"

definition getS :: "('s \<Rightarrow> 'a) \<Rightarrow> ('s, 'a) act" where
  "getS f s = (s, Ret (f s))"

lemma await_modS [simp]: "await (modS f) g s = g () (f s)"
  by (simp add: await_def modS_def)

lemma await_getS [simp]: "await (getS f) g s = g (f s) s"
  by (simp add: await_def getS_def)

definition add_parent :: "string \<Rightarrow> string \<Rightarrow> (string, string list) obj \<Rightarrow> (string, string list) obj" where
  "add_parent k p m =
     (case obj_get m k of
        None \<Rightarrow> obj_set k [p] m
      | Some ps \<Rightarrow> obj_set k (if p \<in> set ps then ps else ps @ [p]) m)"

definition addFileAsChunkParent :: "string \<Rightarrow> string \<Rightarrow> progress \<Rightarrow> progress" where
  "addFileAsChunkParent file_id chunk_id s = s\<lparr>chunkParents := add_parent chunk_id file_id (chunkParents s)\<rparr>"

definition addDirAsFileParent :: "string \<Rightarrow> string \<Rightarrow> progress \<Rightarrow> progress" where
  "addDirAsFileParent file_id dir_id s = s\<lparr>fileParents := add_parent file_id dir_id (fileParents s)\<rparr>"

definition addDirAsDirParent :: "string \<Rightarrow> string \<Rightarrow> progress \<Rightarrow> progress" where
  "addDirAsDirParent dir_id parent_dir_id s = s\<lparr>dirParents := add_parent dir_id parent_dir_id (dirParents s)\<rparr>"

text \<open>\<open>None\<close> is \<open>undefined\<close>: the entry is read again from the database.\<close>

definition markChunkUlStatusInCache :: "string \<Rightarrow> upload_status option \<Rightarrow> progress \<Rightarrow> progress" where
  "markChunkUlStatusInCache chunk_id status s =
     s\<lparr>chunkUploadCache := (case status of None \<Rightarrow> obj_del chunk_id (chunkUploadCache s)
        | Some u \<Rightarrow> obj_set chunk_id u (chunkUploadCache s))\<rparr>"

definition updateFileUlStatus :: "string \<Rightarrow> file_status \<Rightarrow> rat \<Rightarrow> progress \<Rightarrow> progress" where
  "updateFileUlStatus file_id status prog s =
     s\<lparr>db := file_update True False False file_id (\<lambda>r. status = F_FAILED \<longrightarrow> f_ul_status r \<noteq> F_COMPLETED)
        (\<lambda>r. r\<lparr>f_ul_status := status, f_ul_progress := prog\<rparr>) (db s)\<rparr>"

definition updateFileDirUlStatus :: "string \<Rightarrow> file_status \<Rightarrow> rat \<Rightarrow> progress \<Rightarrow> progress" where
  "updateFileDirUlStatus file_id status prog s =
     s\<lparr>db := file_update False True False file_id (\<lambda>r. status = F_FAILED \<longrightarrow> f_dir_ul_status r \<noteq> F_COMPLETED)
        (\<lambda>r. r\<lparr>f_dir_ul_status := status, f_dir_ul_progress := prog\<rparr>) (db s)\<rparr>"

section \<open>Files\<close>

definition set_file :: "string \<Rightarrow> file_up \<Rightarrow> progress \<Rightarrow> progress" where
  "set_file file_id f s = s\<lparr>fileUploadCache := obj_set file_id f (fileUploadCache s)\<rparr>"

definition set_dir :: "string \<Rightarrow> dir_up \<Rightarrow> progress \<Rightarrow> progress" where
  "set_dir dir_id d s = s\<lparr>dirUploadCache := obj_set dir_id d (dirUploadCache s)\<rparr>"

text \<open>The cached entry of a file, filled if it is missing.\<close>

definition load_file :: "string \<Rightarrow> file_up prog_act" where
  "load_file file_id s =
     (case obj_get (fileUploadCache s) file_id of
        Some f \<Rightarrow> (s, Ret f)
      | None \<Rightarrow>
          (let ids = map fm_chunk_id (filter (\<lambda>m. fm_file_id m = file_id) (file_maps (db s))) in
           case findOrFail file_id (file_tbl (db s)) of
             Inl e \<Rightarrow> (s, Throw e)
           | Inr row \<Rightarrow>
               (let f = \<lparr>uf_uploaded = False, uf_failed = False, uf_progress = 0, uf_chunk_ids = ids, uf_size = f_size row\<rparr>
                in (foldl (\<lambda>s c. addFileAsChunkParent file_id c s) (set_file file_id f s) ids, Ret f))))"

definition chunk_status :: "string \<Rightarrow> upload_status prog_act" where
  "chunk_status chunk_id s =
     (case obj_get (chunkUploadCache s) chunk_id of
        Some u \<Rightarrow> (s, Ret u)
      | None \<Rightarrow>
          (case findOrFail chunk_id (chunk_tbl (db s)) of
             Inl e \<Rightarrow> (s, Throw e)
           | Inr c \<Rightarrow> (s\<lparr>chunkUploadCache := obj_set chunk_id (ul_status c) (chunkUploadCache s)\<rparr>, Ret (ul_status c))))"

fun chunk_statuses :: "string list \<Rightarrow> upload_status list prog_act" where
  "chunk_statuses [] = retA []"
| "chunk_statuses (c # cs) = await (chunk_status c) (\<lambda>u. await (chunk_statuses cs) (\<lambda>us. retA (u # us)))"

text \<open>\<open>updateFileProgress\<close> up to the parents: whether something was updated.  No counter at all is
  not the counter zero: a file without chunks is not completed.\<close>

definition file_step :: "string \<Rightarrow> bool prog_act" where
  "file_step file_id =
     (if file_id = [] then throwA (PlainError ''Invalid file_id supplied to updateFileProgress'')
      else await (load_file file_id) (\<lambda>f.
        if uf_uploaded f \<or> uf_failed f then retA False
        else await (chunk_statuses (uf_chunk_ids f)) (\<lambda>us.
          let total = length us; completed = length (filter (\<lambda>u. u = UL_COMPLETED) us) in
          if UL_FAILED \<in> set us
          then await (modS (set_file file_id (f\<lparr>uf_uploaded := False, uf_failed := True\<rparr>))) (\<lambda>_.
               await (modS (updateFileUlStatus file_id F_FAILED (uf_progress f))) (\<lambda>_. retA True))
          else if completed \<noteq> 0 \<and> completed = total
          then await (modS (set_file file_id (f\<lparr>uf_uploaded := True, uf_failed := False, uf_progress := 1\<rparr>))) (\<lambda>_.
               await (modS (updateFileUlStatus file_id F_COMPLETED 1)) (\<lambda>_. retA True))
          else (let prog = (if total = 0 then 0 else of_nat completed / of_nat total) in
                if uf_progress f \<noteq> prog
                then await (modS (set_file file_id (f\<lparr>uf_progress := prog\<rparr>))) (\<lambda>_. retA True)
                else retA False))))"

section \<open>Directories\<close>

text \<open>The counters of a directory: uploaded and failed files, files, uploaded and all chunks.\<close>

record dir_counts =
  n_uploaded :: nat
  n_failed :: nat
  n_files :: nat
  up_chunks :: rat
  all_chunks :: nat

definition no_counts :: dir_counts where
  "no_counts = \<lparr>n_uploaded = 0, n_failed = 0, n_files = 0, up_chunks = 0, all_chunks = 0\<rparr>"

definition count_entry :: "bool \<Rightarrow> bool \<Rightarrow> nat \<Rightarrow> rat \<Rightarrow> dir_counts \<Rightarrow> dir_counts" where
  "count_entry up failed chunks prog c =
     \<lparr>n_uploaded = n_uploaded c + (if up then 1 else 0), n_failed = n_failed c + (if failed then 1 else 0),
      n_files = n_files c + 1, up_chunks = up_chunks c + of_nat chunks * prog, all_chunks = all_chunks c + chunks\<rparr>"

text \<open>The end of \<open>updateDirProgress\<close>: the new entry, and the status to write.\<close>

definition dir_verdict :: "dir_counts \<Rightarrow> dir_up \<Rightarrow> dir_up \<times> file_status option \<times> bool" where
  "dir_verdict c d =
     (if n_failed c > 0
      then (d\<lparr>ud_uploaded := False, ud_failed := True, ud_totalChunks := all_chunks c\<rparr>, Some F_FAILED, True)
      else if n_uploaded c = n_files c
      then (d\<lparr>ud_uploaded := True, ud_failed := False, ud_progress := 1, ud_totalChunks := all_chunks c\<rparr>, Some F_COMPLETED, True)
      else (let prog = (if all_chunks c = 0 then 0 else up_chunks c / of_nat (all_chunks c))
            in (d\<lparr>ud_progress := prog, ud_totalChunks := all_chunks c\<rparr>, None, ud_progress d \<noteq> prog)))"

definition finish_dir :: "string \<Rightarrow> dir_counts \<Rightarrow> bool prog_act" where
  "finish_dir dir_id c s =
     (case obj_get (dirUploadCache s) dir_id of
        None \<Rightarrow> (s, Throw TypeError)
      | Some d \<Rightarrow>
          (case dir_verdict c d of
             (d', status, updated) \<Rightarrow>
               (case status of None \<Rightarrow> set_dir dir_id d' s
                | Some u \<Rightarrow> updateFileDirUlStatus dir_id u (ud_progress d') (set_dir dir_id d' s), Ret updated)))"

section \<open>Propagation\<close>

definition parents_of :: "(progress \<Rightarrow> (string, string list) obj) \<Rightarrow> string \<Rightarrow> progress \<Rightarrow> string list" where
  "parents_of sel k s = (case obj_get (sel s) k of None \<Rightarrow> [] | Some ps \<Rightarrow> ps)"

definition push_entry :: "string \<Rightarrow> dir_map \<Rightarrow> progress \<Rightarrow> progress" where
  "push_entry dir_id m s =
     (case obj_get (dirUploadCache s) dir_id of
        None \<Rightarrow> s
      | Some d \<Rightarrow> set_dir dir_id (d\<lparr>ud_file_ids := ud_file_ids d @ [dm_file_id m],
          ud_is_dir := obj_set (dm_file_id m) (dm_is_dir m) (ud_is_dir d)\<rparr>) s)"

definition new_dir :: "dir_map list \<Rightarrow> dir_up" where
  "new_dir rows = \<lparr>ud_uploaded = False, ud_progress = 0, ud_failed = False, ud_file_ids = [], ud_is_dir = [],
     ud_totalChunks = 0, ud_dir_size = sum_list (map dm_dir_size rows)\<rparr>"

text \<open>The bodies of the two functions over the functions they call.\<close>

type_synonym updater = "string \<Rightarrow> bool \<Rightarrow> unit prog_act"

fun update_dirs :: "updater \<Rightarrow> string list \<Rightarrow> unit prog_act" where
  "update_dirs updDir [] = retA ()"
| "update_dirs updDir (d # ds) = await (updDir d True) (\<lambda>_. update_dirs updDir ds)"

definition file_body :: "updater \<Rightarrow> updater" where
  "file_body updDir file_id up =
     await (file_step file_id) (\<lambda>updated.
       if updated \<and> up then await (getS (parents_of fileParents file_id)) (update_dirs updDir) else retA ())"

text \<open>A subdirectory or a file that is not cached is updated, without its parents.\<close>

definition pull_in :: "updater \<Rightarrow> updater \<Rightarrow> bool \<Rightarrow> string \<Rightarrow> unit prog_act" where
  "pull_in updDir updFile isDir file_id =
     (if isDir
      then await (getS (\<lambda>s. obj_get (dirUploadCache s) file_id)) (\<lambda>e.
           if e = None then updDir file_id False else retA ())
      else await (getS (\<lambda>s. obj_get (fileUploadCache s) file_id)) (\<lambda>e.
           if e = None then updFile file_id False else retA ()))"

fun fill_entries :: "updater \<Rightarrow> updater \<Rightarrow> string \<Rightarrow> dir_map list \<Rightarrow> unit prog_act" where
  "fill_entries updDir updFile dir_id [] = retA ()"
| "fill_entries updDir updFile dir_id (m # ms) =
     await (modS (push_entry dir_id m)) (\<lambda>_.
     await (pull_in updDir updFile (dm_is_dir m) (dm_file_id m)) (\<lambda>_.
     await (modS ((if dm_is_dir m then addDirAsDirParent else addDirAsFileParent) (dm_file_id m) dir_id)) (\<lambda>_.
     fill_entries updDir updFile dir_id ms)))"

fun count_dir :: "updater \<Rightarrow> updater \<Rightarrow> dir_up \<Rightarrow> string list \<Rightarrow> dir_counts \<Rightarrow> dir_counts prog_act" where
  "count_dir updDir updFile d [] c = retA c"
| "count_dir updDir updFile d (file_id # ids) c =
     (let isDir = (obj_get (ud_is_dir d) file_id = Some True) in
      await (pull_in updDir updFile isDir file_id) (\<lambda>_.
      await (if isDir
             then await (getS (\<lambda>s. obj_get (dirUploadCache s) file_id)) (\<lambda>e.
                  case e of None \<Rightarrow> throwA TypeError
                  | Some x \<Rightarrow> retA (count_entry (ud_uploaded x) (ud_failed x) (ud_totalChunks x) (ud_progress x) c))
             else await (getS (\<lambda>s. obj_get (fileUploadCache s) file_id)) (\<lambda>e.
                  case e of None \<Rightarrow> throwA TypeError
                  | Some f \<Rightarrow> retA (count_entry (uf_uploaded f) (uf_failed f) (length (uf_chunk_ids f)) (uf_progress f) c)))
        (count_dir updDir updFile d ids)))"

definition load_dir :: "updater \<Rightarrow> updater \<Rightarrow> string \<Rightarrow> unit prog_act" where
  "load_dir updDir updFile dir_id =
     await (getS (\<lambda>s. obj_get (dirUploadCache s) dir_id)) (\<lambda>cached.
       if cached = None
       then await (getS (\<lambda>s. filter (\<lambda>m. dm_dir_id m = dir_id) (dir_maps (db s)))) (\<lambda>rows.
            await (modS (set_dir dir_id (new_dir rows))) (\<lambda>_. fill_entries updDir updFile dir_id rows))
       else retA ())"

definition dir_body :: "updater \<Rightarrow> updater \<Rightarrow> updater" where
  "dir_body updDir updFile dir_id up =
     (if dir_id = [] then throwA (PlainError ''Invalid dir_id supplied to updateDirProgress'')
      else await (load_dir updDir updFile dir_id) (\<lambda>_.
           await (getS (\<lambda>s. obj_get (dirUploadCache s) dir_id)) (\<lambda>entry.
           case entry of
             None \<Rightarrow> throwA TypeError
           | Some d \<Rightarrow>
               if ud_uploaded d then retA ()
               else await (count_dir updDir updFile d (ud_file_ids d) no_counts) (\<lambda>c.
                    await (finish_dir dir_id c) (\<lambda>updated.
                    if updated \<and> up then await (getS (parents_of dirParents dir_id)) (update_dirs updDir)
                    else retA ())))))"

fun updateFileProgress :: "nat \<Rightarrow> updater" and updateDirProgress :: "nat \<Rightarrow> updater" where
  "updateFileProgress 0 = (\<lambda>_ _. throwA (PlainError ''out of fuel''))"
| "updateFileProgress (Suc n) = file_body (updateDirProgress n)"
| "updateDirProgress 0 = (\<lambda>_ _. throwA (PlainError ''out of fuel''))"
| "updateDirProgress (Suc n) = dir_body (updateDirProgress n) (updateFileProgress n)"

text \<open>A chunk is complete: its files are updated, and through them the directories.\<close>

fun update_files :: "nat \<Rightarrow> string list \<Rightarrow> unit prog_act" where
  "update_files n [] = retA ()"
| "update_files n (f # fs) = await (updateFileProgress n f True) (\<lambda>_. update_files n fs)"

definition realUpdateChunkProgress :: "nat \<Rightarrow> string \<Rightarrow> unit prog_act" where
  "realUpdateChunkProgress n chunk_id =
     await (modS (\<lambda>s. s\<lparr>chunkUploadCache := obj_set chunk_id UL_COMPLETED (chunkUploadCache s)\<rparr>)) (\<lambda>_.
     await (modS (\<lambda>s.
       if obj_get (chunkParents s) chunk_id = None
       then foldl (\<lambda>s m. addFileAsChunkParent (fm_file_id m) chunk_id s) s
              (filter (\<lambda>m. fm_chunk_id m = chunk_id) (file_maps (db s)))
       else s)) (\<lambda>_.
     await (getS (\<lambda>s. obj_get (chunkParents s) chunk_id)) (\<lambda>ps.
     case ps of None \<Rightarrow> throwA TypeError | Some fs \<Rightarrow> update_files n fs)))"

text \<open>The queue in front of it, the machine of \<open>Sequencer\<close> over chunk ids: an update is started,
  and when it has settled the next call of \<open>processQueue\<close> is scheduled.\<close>

definition progress_process :: "string sequencer \<Rightarrow> string sequencer" where
  "progress_process q = processSequential q"

definition progress_settled :: "string sequencer \<Rightarrow> string sequencer" where
  "progress_settled q = operation_done q"

definition updateChunkProgressAsCompleted :: "string \<Rightarrow> string sequencer \<Rightarrow> string sequencer" where
  "updateChunkProgressAsCompleted chunk_id q = progress_process (q\<lparr>waiting := enqueue chunk_id (waiting q)\<rparr>)"

text \<open>\<open>Math.round\<close>\<close>

definition js_round :: "rat \<Rightarrow> int" where
  "js_round x = \<lfloor>x + 1 / 2\<rfloor>"

definition getDirProgress :: "nat \<Rightarrow> string \<Rightarrow> (string \<times> nat \<times> int) prog_act" where
  "getDirProgress n dir_id =
     await (getS (\<lambda>s. obj_get (dirUploadCache s) dir_id)) (\<lambda>e0.
     await (if e0 = None then updateDirProgress n dir_id True else retA ()) (\<lambda>_.
     await (getS (\<lambda>s. obj_get (dirUploadCache s) dir_id)) (\<lambda>e.
     case e of
       None \<Rightarrow> throwA TypeError
     | Some d \<Rightarrow> retA (dir_id, ud_dir_size d, js_round (ud_progress d * of_nat (ud_dir_size d))))))"

section \<open>Progress stays a fraction\<close>

definition file_ok :: "file_up \<Rightarrow> bool" where
  "file_ok f \<longleftrightarrow> 0 \<le> uf_progress f \<and> uf_progress f \<le> 1 \<and> \<not> (uf_uploaded f \<and> uf_failed f) \<and>
     (uf_uploaded f \<longrightarrow> uf_progress f = 1 \<and> uf_chunk_ids f \<noteq> [])"

definition dir_ok :: "dir_up \<Rightarrow> bool" where
  "dir_ok d \<longleftrightarrow> 0 \<le> ud_progress d \<and> ud_progress d \<le> 1 \<and> \<not> (ud_uploaded d \<and> ud_failed d)"

definition prog_ok :: "progress \<Rightarrow> bool" where
  "prog_ok s \<longleftrightarrow> (\<forall>i f. obj_get (fileUploadCache s) i = Some f \<longrightarrow> file_ok f) \<and>
     (\<forall>i d. obj_get (dirUploadCache s) i = Some d \<longrightarrow> dir_ok d)"

definition counts_ok :: "dir_counts \<Rightarrow> bool" where
  "counts_ok c \<longleftrightarrow> 0 \<le> up_chunks c \<and> up_chunks c \<le> of_nat (all_chunks c)"

lemma prog_ok_simps [simp]:
  "prog_ok (addFileAsChunkParent f c s) = prog_ok s" "prog_ok (addDirAsFileParent f c s) = prog_ok s"
  "prog_ok (addDirAsDirParent f c s) = prog_ok s" "prog_ok (markChunkUlStatusInCache c u s) = prog_ok s"
  "prog_ok (updateFileUlStatus f v x s) = prog_ok s" "prog_ok (updateFileDirUlStatus f v x s) = prog_ok s"
  "prog_ok (s\<lparr>chunkUploadCache := m\<rparr>) = prog_ok s"
  by (simp_all add: prog_ok_def addFileAsChunkParent_def addDirAsFileParent_def addDirAsDirParent_def
      markChunkUlStatusInCache_def updateFileUlStatus_def updateFileDirUlStatus_def)

lemma prog_ok_foldl [simp]: "prog_ok (foldl (\<lambda>s x. addFileAsChunkParent (f x) (g x) s) s xs) = prog_ok s"
  by (induction xs arbitrary: s) auto

lemma prog_ok_set: "prog_ok s \<Longrightarrow> file_ok f \<Longrightarrow> prog_ok (set_file i f s)"
  "prog_ok s \<Longrightarrow> dir_ok d \<Longrightarrow> prog_ok (set_dir i d s)"
  by (simp_all add: prog_ok_def set_file_def set_dir_def)

lemma prog_ok_get: "prog_ok s \<Longrightarrow> obj_get (fileUploadCache s) i = Some f \<Longrightarrow> file_ok f"
  "prog_ok s \<Longrightarrow> obj_get (dirUploadCache s) i = Some d \<Longrightarrow> dir_ok d"
  by (auto simp: prog_ok_def)

abbreviation keeps :: "'a prog_act \<Rightarrow> bool" where
  "keeps m \<equiv> inv_act prog_ok m (\<lambda>_. True)"

lemma inv_then:
  "keeps m \<Longrightarrow> (\<And>x. inv_act prog_ok (g x) Q) \<Longrightarrow> inv_act prog_ok (await m g) Q"
  by (rule inv_act_await)

lemma inv_modS: "(\<And>s. prog_ok s \<Longrightarrow> prog_ok (f s)) \<Longrightarrow> keeps (modS f)"
  by (simp add: inv_act_def modS_def)

lemma inv_getS: "(\<And>s. prog_ok s \<Longrightarrow> Q (f s)) \<Longrightarrow> inv_act prog_ok (getS f) Q"
  by (simp add: inv_act_def getS_def)

lemma inv_getS_then: "(\<And>x. inv_act prog_ok (g x) Q) \<Longrightarrow> inv_act prog_ok (await (getS f) g) Q"
  by (rule inv_act_await [where R = "\<lambda>_. True"]) (auto simp: inv_act_def getS_def)

lemmas inv_rules = inv_getS_then inv_act_if inv_act_ret inv_act_throw

lemma inv_load_file: "inv_act prog_ok (load_file i) file_ok"
  unfolding inv_act_def
proof (intro allI impI)
  fix s assume p: "prog_ok s"
  have "file_ok \<lparr>uf_uploaded = False, uf_failed = False, uf_progress = 0, uf_chunk_ids = ids, uf_size = z\<rparr>" for ids z
    by (simp add: file_ok_def)
  with p prog_ok_get(1) [OF p, of i] show
    "prog_ok (fst (load_file i s)) \<and> (\<forall>x. snd (load_file i s) = Ret x \<longrightarrow> file_ok x)"
    by (auto simp: load_file_def Let_def split: option.splits sum.splits intro!: prog_ok_set)
qed

lemma inv_chunk_statuses: "inv_act prog_ok (chunk_statuses cs) (\<lambda>us. length us = length cs)"
proof (induction cs)
  case (Cons c cs)
  have "keeps (chunk_status c)"
    by (auto simp: inv_act_def chunk_status_def split: option.splits sum.splits)
  then show ?case using Cons by (auto intro!: inv_intros intro: inv_act_weaken)
qed (auto intro: inv_intros)

lemma fraction_ok: "0 \<le> (of_nat (length (filter p us)) / of_nat (length us) :: rat)"
  "(of_nat (length (filter p us)) / of_nat (length us) :: rat) \<le> 1"
  using length_filter_le [of p us] by (auto simp: divide_le_eq)

lemma inv_file_step: "keeps (file_step i)"
proof -
  have "keeps (if uf_uploaded f \<or> uf_failed f then retA False
        else await (chunk_statuses (uf_chunk_ids f)) (\<lambda>us.
          let total = length us; completed = length (filter (\<lambda>u. u = UL_COMPLETED) us) in
          if UL_FAILED \<in> set us
          then await (modS (set_file i (f\<lparr>uf_uploaded := False, uf_failed := True\<rparr>))) (\<lambda>_.
               await (modS (updateFileUlStatus i F_FAILED (uf_progress f))) (\<lambda>_. retA True))
          else if completed \<noteq> 0 \<and> completed = total
          then await (modS (set_file i (f\<lparr>uf_uploaded := True, uf_failed := False, uf_progress := 1\<rparr>))) (\<lambda>_.
               await (modS (updateFileUlStatus i F_COMPLETED 1)) (\<lambda>_. retA True))
          else (let prog = (if total = 0 then 0 else of_nat completed / of_nat total) in
                if uf_progress f \<noteq> prog
                then await (modS (set_file i (f\<lparr>uf_progress := prog\<rparr>))) (\<lambda>_. retA True)
                else retA False)))" if f: "file_ok f" for f
    unfolding Let_def
    by (intro inv_rules inv_act_await [OF inv_chunk_statuses] inv_then [OF inv_modS] prog_ok_set TrueI)
      (use f fraction_ok in \<open>auto simp: file_ok_def intro: order_trans [OF length_filter_le]\<close>)
  note body = this
  show ?thesis unfolding file_step_def
    by (rule inv_act_if, rule inv_act_throw, rule inv_act_await [OF inv_load_file], rule body)
qed

lemma counts_ok_entry:
  "counts_ok c \<Longrightarrow> 0 \<le> x \<Longrightarrow> x \<le> 1 \<Longrightarrow> counts_ok (count_entry u f k x c)"
  using mult_left_le [of x "of_nat k"] by (simp add: counts_ok_def count_entry_def add_mono)

lemma dir_ok_verdict:
  "dir_ok d \<Longrightarrow> counts_ok c \<Longrightarrow> dir_ok (fst (dir_verdict c d))"
  by (auto simp: dir_ok_def counts_ok_def dir_verdict_def Let_def divide_le_eq)

lemma inv_finish_dir: "counts_ok c \<Longrightarrow> keeps (finish_dir i c)"
  unfolding inv_act_def
proof (intro allI impI)
  fix s assume "counts_ok c" and p: "prog_ok s"
  show "prog_ok (fst (finish_dir i c s)) \<and> (\<forall>x. snd (finish_dir i c s) = Ret x \<longrightarrow> True)"
  proof (cases "obj_get (dirUploadCache s) i")
    case (Some d)
    obtain d' st u where v: "dir_verdict c d = (d', st, u)" by (cases "dir_verdict c d")
    have "dir_ok d'" using dir_ok_verdict [OF prog_ok_get(2) [OF p Some] \<open>counts_ok c\<close>] v by simp
    with p prog_ok_set(2) Some v show ?thesis by (auto simp: finish_dir_def split: option.splits)
  qed (simp add: finish_dir_def p)
qed

definition good :: "updater \<Rightarrow> bool" where
  "good u \<longleftrightarrow> (\<forall>i up. keeps (u i up))"

lemma inv_update_dirs: "good u \<Longrightarrow> keeps (update_dirs u ds)"
  by (induction ds) (auto simp: good_def intro!: inv_intros)

lemma inv_file_body: "good u \<Longrightarrow> keeps (file_body u i up)"
  unfolding file_body_def
  by (intro inv_then [OF inv_file_step] inv_rules inv_update_dirs TrueI)

lemma inv_pull_in: "good u \<Longrightarrow> good v \<Longrightarrow> keeps (pull_in u v b i)"
  unfolding pull_in_def good_def by (intro inv_rules) auto

lemma inv_fill: "good u \<Longrightarrow> good v \<Longrightarrow> keeps (fill_entries u v i ms)"
proof (induction ms)
  case (Cons m ms)
  have "prog_ok (push_entry i m s)" if "prog_ok s" for s
    using that prog_ok_get(2) [OF that, of i]
    by (auto simp: push_entry_def dir_ok_def split: option.splits intro!: prog_ok_set)
  then show ?case using Cons unfolding fill_entries.simps
    by (intro inv_then [OF inv_modS] inv_then [OF inv_pull_in]) auto
qed (auto intro: inv_intros)

lemma inv_count_dir:
  "good u \<Longrightarrow> good v \<Longrightarrow> counts_ok c \<Longrightarrow> inv_act prog_ok (count_dir u v d ids c) counts_ok"
proof (induction ids arbitrary: c)
  case (Cons i ids)
  have d: "inv_act prog_ok (await (getS (\<lambda>s. obj_get (dirUploadCache s) i)) (\<lambda>e.
      case e of None \<Rightarrow> throwA TypeError
      | Some x \<Rightarrow> retA (count_entry (ud_uploaded x) (ud_failed x) (ud_totalChunks x) (ud_progress x) c))) counts_ok"
    by (rule inv_act_await [where R = "\<lambda>e. \<forall>x. e = Some x \<longrightarrow> dir_ok x"])
      (use Cons.prems(3) in \<open>auto simp: dir_ok_def intro!: inv_getS inv_intros counts_ok_entry
        dest: prog_ok_get split: option.splits\<close>)
  have f: "inv_act prog_ok (await (getS (\<lambda>s. obj_get (fileUploadCache s) i)) (\<lambda>e.
      case e of None \<Rightarrow> throwA TypeError
      | Some f \<Rightarrow> retA (count_entry (uf_uploaded f) (uf_failed f) (length (uf_chunk_ids f)) (uf_progress f) c))) counts_ok"
    by (rule inv_act_await [where R = "\<lambda>e. \<forall>x. e = Some x \<longrightarrow> file_ok x"])
      (use Cons.prems(3) in \<open>auto simp: file_ok_def intro!: inv_getS inv_intros counts_ok_entry
        dest: prog_ok_get split: option.splits\<close>)
  show ?case using d f Cons.IH Cons.prems unfolding count_dir.simps Let_def
    by (intro inv_then [OF inv_pull_in] inv_act_await [where R = counts_ok]) auto
qed (auto intro: inv_intros)

lemma inv_dir_body: "good u \<Longrightarrow> good v \<Longrightarrow> keeps (dir_body u v i up)"
proof -
  assume g: "good u" "good v"
  have new: "dir_ok (new_dir rows)" for rows by (simp add: dir_ok_def new_dir_def)
  have l: "keeps (load_dir u v i)" unfolding load_dir_def
    by (intro inv_rules inv_then [OF inv_modS] inv_fill [OF g] prog_ok_set new TrueI)
  have c: "counts_ok no_counts" by (simp add: counts_ok_def no_counts_def)
  have "keeps (if ud_uploaded d then retA ()
      else await (count_dir u v d (ud_file_ids d) no_counts) (\<lambda>c. await (finish_dir i c) (\<lambda>updated.
        if updated \<and> up then await (getS (parents_of dirParents i)) (update_dirs u) else retA ())))" for d
    by (intro inv_rules inv_act_await [OF inv_count_dir [OF g c]] inv_then [OF inv_finish_dir] inv_update_dirs [OF g(1)] TrueI)
  then show ?thesis unfolding dir_body_def
    by (intro inv_rules inv_then [OF l]) (auto split: option.splits intro: inv_intros)
qed

lemma good_update: "good (updateFileProgress n) \<and> good (updateDirProgress n)"
  by (induction n) (auto simp: good_def intro!: inv_intros inv_file_body inv_dir_body)

lemma inv_update_files: "keeps (update_files n fs)"
  using good_update [of n] by (induction fs) (auto simp: good_def intro!: inv_intros)

lemma inv_realUpdate: "keeps (realUpdateChunkProgress n c)"
  unfolding realUpdateChunkProgress_def
  by (intro inv_then [OF inv_modS] inv_rules) (auto intro!: inv_intros inv_update_files split: option.splits)

text \<open>C35: whatever happens, also when an update stops with an exception, every cached progress is a
  fraction between nothing and all, no entry is both uploaded and failed, an uploaded file has chunks
  and progress one, and the number of bytes reported for a directory is between zero and its size.\<close>

theorem progress_is_fraction:
  assumes "prog_ok s"
  shows "prog_ok (fst (realUpdateChunkProgress n c s)) \<and> prog_ok (fst (updateFileProgress n i up s)) \<and>
    prog_ok (fst (updateDirProgress n i up s)) \<and> prog_ok (fst (getDirProgress n i s)) \<and>
    (\<forall>j total done'. snd (getDirProgress n i s) = Ret (j, total, done') \<longrightarrow> 0 \<le> done' \<and> done' \<le> int total)"
proof -
  have g: "keeps (updateDirProgress n i b)" "keeps (updateFileProgress n i b)" for b
    using good_update [of n] by (simp_all add: good_def)
  have r: "0 \<le> js_round (x * of_nat k)" "js_round (x * of_nat k) \<le> int k" if "0 \<le> x" "x \<le> 1" for x :: rat and k
  proof -
    have "0 \<le> x * of_nat k" "x * of_nat k \<le> of_nat k" using that mult_right_mono [of x 1 "of_nat k"] by simp_all
    then show "0 \<le> js_round (x * of_nat k)" "js_round (x * of_nat k) \<le> int k"
      by (simp_all add: js_round_def floor_le_iff le_floor_iff)
  qed
  have "inv_act prog_ok (getDirProgress n i) (\<lambda>(j, total, d). 0 \<le> d \<and> d \<le> int total)"
    unfolding getDirProgress_def
    by (rule inv_getS_then, rule inv_then, intro inv_act_if g inv_act_ret TrueI, rule inv_act_await [where R = "\<lambda>e. \<forall>x. e = Some x \<longrightarrow> dir_ok x"])
      (auto simp: dir_ok_def intro!: inv_getS inv_intros r dest: prog_ok_get split: option.splits)
  with assms inv_realUpdate g show ?thesis by (fastforce simp: inv_act_def)
qed

lemma prog_ok_new: "prog_ok (new_progress st)"
  by (simp add: prog_ok_def new_progress_def)

lemma progress_is_fraction_witness:
  "prog_ok (fst (realUpdateChunkProgress 2 ''c'' (new_progress empty_store))) \<and>
   prog_ok (fst (getDirProgress 2 ''d'' (new_progress empty_store)))"
  using progress_is_fraction [OF prog_ok_new, of 2 "''c''" empty_store]
    progress_is_fraction [OF prog_ok_new, of 2 _ empty_store "''d''"] by blast

text \<open>What one update of a file computes, all of its chunks being known.\<close>

lemma chunk_statuses_cached:
  "\<forall>c \<in> set cs. obj_get (chunkUploadCache s) c = Some (u c) \<Longrightarrow> chunk_statuses cs s = (s, Ret (map u cs))"
proof (induction cs)
  case (Cons c cs)
  then have "chunk_status c s = (s, Ret (u c))" by (simp add: chunk_status_def)
  with Cons show ?case by (simp add: retA_def)
qed (simp add: retA_def)

text \<open>An update of a file that is not yet final settles its state from its chunks: failed as soon
  as one of them failed, completed when there are chunks and all are complete, and otherwise the
  fraction of complete chunks; the row of the file in the database follows unless it was completed.\<close>

theorem file_progress_exact:
  assumes "file_id \<noteq> []" "obj_get (fileUploadCache s) file_id = Some f" "\<not> uf_uploaded f" "\<not> uf_failed f"
    and "\<forall>c \<in> set (uf_chunk_ids f). obj_get (chunkUploadCache s) c = Some (u c)"
    and "obj_get (file_tbl (db s)) file_id = Some row" "ids = uf_chunk_ids f"
  shows "\<exists>s' b f' row'. file_step file_id s = (s', Ret b) \<and> obj_get (fileUploadCache s') file_id = Some f' \<and>
    obj_get (file_tbl (db s')) file_id = Some row' \<and>
    uf_failed f' = (\<exists>c \<in> set ids. u c = UL_FAILED) \<and>
    uf_uploaded f' = (ids \<noteq> [] \<and> (\<forall>c \<in> set ids. u c = UL_COMPLETED)) \<and>
    (\<not> uf_failed f' \<longrightarrow> uf_progress f' =
       (if ids = [] then 0 else of_nat (length (filter (\<lambda>c. u c = UL_COMPLETED) ids)) / of_nat (length ids))) \<and>
    (uf_uploaded f' \<longrightarrow> f_ul_status row' = F_COMPLETED \<and> f_ul_progress row' = 1) \<and>
    (uf_failed f' \<longrightarrow> f_ul_status row' = (if f_ul_status row = F_COMPLETED then F_COMPLETED else F_FAILED))"
proof -
  have l: "load_file file_id s = (s, Ret f)" using assms(2) by (simp add: load_file_def)
  note cs = chunk_statuses_cached [OF assms(5)]
  have len: "length (filter (\<lambda>x. x = UL_COMPLETED) (map u ids)) = length (filter (\<lambda>c. u c = UL_COMPLETED) ids)"
    by (simp add: filter_map comp_def)
  have all: "length (filter (\<lambda>c. u c = UL_COMPLETED) ids) = length ids \<longleftrightarrow> (\<forall>c \<in> set ids. u c = UL_COMPLETED)"
    using filter_id_conv [of "\<lambda>c. u c = UL_COMPLETED" ids] by (metis length_filter_less less_irrefl filter_True)
  have e: "file_step file_id s =
    (if \<exists>c \<in> set ids. u c = UL_FAILED
     then (updateFileUlStatus file_id F_FAILED (uf_progress f) (set_file file_id (f\<lparr>uf_uploaded := False, uf_failed := True\<rparr>) s), Ret True)
     else if ids \<noteq> [] \<and> (\<forall>c \<in> set ids. u c = UL_COMPLETED)
     then (updateFileUlStatus file_id F_COMPLETED 1
         (set_file file_id (f\<lparr>uf_uploaded := True, uf_failed := False, uf_progress := 1\<rparr>) s), Ret True)
     else let prog = (if ids = [] then 0 else of_nat (length (filter (\<lambda>c. u c = UL_COMPLETED) ids)) / of_nat (length ids)) in
       if uf_progress f \<noteq> prog then (set_file file_id (f\<lparr>uf_progress := prog\<rparr>) s, Ret True) else (s, Ret False))"
  proof -
    have "UL_FAILED \<in> set (map u ids) \<longleftrightarrow> (\<exists>c \<in> set ids. u c = UL_FAILED)" by force
    moreover have "length (filter (\<lambda>c. u c = UL_COMPLETED) ids) \<noteq> 0 \<and>
        length (filter (\<lambda>c. u c = UL_COMPLETED) ids) = length ids \<longleftrightarrow> ids \<noteq> [] \<and> (\<forall>c \<in> set ids. u c = UL_COMPLETED)"
      unfolding all [symmetric] by auto
    ultimately show ?thesis
      using assms(1,3,4) l cs unfolding file_step_def Let_def assms(7) [symmetric]
      by (simp add: comp_def retA_def assms(7) [symmetric] del: length_0_conv length_greater_0_conv)
  qed
  show ?thesis unfolding e Let_def
    using assms(2,3,4,6) by (auto simp: set_file_def updateFileUlStatus_def)
qed

lemma file_progress_exact_witness:
  "\<exists>s' b f'. file_step ''f'' \<lparr>fileUploadCache =
       [(''f'', \<lparr>uf_uploaded = False, uf_failed = False, uf_progress = 0, uf_chunk_ids = [''a'', ''b''], uf_size = None\<rparr>)],
     dirUploadCache = [], chunkUploadCache = [(''a'', UL_COMPLETED), (''b'', UL_COMPLETED)], chunkParents = [],
     fileParents = [], dirParents = [], db = empty_store\<lparr>file_tbl := [(''f'', new_file)]\<rparr>\<rparr> = (s', Ret b) \<and>
     obj_get (fileUploadCache s') ''f'' = Some f' \<and> uf_uploaded f' \<and> \<not> uf_failed f' \<and> uf_progress f' = 1"
proof -
  define f where "f = \<lparr>uf_uploaded = False, uf_failed = False, uf_progress = 0, uf_chunk_ids = [''a'', ''b''], uf_size = None\<rparr>"
  define s where "s = \<lparr>fileUploadCache = [(''f'', f)],
     dirUploadCache = [], chunkUploadCache = [(''a'', UL_COMPLETED), (''b'', UL_COMPLETED)], chunkParents = [],
     fileParents = [], dirParents = [], db = empty_store\<lparr>file_tbl := [(''f'', new_file)]\<rparr>\<rparr>"
  have h: "obj_get (fileUploadCache s) ''f'' = Some f" "\<not> uf_uploaded f" "\<not> uf_failed f"
    "\<forall>c \<in> set (uf_chunk_ids f). obj_get (chunkUploadCache s) c = Some UL_COMPLETED"
    "obj_get (file_tbl (db s)) ''f'' = Some new_file" "[''a'', ''b''] = uf_chunk_ids f"
    by (simp_all add: s_def f_def)
  from file_progress_exact [OF _ h] obtain s' b f' where r: "file_step ''f'' s = (s', Ret b)"
    "obj_get (fileUploadCache s') ''f'' = Some f'" "\<not> uf_failed f'" "uf_uploaded f'"
    and p: "\<not> uf_failed f' \<longrightarrow> uf_progress f' = (if [''a'', ''b''] = [] then 0
      else of_nat (length (filter (\<lambda>c. UL_COMPLETED = UL_COMPLETED) [''a'', ''b''])) / of_nat (length [''a'', ''b'']))"
    by auto
  from p r(3) have "uf_progress f' = 1" by simp
  with r show ?thesis unfolding s_def f_def by blast
qed

text \<open>A file that failed once stays failed, also when its chunks are uploaded later.\<close>

lemma failed_file_stays:
  "file_id \<noteq> [] \<Longrightarrow> obj_get (fileUploadCache s) file_id = Some f \<Longrightarrow> uf_failed f \<Longrightarrow> file_step file_id s = (s, Ret False)"
  by (simp add: file_step_def load_file_def await_def retA_def)

end
