(* ===== verification/Uploader.thy ===== *)
theory Uploader
  imports Storage Progress
begin

text \<open>
  The upload loop and its workers: \<open>src/client/storage/uploader.ts\<close> and
  \<open>uploadWorkers.ts\<close>.  The loop is cut at its awaits: it begins, takes one
  chunk after the other, and ends; the workers finish in between, in any
  order.  The answers of the network are arguments.  A worker that has been
  taken and has no chunk yet, or is free, has no job.  The online check is
  not modelled: it tests a promise and never fails.
\<close>

section \<open>State\<close>

record worker =
  isFree :: bool
  slotIdx :: nat
  job :: "string option"

record uploader =
  up_db :: store
  workers :: "worker list"
  isUploadLoopActive :: bool
  retryUploadLoop :: bool
  todo :: "string list"
  soon :: nat
  completed_chunks :: "string list"

definition new_uploader :: "store \<Rightarrow> uploader" where
  "new_uploader st = \<lparr>up_db = st, workers = [], isUploadLoopActive = False, retryUploadLoop = False,
     todo = [], soon = 0, completed_chunks = []\<rparr>"

definition fresh_worker :: "nat \<Rightarrow> worker" where
  "fresh_worker i = \<lparr>isFree = False, slotIdx = i, job = None\<rparr>"

fun first_free :: "nat \<Rightarrow> worker list \<Rightarrow> nat option" where
  "first_free i [] = None"
| "first_free i (w # ws) = (if isFree w then Some i else first_free (Suc i) ws)"

definition tryGettingAvailableUploadWorker :: "config \<Rightarrow> worker list \<Rightarrow> worker list \<times> nat option" where
  "tryGettingAvailableUploadWorker cfg ws =
     (if length ws < CONCURRENT_UPLOAD_LIMIT cfg then (ws @ [fresh_worker (length ws)], Some (length ws))
      else case first_free 0 ws of
             None \<Rightarrow> (ws, None)
           | Some i \<Rightarrow> (ws[i := fresh_worker i], Some i))"

section \<open>The loop\<close>

definition upload_candidates :: "config \<Rightarrow> int \<Rightarrow> store \<Rightarrow> string list" where
  "upload_candidates cfg now st =
     (let limit = CONCURRENT_UPLOAD_LIMIT cfg;
          awaiting = findAll (\<lambda>c. ul_status c = UL_ENQUEUED) (chunk_tbl st);
          stale = findAll (\<lambda>c. ul_status c = UL_IN_PROGRESS \<and> isExpired now c) (chunk_tbl st)
      in map fst (take limit awaiting @ take limit stale))"

definition uploadLoop_begin :: "config \<Rightarrow> int \<Rightarrow> uploader \<Rightarrow> uploader" where
  "uploadLoop_begin cfg now u =
     (if isUploadLoopActive u then u\<lparr>retryUploadLoop := True\<rparr>
      else let ids = upload_candidates cfg now (up_db u) in
           if ids = [] then u else u\<lparr>isUploadLoopActive := True, todo := ids\<rparr>)"

definition set_worker :: "nat \<Rightarrow> (worker \<Rightarrow> worker) \<Rightarrow> uploader \<Rightarrow> uploader" where
  "set_worker i f u = u\<lparr>workers := (workers u)[i := f (workers u ! i)]\<rparr>"

text \<open>One turn of the loop; without a slot the loop stops, and a pending retry is kept.\<close>

definition uploadLoop_step :: "config \<Rightarrow> int \<Rightarrow> uploader \<Rightarrow> uploader result" where
  "uploadLoop_step cfg now u =
     (case todo u of
        [] \<Rightarrow> Inr u
      | c # cs \<Rightarrow>
          (case tryGettingAvailableUploadWorker cfg (workers u) of
             (_, None) \<Rightarrow> Inr (u\<lparr>isUploadLoopActive := False, todo := []\<rparr>)
           | (ws, Some i) \<Rightarrow>
               (case findOrFail c (chunk_tbl (up_db u)) of
                  Inl e \<Rightarrow> Inl e
                | Inr row \<Rightarrow>
                    if ul_status row = UL_ENQUEUED \<or> ul_status row = UL_IN_PROGRESS \<and> isExpired now row
                    then Inr (set_worker i (\<lambda>w. w\<lparr>job := Some c\<rparr>)
                           (u\<lparr>workers := ws, todo := cs,
                              up_db := chunk_update True False c (\<lambda>r. ul_status r \<notin> {UL_FAILED, UL_COMPLETED})
                                (\<lambda>r. r\<lparr>ul_status := UL_IN_PROGRESS, ch_expires := Some (now + UPLOAD_EXPIRE cfg)\<rparr>) (up_db u)\<rparr>))
                    else Inr (set_worker i (\<lambda>w. w\<lparr>isFree := True\<rparr>) (u\<lparr>workers := ws, todo := cs\<rparr>)))))"

definition uploadLoop_end :: "uploader \<Rightarrow> uploader" where
  "uploadLoop_end u =
     (if retryUploadLoop u then u\<lparr>isUploadLoopActive := False, retryUploadLoop := False, soon := soon u + 1\<rparr>
      else u\<lparr>isUploadLoopActive := False\<rparr>)"

section \<open>The workers\<close>

text \<open>The chunk was complete already or is complete now; whether the progress is to be updated.\<close>

definition markChunkAsSuccessfulUpload :: "string \<Rightarrow> store \<Rightarrow> (store \<times> bool) result" where
  "markChunkAsSuccessfulUpload chunkId st =
     (case findOrFail chunkId (chunk_tbl st) of
        Inl e \<Rightarrow> Inl e
      | Inr c \<Rightarrow>
          if ul_status c \<noteq> UL_IN_PROGRESS then Inr (st, False)
          else Inr (chunk_update True False chunkId (\<lambda>r. ul_status r = UL_IN_PROGRESS)
                      (\<lambda>r. r\<lparr>ul_status := UL_COMPLETED\<rparr>) st, True))"

text \<open>\<open>doChunkUpload\<close>: \<open>onNetwork\<close> is what \<open>doesChunkExistOnTheNetwork\<close> answers, \<open>posted\<close> the status
  in the response of the bundler, or nothing when the request fails.\<close>

definition doChunkUpload :: "config \<Rightarrow> bool \<Rightarrow> string option \<Rightarrow> string \<Rightarrow> store \<Rightarrow> store \<times> (exn + bool)" where
  "doChunkUpload cfg onNetwork posted chunkId st =
     (let failed = (\<lambda>e. case markAsFailedOrRestart cfg chunkId st of Inl e2 \<Rightarrow> (st, Inl e2) | Inr st' \<Rightarrow> (st', Inl e)) in
      if obj_get (disk st) (UPLOAD_CACHE_PATH cfg, chunk_file chunkId) = None then failed (PlainError ''ENOENT'')
      else if \<not> onNetwork \<and> posted \<noteq> Some ''ok''
      then failed (PlainError (''Chunk '' @ chunkId @ '' uploading failed''))
      else case markChunkAsSuccessfulUpload chunkId st of
             Inl e \<Rightarrow> failed e
           | Inr (st', done') \<Rightarrow> (st', Inr done'))"

text \<open>The end of \<open>startChunkUpload\<close>: on both paths the slot is freed and the loop is called again.\<close>

definition startChunkUpload :: "config \<Rightarrow> bool \<Rightarrow> string option \<Rightarrow> nat \<Rightarrow> uploader \<Rightarrow> uploader" where
  "startChunkUpload cfg onNetwork posted i u =
     (case job (workers u ! i) of
        None \<Rightarrow> u
      | Some c \<Rightarrow>
          (case doChunkUpload cfg onNetwork posted c (up_db u) of
             (st, r) \<Rightarrow>
               set_worker i (\<lambda>w. w\<lparr>isFree := True, job := None\<rparr>)
                 (u\<lparr>up_db := st, soon := soon u + 1,
                    completed_chunks := completed_chunks u @ (if r = Inr True then [c] else [])\<rparr>)))"

text \<open>At the start of the node; the second update has the column of the first.\<close>

definition restartUploadsDownloads :: "store \<Rightarrow> store" where
  "restartUploadsDownloads st =
     (let t1 = update_where (\<lambda>c. ul_status c = UL_IN_PROGRESS) (\<lambda>c. c\<lparr>ul_status := UL_ENQUEUED\<rparr>) (chunk_tbl st);
          t2 = update_where (\<lambda>c. ul_status c = UL_IN_PROGRESS) (\<lambda>c. c\<lparr>ul_status := UL_ENQUEUED\<rparr>) t1
      in st\<lparr>chunk_tbl := t2\<rparr>)"

section \<open>Runs\<close>

definition none_expired :: "int \<Rightarrow> uploader \<Rightarrow> bool" where
  "none_expired now u \<longleftrightarrow> (\<forall>k c. obj_get (chunk_tbl (up_db u)) k = Some c \<longrightarrow>
     ul_status c = UL_IN_PROGRESS \<longrightarrow> \<not> isExpired now c)"

text \<open>The runs of the uploader after a restart; \<open>timely\<close> runs are those in which no attempt
  outlives its expiry.\<close>

inductive up_reach :: "config \<Rightarrow> (string \<Rightarrow> string) \<Rightarrow> bool \<Rightarrow> uploader \<Rightarrow> bool"
  for cfg H timely where
  start: "up_reach cfg H timely (new_uploader (restartUploadsDownloads st))"
| enqueue: "up_reach cfg H timely u \<Longrightarrow>
    up_reach cfg H timely (u\<lparr>up_db := enqueueChunksForUpload cfg H cks fileId (up_db u), soon := soon u + 1\<rparr>)"
| loop_begin: "up_reach cfg H timely u \<Longrightarrow> (timely \<Longrightarrow> none_expired now u) \<Longrightarrow>
    up_reach cfg H timely (uploadLoop_begin cfg now u)"
| loop_step: "up_reach cfg H timely u \<Longrightarrow> (timely \<Longrightarrow> none_expired now u) \<Longrightarrow> isUploadLoopActive u \<Longrightarrow>
    uploadLoop_step cfg now u = Inr u' \<Longrightarrow> up_reach cfg H timely u'"
| loop_end: "up_reach cfg H timely u \<Longrightarrow> isUploadLoopActive u \<Longrightarrow> todo u = [] \<Longrightarrow> up_reach cfg H timely (uploadLoop_end u)"
| worker_end: "up_reach cfg H timely u \<Longrightarrow> i < length (workers u) \<Longrightarrow>
    up_reach cfg H timely (startChunkUpload cfg onNetwork posted i u)"

text \<open>The chunks in the slots.\<close>

definition running_uploads :: "worker list \<Rightarrow> string list" where
  "running_uploads ws = map (the \<circ> job) (filter (\<lambda>w. job w \<noteq> None) ws)"

lemma running_simps [simp]:
  "running_uploads [] = []" "running_uploads (xs @ ys) = running_uploads xs @ running_uploads ys"
  "running_uploads (w # ws) = (case job w of None \<Rightarrow> running_uploads ws | Some c \<Rightarrow> c # running_uploads ws)"
  by (auto simp: running_uploads_def split: option.splits)

lemma set_running: "c \<in> set (running_uploads ws) \<longleftrightarrow> (\<exists>w \<in> set ws. job w = Some c)"
  by (force simp: running_uploads_def)

text \<open>At most the configured number of slots, one that is not free has a chunk, the chunks to do have
  rows; and in timely runs every chunk in a slot is in progress and is in no other slot.\<close>

definition up_inv :: "config \<Rightarrow> bool \<Rightarrow> uploader \<Rightarrow> bool" where
  "up_inv cfg timely u \<longleftrightarrow> length (workers u) \<le> CONCURRENT_UPLOAD_LIMIT cfg \<and>
     (\<forall>w \<in> set (workers u). isFree w \<longleftrightarrow> job w = None) \<and>
     (\<forall>c \<in> set (todo u). obj_get (chunk_tbl (up_db u)) c \<noteq> None) \<and>
     (timely \<longrightarrow>
        (\<forall>c \<in> set (running_uploads (workers u)).
           \<exists>r. obj_get (chunk_tbl (up_db u)) c = Some r \<and> ul_status r = UL_IN_PROGRESS) \<and>
        distinct (running_uploads (workers u)))"

lemma first_free_Some: "first_free k ws = Some i \<Longrightarrow> k \<le> i \<and> i - k < length ws \<and> isFree (ws ! (i - k))"
proof (induction ws arbitrary: k)
  case (Cons w ws)
  show ?case
  proof (cases "isFree w")
    case False
    with Cons.prems have f: "first_free (Suc k) ws = Some i" by simp
    from Cons.IH [OF f] show ?thesis by (auto simp: nth_Cons' less_diff_conv)
  qed (use Cons.prems in auto)
qed simp

lemma first_free_None: "first_free k ws = None \<longleftrightarrow> (\<forall>w \<in> set ws. \<not> isFree w)"
  by (induction ws arbitrary: k) auto

lemma tryGetting_Some:
  assumes "tryGettingAvailableUploadWorker cfg ws = (ws', Some i)" "\<forall>w \<in> set ws. isFree w \<longleftrightarrow> job w = None"
    "length ws \<le> CONCURRENT_UPLOAD_LIMIT cfg"
  shows "\<exists>pre post. ws' = pre @ fresh_worker i # post \<and> i = length pre \<and>
    length ws' \<le> CONCURRENT_UPLOAD_LIMIT cfg \<and> running_uploads ws = running_uploads (pre @ post) \<and>
    set (pre @ post) \<subseteq> set ws"
proof (cases "length ws < CONCURRENT_UPLOAD_LIMIT cfg")
  case True
  then show ?thesis
    using assms(1) by - (rule exI [of _ ws], rule exI [of _ "[]"], auto simp: tryGettingAvailableUploadWorker_def)
next
  case False
  with assms(1) have f: "first_free 0 ws = Some i" "ws' = ws[i := fresh_worker i]"
    by (auto simp: tryGettingAvailableUploadWorker_def split: option.splits)
  with first_free_Some [of 0 ws i] have i: "i < length ws" "isFree (ws ! i)" by auto
  define pre post where "pre = take i ws" and "post = drop (Suc i) ws"
  have ws: "ws = pre @ ws ! i # post" unfolding pre_def post_def using i(1) by (rule id_take_nth_drop)
  have "job (ws ! i) = None" using assms(2) i by simp
  then have r: "running_uploads ws = running_uploads (pre @ post)" by (subst ws) simp
  have "set ws = set (pre @ ws ! i # post)" using ws by (rule arg_cong)
  then have "set (pre @ post) \<subseteq> set ws" by auto
  moreover have "length ws' \<le> CONCURRENT_UPLOAD_LIMIT cfg" using f(2) assms(3) by simp
  moreover have "ws' = pre @ fresh_worker i # post" "i = length pre"
    using f(2) i(1) by (simp_all add: pre_def post_def upd_conv_take_nth_drop)
  ultimately show ?thesis using r by - (rule exI [of _ pre], rule exI [of _ post], intro conjI)
qed

lemma enqueue_chunk_tbl:
  "chunk_tbl (enqueueChunksForUpload cfg H cks i st) =
     update_where (\<lambda>r. ul_status r \<in> set [UL_NOT_STARTED, UL_FAILED]) (\<lambda>r. r\<lparr>ul_status := UL_ENQUEUED, dl_status := DL_COMPLETED\<rparr>)
       (bulk_create (map (\<lambda>(i, d). (hash_id H d, new_chunk\<lparr>ul_status := UL_ENQUEUED, dl_status := DL_COMPLETED\<rparr>)) cks) (chunk_tbl st))"
proof -
  have "chunk_tbl (foldl (\<lambda>s (i, d). write_missing dir (hash_id H d, d) s) st cks) = chunk_tbl st" for dir
    by (induction cks arbitrary: st) (auto simp: write_missing_def)
  then show ?thesis by (simp add: enqueueChunksForUpload_def Let_def comp_def case_prod_unfold)
qed

lemma enqueue_row:
  "obj_get (chunk_tbl st) k = Some r \<Longrightarrow>
   \<exists>r'. obj_get (chunk_tbl (enqueueChunksForUpload cfg H cks i st)) k = Some r' \<and> (ul_status r = UL_IN_PROGRESS \<longrightarrow> r' = r)"
  by (auto simp: enqueue_chunk_tbl obj_get_bulk_create)

lemma doChunkUpload_row:
  "doChunkUpload cfg n p c st = (st', r) \<Longrightarrow>
   (obj_get (chunk_tbl st') k = None \<longleftrightarrow> obj_get (chunk_tbl st) k = None) \<and>
   (k \<noteq> c \<longrightarrow> obj_get (chunk_tbl st') k = obj_get (chunk_tbl st) k)"
  by (auto simp: doChunkUpload_def markAsFailedOrRestart_def markChunkAsSuccessfulUpload_def Let_def
      option.map_ident split: if_splits sum.splits)

lemma up_inv_step:
  assumes i: "up_inv cfg timely u" and n: "timely \<Longrightarrow> none_expired now u" and s: "uploadLoop_step cfg now u = Inr u'"
  shows "up_inv cfg timely u'"
proof (cases "todo u")
  case Nil
  with i s show ?thesis by (simp add: uploadLoop_step_def)
next
  case (Cons c cs)
  obtain ws o' where t: "tryGettingAvailableUploadWorker cfg (workers u) = (ws, o')"
    by (cases "tryGettingAvailableUploadWorker cfg (workers u)")
  show ?thesis
  proof (cases o')
    case None
    with i s t Cons show ?thesis by (auto simp: uploadLoop_step_def up_inv_def)
  next
    case (Some k)
    obtain pre post where ws: "ws = pre @ fresh_worker k # post" "k = length pre"
      "length ws \<le> CONCURRENT_UPLOAD_LIMIT cfg" "running_uploads (workers u) = running_uploads (pre @ post)"
      "set (pre @ post) \<subseteq> set (workers u)"
      using tryGetting_Some [of cfg "workers u" ws k] t Some i unfolding up_inv_def by blast
    obtain row where row: "obj_get (chunk_tbl (up_db u)) c = Some row"
      using i Cons by (auto simp: up_inv_def)
    have slots: "\<forall>w \<in> set (pre @ post). isFree w \<longleftrightarrow> job w = None" using i ws(5) unfolding up_inv_def by blast
    show ?thesis
    proof (cases "ul_status row = UL_ENQUEUED \<or> ul_status row = UL_IN_PROGRESS \<and> isExpired now row")
      case True
      define f where "f = (\<lambda>r::chunk. r\<lparr>ul_status := UL_IN_PROGRESS, ch_expires := Some (now + UPLOAD_EXPIRE cfg)\<rparr>)"
      have u': "workers u' = pre @ (fresh_worker k)\<lparr>job := Some c\<rparr> # post" "todo u' = cs"
        "chunk_tbl (up_db u') = update_id c (\<lambda>r. ul_status r \<notin> {UL_FAILED, UL_COMPLETED}) f (chunk_tbl (up_db u))"
        using s t Cons Some row True ws by (auto simp: uploadLoop_step_def findOrFail_def set_worker_def f_def)
      have nr: "c \<notin> set (running_uploads (pre @ post))" if timely
      proof
        assume "c \<in> set (running_uploads (pre @ post))"
        then have "ul_status row = UL_IN_PROGRESS" using i that row ws(4) unfolding up_inv_def by force
        with True n [OF that] row show False unfolding none_expired_def by auto
      qed
      have at_c: "\<exists>r. obj_get (chunk_tbl (up_db u')) c = Some r \<and> ul_status r = UL_IN_PROGRESS"
        using True by (auto simp: u'(3) row f_def)
      have other: "obj_get (chunk_tbl (up_db u')) k = obj_get (chunk_tbl (up_db u)) k" if "k \<noteq> c" for k
        using that by (simp add: u'(3) option.map_ident)
      have run: "running_uploads (workers u') = running_uploads pre @ c # running_uploads post"
        by (simp add: u'(1) fresh_worker_def)
      have "obj_get (chunk_tbl (up_db u')) k \<noteq> None" if "k \<in> set cs" for k
        using i that Cons by (auto simp: up_inv_def u'(3))
      moreover have "\<exists>r. obj_get (chunk_tbl (up_db u')) k = Some r \<and> ul_status r = UL_IN_PROGRESS"
        if timely "k \<in> set (running_uploads (workers u'))" for k
        using at_c other [of k] i that ws(4) unfolding up_inv_def run by (cases "k = c") auto
      moreover have "distinct (running_uploads (workers u'))" if timely
        using i nr [OF that] ws(4) that unfolding up_inv_def run by auto
      ultimately show ?thesis
        using u'(1,2) ws(1,3) slots unfolding up_inv_def by (auto simp: fresh_worker_def)
    next
      case False
      have u': "workers u' = pre @ (fresh_worker k)\<lparr>isFree := True\<rparr> # post" "todo u' = cs" "up_db u' = up_db u"
        using s t Cons Some row False ws by (auto simp: uploadLoop_step_def findOrFail_def set_worker_def)
      with i ws slots Cons show ?thesis unfolding up_inv_def by (auto simp: fresh_worker_def)
    qed
  qed
qed

lemma up_inv_worker:
  assumes i: "up_inv cfg timely u" and l: "k < length (workers u)"
  shows "up_inv cfg timely (startChunkUpload cfg n p k u)"
proof (cases "job (workers u ! k)")
  case None
  with i show ?thesis by (simp add: startChunkUpload_def)
next
  case (Some c)
  obtain st r where d: "doChunkUpload cfg n p c (up_db u) = (st, r)" by (cases "doChunkUpload cfg n p c (up_db u)")
  define pre w post where "pre = take k (workers u)" and "w = workers u ! k" and "post = drop (Suc k) (workers u)"
  have ws: "workers u = pre @ w # post" unfolding pre_def w_def post_def using l by (rule id_take_nth_drop)
  have u': "workers (startChunkUpload cfg n p k u) = pre @ w\<lparr>isFree := True, job := None\<rparr> # post"
    "todo (startChunkUpload cfg n p k u) = todo u" "up_db (startChunkUpload cfg n p k u) = st"
    using Some d l by (simp_all add: startChunkUpload_def set_worker_def upd_conv_take_nth_drop pre_def w_def post_def)
  have rows: "obj_get (chunk_tbl st) j = None \<longleftrightarrow> obj_get (chunk_tbl (up_db u)) j = None"
    "j \<noteq> c \<Longrightarrow> obj_get (chunk_tbl st) j = obj_get (chunk_tbl (up_db u)) j" for j
    using doChunkUpload_row [OF d] by blast+
  have run: "running_uploads (workers u) = running_uploads pre @ c # running_uploads post"
    unfolding ws using Some [folded w_def] by simp
  have t: "(\<forall>c \<in> set (running_uploads (pre @ post)). \<exists>r. obj_get (chunk_tbl st) c = Some r \<and> ul_status r = UL_IN_PROGRESS) \<and>
      distinct (running_uploads (pre @ post))" if timely
  proof -
    have d: "distinct (running_uploads pre @ c # running_uploads post)"
      and all: "\<forall>j \<in> set (running_uploads pre @ c # running_uploads post).
        \<exists>r. obj_get (chunk_tbl (up_db u)) j = Some r \<and> ul_status r = UL_IN_PROGRESS"
      using i that unfolding up_inv_def run by blast+
    have "\<exists>r. obj_get (chunk_tbl st) j = Some r \<and> ul_status r = UL_IN_PROGRESS"
      if "j \<in> set (running_uploads (pre @ post))" for j
    proof -
      from that d have "j \<noteq> c" by auto
      then have "obj_get (chunk_tbl st) j = obj_get (chunk_tbl (up_db u)) j" by (rule rows(2))
      moreover have "j \<in> set (running_uploads pre @ c # running_uploads post)" using that by auto
      ultimately show ?thesis using all by metis
    qed
    with d show ?thesis by simp
  qed
  have "length (workers u) \<le> CONCURRENT_UPLOAD_LIMIT cfg" "\<forall>w \<in> set (workers u). isFree w \<longleftrightarrow> job w = None"
    "\<forall>c \<in> set (todo u). obj_get (chunk_tbl (up_db u)) c \<noteq> None" using i unfolding up_inv_def by blast+
  with t rows(1) show ?thesis unfolding up_inv_def u' by (simp add: ws)
qed

lemma up_inv_begin: "up_inv cfg timely u \<Longrightarrow> up_inv cfg timely (uploadLoop_begin cfg now u)"
proof -
  assume i: "up_inv cfg timely u"
  have "\<forall>c \<in> set (upload_candidates cfg now (up_db u)). obj_get (chunk_tbl (up_db u)) c \<noteq> None"
  proof
    fix c assume "c \<in> set (upload_candidates cfg now (up_db u))"
    then obtain r where "(c, r) \<in> set (chunk_tbl (up_db u))"
      unfolding upload_candidates_def Let_def findAll_def by (auto dest!: in_set_takeD)
    then show "obj_get (chunk_tbl (up_db u)) c \<noteq> None"
      unfolding obj_get_None_iff by (simp add: rev_image_eqI)
  qed
  with i show ?thesis by (simp add: uploadLoop_begin_def up_inv_def Let_def)
qed

lemma up_reach_inv: "up_reach cfg H timely u \<Longrightarrow> up_inv cfg timely u"
proof (induction rule: up_reach.induct)
  case (start st)
  then show ?case by (simp add: up_inv_def new_uploader_def)
next
  case (enqueue u cks fileId)
  have "\<exists>r'. obj_get (chunk_tbl (enqueueChunksForUpload cfg H cks fileId (up_db u))) k = Some r' \<and>
      (ul_status r = UL_IN_PROGRESS \<longrightarrow> ul_status r' = UL_IN_PROGRESS)"
    if "obj_get (chunk_tbl (up_db u)) k = Some r" for k r
    using enqueue_row [OF that] by metis
  with enqueue.IH show ?case unfolding up_inv_def by simp (meson option.exhaust_sel option.discI)
next
  case (loop_end u)
  then show ?case by (simp add: up_inv_def uploadLoop_end_def)
qed (auto intro: up_inv_begin up_inv_step up_inv_worker)


text \<open>C37: the loop makes progress: called while it is not active, with a chunk waiting and a slot
  missing or free, its first turn starts the upload of the first chunk waiting.\<close>

theorem upload_loop_progresses:
  assumes "up_reach cfg H timely u" "\<not> isUploadLoopActive u"
    and "findAll (\<lambda>c. ul_status c = UL_ENQUEUED) (chunk_tbl (up_db u)) = (c, row) # rest" "distinct (keys (chunk_tbl (up_db u)))"
    and "length (workers u) < CONCURRENT_UPLOAD_LIMIT cfg \<or> (\<exists>w \<in> set (workers u). isFree w)"
  shows "\<exists>u'. uploadLoop_step cfg now (uploadLoop_begin cfg now u) = Inr u' \<and>
    c \<in> set (running_uploads (workers u')) \<and>
    map_option ul_status (obj_get (chunk_tbl (up_db u')) c) = Some UL_IN_PROGRESS"
proof -
  have i: "up_inv cfg timely u" using up_reach_inv [OF assms(1)] .
  have lim: "0 < CONCURRENT_UPLOAD_LIMIT cfg"
  proof (cases "workers u")
    case (Cons w ws)
    then have "length (workers u) > 0" by simp
    moreover have "length (workers u) \<le> CONCURRENT_UPLOAD_LIMIT cfg" using i unfolding up_inv_def by blast
    ultimately show ?thesis by linarith
  qed (use assms(5) in auto)
  then obtain cs where td: "upload_candidates cfg now (up_db u) = c # cs"
    using assms(3) by (cases "CONCURRENT_UPLOAD_LIMIT cfg") (auto simp: upload_candidates_def Let_def)
  have mem: "(c, row) \<in> set (chunk_tbl (up_db u))" "ul_status row = UL_ENQUEUED"
    using assms(3) unfolding findAll_def by (auto dest!: filter_eq_ConsD)
  then have row: "obj_get (chunk_tbl (up_db u)) c = Some row" using assms(4) by simp
  have "snd (tryGettingAvailableUploadWorker cfg (workers u)) \<noteq> None"
    using assms(5) first_free_None [of 0 "workers u"]
    by (auto simp: tryGettingAvailableUploadWorker_def split: option.splits)
  then obtain ws k where t: "tryGettingAvailableUploadWorker cfg (workers u) = (ws, Some k)" by (metis prod.collapse option.exhaust)
  obtain pre post where ws: "ws = pre @ fresh_worker k # post" "k = length pre"
    using tryGetting_Some [OF t] i unfolding up_inv_def by blast
  show ?thesis
    using assms(2) td t row mem(2) ws
    by (simp add: uploadLoop_begin_def uploadLoop_step_def findOrFail_def set_worker_def)
qed

definition toy_uploads :: uploader where
  "toy_uploads = new_uploader (restartUploadsDownloads
     (empty_store\<lparr>chunk_tbl := [(''a'', new_chunk\<lparr>ul_status := UL_IN_PROGRESS\<rparr>)]\<rparr>))"

definition one_slot :: config where
  "one_slot = \<lparr>CHUNK_SIZE = 1000, UPLOAD_CACHE_PATH = ''u'', DOWNLOAD_CACHE_PATH = ''d'', FILES_DIR = ''f'',
     UPLOAD_RETRY_LIMIT = 3, UPLOAD_EXPIRE = 1000, CONCURRENT_UPLOAD_LIMIT = 1\<rparr>"

lemma toy_row: "chunk_tbl (up_db toy_uploads) = [(''a'', new_chunk\<lparr>ul_status := UL_ENQUEUED\<rparr>)]"
  by (simp add: toy_uploads_def new_uploader_def restartUploadsDownloads_def update_where_def)

lemma upload_loop_progresses_witness:
  "\<exists>u'. uploadLoop_step one_slot 5 (uploadLoop_begin one_slot 5 toy_uploads) = Inr u' \<and>
    ''a'' \<in> set (running_uploads (workers u')) \<and>
    map_option ul_status (obj_get (chunk_tbl (up_db u')) ''a'') = Some UL_IN_PROGRESS"
proof (rule upload_loop_progresses)
  show "up_reach one_slot (\<lambda>x. x) False toy_uploads" unfolding toy_uploads_def by (rule up_reach.start)
  show "findAll (\<lambda>c. ul_status c = UL_ENQUEUED) (chunk_tbl (up_db toy_uploads)) =
      (''a'', new_chunk\<lparr>ul_status := UL_ENQUEUED\<rparr>) # []"
    by (simp add: toy_row findAll_def)
qed (simp_all add: toy_row toy_uploads_def new_uploader_def one_slot_def restartUploadsDownloads_def update_where_def)


end
