(* ===== verification/Events.thy ===== *)
theory Events
  imports Models Json "HOL-Library.Multiset"
begin

text \<open>
  The cache of contract events of \<open>src/network/providers/ethereum.js\<close> over the tables of
  \<open>src/db/models/event.js\<close> and \<open>event_scan.js\<close>.  \<open>getPastEvents\<close> of web3
  is an argument; the loop over pages is a partial function, because it does not end
  for a page size that is not positive.  Database errors are left out.
\<close>

section \<open>Tables\<close>

text \<open>An event as web3 returns it; the block number orders them.\<close>

record chain_event =
  ce_id :: string
  ce_address :: string
  ce_block :: int
  ce_tx_hash :: string
  ce_tx_index :: int
  ce_block_hash :: string
  ce_log_index :: int
  ce_removed :: bool
  ce_returns :: "(string, json) obj"
  ce_name :: "string option"
  ce_signature :: "string option"
  ce_data :: string
  ce_topics :: "string list"

record event_row =
  ev_raw_id :: string
  ev_chain :: string
  ev_contract :: string
  ev_block :: int
  ev_tx_hash :: string
  ev_tx_index :: int
  ev_block_hash :: string
  ev_log_index :: int
  ev_removed :: bool
  ev_returns :: "(string, json) obj"
  ev_name :: "string option"
  ev_signature :: "string option"
  ev_raw :: "string \<times> string list"
  ev_topic0 :: "string option"
  ev_topic1 :: "string option"
  ev_topic2 :: "string option"

record scan_row =
  sc_contract :: string
  sc_chain :: string
  from_block :: int
  to_block :: int

record event_db =
  event_tbl :: "(string, event_row) obj"
  scan_tbl :: "(string, scan_row) obj"

definition empty_db :: event_db where
  "empty_db = \<lparr>event_tbl = [], scan_tbl = []\<rparr>"

section \<open>Storing a range of blocks\<close>

text \<open>\<open>topics[n] ? topics[n] : null\<close>: an empty string is null as well.\<close>

definition topic :: "nat \<Rightarrow> string list \<Rightarrow> string option" where
  "topic n ts = (if n < length ts \<and> ts ! n \<noteq> [] then Some (ts ! n) else None)"

definition event_key :: "(string \<Rightarrow> string) \<Rightarrow> string \<Rightarrow> chain_event \<Rightarrow> string" where
  "event_key H addr e = hex_encode (H (addr @ ''_'' @ ce_id e @ ''_'' @ ce_tx_hash e))"

definition row_of_event :: "string \<Rightarrow> string \<Rightarrow> chain_event \<Rightarrow> event_row" where
  "row_of_event chain addr e =
     \<lparr>ev_raw_id = ce_id e, ev_chain = chain, ev_contract = addr, ev_block = ce_block e,
      ev_tx_hash = ce_tx_hash e, ev_tx_index = ce_tx_index e, ev_block_hash = ce_block_hash e,
      ev_log_index = ce_log_index e, ev_removed = ce_removed e, ev_returns = ce_returns e,
      ev_name = ce_name e, ev_signature = ce_signature e, ev_raw = (ce_data e, ce_topics e),
      ev_topic0 = topic 0 (ce_topics e), ev_topic1 = topic 1 (ce_topics e), ev_topic2 = topic 2 (ce_topics e)\<rparr>"

definition store_event :: "(string \<Rightarrow> string) \<Rightarrow> string \<Rightarrow> string \<Rightarrow> event_db \<Rightarrow> chain_event \<Rightarrow> event_db" where
  "store_event H chain addr db e =
     db\<lparr>event_tbl := obj_set (event_key H addr e) (row_of_event chain addr e) (event_tbl db)\<rparr>"

definition scan_id :: "string \<Rightarrow> int \<Rightarrow> int \<Rightarrow> string" where
  "scan_id addr f t = addr @ ''_'' @ show_int f @ ''_'' @ show_int t"

definition performScanForContractEvents ::
  "(string \<Rightarrow> string) \<Rightarrow> (int \<Rightarrow> int \<Rightarrow> chain_event list result) \<Rightarrow> string \<Rightarrow> string \<Rightarrow>
   int \<Rightarrow> int \<Rightarrow> event_db \<Rightarrow> event_db \<times> unit result" where
  "performScanForContractEvents H getPast chain addr f t db =
     (case getPast f t of
        Inl e \<Rightarrow> (db, Inl e)
      | Inr evs \<Rightarrow>
          (let db1 = foldl (store_event H chain addr) db evs;
               r = \<lparr>sc_contract = addr, sc_chain = chain, from_block = f, to_block = t\<rparr>
           in (db1\<lparr>scan_tbl := obj_set (scan_id addr f t) r (scan_tbl db1)\<rparr>, Inr ())))"

section \<open>Renewing the cache\<close>

text \<open>The \<open>where\<close> of the query for stored ranges, as the code has it.\<close>

definition scan_match :: "string \<Rightarrow> string \<Rightarrow> int \<Rightarrow> int \<Rightarrow> scan_row \<Rightarrow> bool" where
  "scan_match chain addr f t r \<longleftrightarrow> sc_contract r = addr \<and> sc_chain r = chain \<and>
     (to_block r \<ge> f \<and> to_block r \<le> t \<or>
      from_block r \<ge> f \<and> from_block r \<le> t \<or>
      from_block r \<le> f \<and> from_block r \<ge> t)"

text \<open>The ranges found, as (first block, last block, fake), in the order of their first block,
  and the fake range that ends the loop.\<close>

definition scanned_ranges :: "string \<Rightarrow> string \<Rightarrow> int \<Rightarrow> int \<Rightarrow> event_db \<Rightarrow> (int \<times> int \<times> bool) list" where
  "scanned_ranges chain addr f t db =
     map (\<lambda>r. (from_block r, to_block r, False))
       (sort_key from_block (map snd (findAll (scan_match chain addr f t) (scan_tbl db))))
     @ [(t + 1, t + 1, True)]"

text \<open>The loop over the pages of one gap.\<close>

partial_function (option) scan_pages ::
  "(int \<Rightarrow> int \<Rightarrow> 's \<Rightarrow> 's \<times> unit result) \<Rightarrow> int \<Rightarrow> int \<Rightarrow> int \<Rightarrow> int \<Rightarrow> 's \<Rightarrow>
   ('s \<times> unit result) option" where
  "scan_pages scan page q_to cursor_end f db =
     (if f \<le> cursor_end then
        (case scan f (min (min q_to (f + page - 1)) cursor_end) db of
           (db', Inl e) \<Rightarrow> Some (db', Inl e)
         | (db', Inr _) \<Rightarrow> scan_pages scan page q_to cursor_end (f + page) db')
      else Some (db, Inr ()))"

fun scan_loop ::
  "(int \<Rightarrow> int \<Rightarrow> 's \<Rightarrow> 's \<times> unit result) \<Rightarrow> int \<Rightarrow> int \<Rightarrow> (int \<times> int \<times> bool) list \<Rightarrow>
   int \<Rightarrow> int \<Rightarrow> 's \<Rightarrow> ('s \<times> int result) option" where
  "scan_loop scan page q_to [] cursor max_scanned db = Some (db, Inr max_scanned)"
| "scan_loop scan page q_to ((rf, rt, fake) # rs) cursor max_scanned db =
     (let gap = (if rf \<le> cursor then Some (db, Inr ())
                 else if rf - 1 - cursor \<ge> 0 then scan_pages scan page q_to (rf - 1) cursor db
                 else Some (db, Inr ()));
          cursor' = max cursor (rt + 1);
          max_scanned' = (if \<not> fake then max max_scanned rt else max_scanned)
      in case gap of
           None \<Rightarrow> None
         | Some (db', Inl e) \<Rightarrow> Some (db', Inl e)
         | Some (db', Inr _) \<Rightarrow>
             if cursor' > q_to then Some (db', Inr max_scanned')
             else scan_loop scan page q_to rs cursor' max_scanned' db')"

text \<open>The end of the renewal: \<open>EventScan.findOne()\<close> has no condition, so the first row of
  the table is taken, whatever its contract.\<close>

definition collapse_ranges :: "string \<Rightarrow> string \<Rightarrow> int \<Rightarrow> int \<Rightarrow> int \<Rightarrow> event_db \<Rightarrow> event_db" where
  "collapse_ranges chain addr f t max_scanned db =
     (case scan_tbl db of
        [] \<Rightarrow> db
      | (i, r) # _ \<Rightarrow>
          if from_block r = f \<and> to_block r = max_scanned then db
          else
            (let r' = r\<lparr>from_block := min (from_block r) f, to_block := max (to_block r) max_scanned\<rparr>;
                 tbl = obj_set i r' (scan_tbl db)
             in db\<lparr>scan_tbl := filter (\<lambda>(k, x). \<not> (scan_match chain addr f t x \<and> k \<noteq> i)) tbl\<rparr>))"

definition renewContractEventsCache ::
  "(string \<Rightarrow> string) \<Rightarrow> (int \<Rightarrow> int \<Rightarrow> chain_event list result) \<Rightarrow> int \<Rightarrow> string \<Rightarrow> string \<Rightarrow>
   int \<Rightarrow> int \<Rightarrow> event_db \<Rightarrow> (event_db \<times> unit result) option" where
  "renewContractEventsCache H getPast page chain addr f0 t0 db =
     (let (f, t) = (if f0 > t0 then (t0, f0) else (f0, t0))
      in case scan_loop (performScanForContractEvents H getPast chain addr) page t
                (scanned_ranges chain addr f t db) f 0 db of
           None \<Rightarrow> None
         | Some (db', Inl e) \<Rightarrow> Some (db', Inl e)
         | Some (db', Inr m) \<Rightarrow> Some (collapse_ranges chain addr f t m db', Inr ()))"

section \<open>Reading the cache\<close>

definition event_of_row :: "string \<Rightarrow> event_row \<Rightarrow> chain_event" where
  "event_of_row addr r =
     \<lparr>ce_id = ev_raw_id r, ce_address = addr, ce_block = ev_block r, ce_tx_hash = ev_tx_hash r,
      ce_tx_index = ev_tx_index r, ce_block_hash = ev_block_hash r, ce_log_index = ev_log_index r,
      ce_removed = ev_removed r, ce_returns = ev_returns r, ce_name = ev_name r,
      ce_signature = ev_signature r, ce_data = fst (ev_raw r), ce_topics = snd (ev_raw r)\<rparr>"

definition fetchCachedEvents :: "string \<Rightarrow> string \<Rightarrow> string \<Rightarrow> int \<Rightarrow> int \<Rightarrow> event_db \<Rightarrow> chain_event list" where
  "fetchCachedEvents chain addr name f0 t0 db =
     (let chronological = (f0 \<le> t0);
          (f, t) = (if chronological then (f0, t0) else (t0, f0));
          rows = map snd (findAll (\<lambda>r. ev_contract r = addr \<and> ev_chain r = chain \<and>
                    ev_name r = Some name \<and> f \<le> ev_block r \<and> ev_block r \<le> t) (event_tbl db))
      in map (event_of_row addr) (sort_key (\<lambda>r. if chronological then ev_block r else - ev_block r) rows))"

text \<open>\<open>a === b\<close> on the values a filter compares: distinct arrays and objects are never equal.\<close>

fun strict_eq :: "json option \<Rightarrow> json \<Rightarrow> bool" where
  "strict_eq (Some (JArr _)) _ = False"
| "strict_eq (Some (JObj _)) _ = False"
| "strict_eq (Some v) w = (v = w)"
| "strict_eq None _ = False"

definition filter_events :: "(string, json) obj \<Rightarrow> chain_event list \<Rightarrow> chain_event list" where
  "filter_events flt evs =
     foldl (\<lambda>es (k, v). filter (\<lambda>e. strict_eq (obj_get (ce_returns e) k) v) es) evs flt"

datatype block_id = Block int | Latest

record event_options =
  opt_from :: int
  opt_to :: block_id
  opt_filter :: "(string, json) obj"

definition checksum_filter :: "(string \<Rightarrow> string) \<Rightarrow> (string, json) obj \<Rightarrow> (string, json) obj" where
  "checksum_filter cks flt =
     (case obj_get flt ''identityOwner'' of
        Some (JStr a) \<Rightarrow> if a = [] then flt else obj_set ''identityOwner'' (JStr (cks a)) flt
      | _ \<Rightarrow> flt)"

definition getPaginatedPastEvents ::
  "(string \<Rightarrow> string) \<Rightarrow> (int \<Rightarrow> int \<Rightarrow> chain_event list result) \<Rightarrow> int \<Rightarrow> int \<Rightarrow> (string \<Rightarrow> string) \<Rightarrow>
   string \<Rightarrow> string \<Rightarrow> string \<Rightarrow> event_options \<Rightarrow> event_db \<Rightarrow>
   (event_db \<times> chain_event list result) option" where
  "getPaginatedPastEvents H getPast page latest cks chain addr name opts db =
     (let flt = checksum_filter cks (opt_filter opts);
          t = (case opt_to opts of Latest \<Rightarrow> latest | Block b \<Rightarrow> b);
          f = opt_from opts
      in case renewContractEventsCache H getPast page chain addr f t db of
           None \<Rightarrow> None
         | Some (db', Inl e) \<Rightarrow> Some (db', Inl e)
         | Some (db', Inr _) \<Rightarrow>
             Some (db', Inr (filter_events flt (fetchCachedEvents chain addr name f t db'))))"

section \<open>The scanner interface and the two loops\<close>

text \<open>What the loops rely on: storing a range keeps the tables truthful and what they hold, and
  makes the blocks of the range known when it succeeds.\<close>

locale range_scanner =
  fixes scan :: "int \<Rightarrow> int \<Rightarrow> 's \<Rightarrow> 's \<times> unit result"
    and ok :: "'s \<Rightarrow> bool"
    and known :: "'s \<Rightarrow> int \<Rightarrow> bool"
    and lo :: int and hi :: int
  assumes scan_ok: "ok s \<Longrightarrow> lo \<le> a \<Longrightarrow> a \<le> b \<Longrightarrow> b \<le> hi \<Longrightarrow> ok (fst (scan a b s))"
    and scan_keeps: "ok s \<Longrightarrow> known s x \<Longrightarrow> known (fst (scan a b s)) x"
    and scan_knows: "ok s \<Longrightarrow> snd (scan a b s) = Inr () \<Longrightarrow> a \<le> x \<Longrightarrow> x \<le> b \<Longrightarrow> known (fst (scan a b s)) x"
begin

lemma pages_scan:
  assumes "0 < page" "ok s" "ce \<le> q" "lo \<le> f" "q \<le> hi"
  shows "\<exists>s' r. scan_pages scan page q ce f s = Some (s', r) \<and> ok s' \<and> (\<forall>x. known s x \<longrightarrow> known s' x) \<and>
    (r = Inr () \<longrightarrow> (\<forall>x. f \<le> x \<longrightarrow> x \<le> ce \<longrightarrow> known s' x))"
  using assms(2,4)
proof (induction "nat (ce + 1 - f)" arbitrary: f s rule: less_induct)
  case less
  note u = scan_pages.simps [of scan page q ce f s]
  show ?case
  proof (cases "f \<le> ce")
    case True
    let ?b = "min (min q (f + page - 1)) ce"
    obtain s1 r1 where e: "scan f ?b s = (s1, r1)" by (cases "scan f ?b s")
    have b: "f \<le> ?b" "?b \<le> hi" using True assms by simp_all
    have k: "ok s1" "\<And>x. known s x \<Longrightarrow> known s1 x"
      using scan_ok [OF less.prems b] scan_keeps [OF less.prems(1)] e by (metis fst_conv)+
    show ?thesis
    proof (cases r1)
      case (Inl x)
      with e True k u show ?thesis by simp
    next
      case (Inr y)
      then have n: "known s1 x" if "f \<le> x" "x \<le> ?b" for x
        using scan_knows [OF less.prems(1), of f ?b x] e that by simp
      have "nat (ce + 1 - (f + page)) < nat (ce + 1 - f)" using True assms(1) by simp
      moreover have "lo \<le> f + page" using less.prems(2) assms(1) by simp
      ultimately obtain s2 r2 where
        h: "scan_pages scan page q ce (f + page) s1 = Some (s2, r2)" "ok s2" "\<forall>x. known s1 x \<longrightarrow> known s2 x"
           "r2 = Inr () \<longrightarrow> (\<forall>x. f + page \<le> x \<longrightarrow> x \<le> ce \<longrightarrow> known s2 x)"
        using less.hyps [OF _ k(1)] by blast
      have "known s2 x" if "r2 = Inr ()" "f \<le> x" "x \<le> ce" for x
        using h(3,4) n [of x] that assms(3) by (cases "f + page \<le> x") auto
      with h k e True Inr u show ?thesis by simp
    qed
  qed (use u less.prems in simp)
qed

lemma loop_scan:
  assumes "0 < page" "ok s" "\<And>a b x. (a, b) \<in> set rs \<Longrightarrow> a \<le> x \<Longrightarrow> x \<le> b \<Longrightarrow> known s x"
    and "\<And>a b. (a, b) \<in> set rs \<Longrightarrow> a \<le> q + 1"
    and "\<And>x. f \<le> x \<Longrightarrow> x < cursor \<Longrightarrow> known s x" "m < cursor \<or> m = 0"
    and "lo \<le> cursor" "q \<le> hi"
  shows "\<exists>s' r. scan_loop scan page q (map (\<lambda>(a, b). (a, b, False)) rs @ [(q + 1, q + 1, True)]) cursor m s
      = Some (s', r) \<and> ok s' \<and> (\<forall>x. known s x \<longrightarrow> known s' x) \<and>
    (\<forall>m'. r = Inr m' \<longrightarrow> (\<exists>c > q. (\<forall>x. f \<le> x \<longrightarrow> x < c \<longrightarrow> known s' x) \<and> (m' < c \<or> m' = 0)))"
  using assms(2-7)
proof (induction rs arbitrary: cursor m s)
  case Nil
  show ?case
  proof (cases "q + 1 \<le> cursor")
    case True
    then have "scan_loop scan page q [(q + 1, q + 1, True)] cursor m s = Some (s, Inr m)"
      by (simp add: Let_def)
    moreover have "q < cursor" using True by simp
    ultimately show ?thesis using Nil by auto
  next
    case False
    from pages_scan [OF assms(1) Nil(1) order_refl Nil(6) assms(8)] obtain s' r where
      h: "scan_pages scan page q q cursor s = Some (s', r)" "ok s'" "\<forall>x. known s x \<longrightarrow> known s' x"
         "r = Inr () \<longrightarrow> (\<forall>x. cursor \<le> x \<longrightarrow> x \<le> q \<longrightarrow> known s' x)" by blast
    show ?thesis
    proof (cases r)
      case (Inr u)
      have "known s' x" if "f \<le> x" "x < q + 1" for x
        using h(3,4) Nil(4) [of x] that Inr by (cases "x < cursor") auto
      moreover have "scan_loop scan page q [(q + 1, q + 1, True)] cursor m s = Some (s', Inr m)"
        using h(1) Inr False by (simp add: Let_def)
      moreover have "m < q + 1 \<or> m = 0" using Nil(5) False by auto
      ultimately show ?thesis using h(2,3) by (auto intro!: exI [of _ "q + 1"])
    qed (use h False in \<open>simp add: Let_def\<close>)
  qed
next
  case (Cons p rs)
  obtain a b where p: "p = (a, b)" by (cases p)
  let ?c = "max cursor (b + 1)" and ?m = "max m b"
  let ?rest = "map (\<lambda>(a, b). (a, b, False)) rs @ [(q + 1, q + 1, True)]"
  have a: "a \<le> q + 1" using Cons.prems(3) [of a b] p by simp
  have ab: "known s x" if "a \<le> x" "x \<le> b" for x using Cons.prems(2) [of a b x] p that by simp
  have m: "?m < ?c \<or> ?m = 0" using Cons.prems(5) by auto
  have step: "\<exists>s2 r. (if ?c > q then Some (s1, Inr ?m) else scan_loop scan page q ?rest ?c ?m s1) = Some (s2, r) \<and>
      ok s2 \<and> (\<forall>x. known s x \<longrightarrow> known s2 x) \<and>
      (\<forall>m'. r = Inr m' \<longrightarrow> (\<exists>c > q. (\<forall>x. f \<le> x \<longrightarrow> x < c \<longrightarrow> known s2 x) \<and> (m' < c \<or> m' = 0)))"
    if s1: "ok s1" "\<And>x. known s x \<Longrightarrow> known s1 x" "\<And>x. f \<le> x \<Longrightarrow> x < ?c \<Longrightarrow> known s1 x" for s1
  proof (cases "?c > q")
    case True
    with s1 m show ?thesis by (intro exI [of _ s1] exI [of _ "Inr ?m"]) auto
  next
    case False
    have "\<And>a b x. (a, b) \<in> set rs \<Longrightarrow> a \<le> x \<Longrightarrow> x \<le> b \<Longrightarrow> known s1 x"
      using Cons.prems(2) s1(2) by (meson list.set_intros(2))
    moreover have "\<And>a b. (a, b) \<in> set rs \<Longrightarrow> a \<le> q + 1"
      using Cons.prems(3) by (meson list.set_intros(2))
    ultimately have "\<exists>s2 r. scan_loop scan page q ?rest ?c ?m s1 = Some (s2, r) \<and> ok s2 \<and>
      (\<forall>x. known s1 x \<longrightarrow> known s2 x) \<and>
      (\<forall>m'. r = Inr m' \<longrightarrow> (\<exists>c > q. (\<forall>x. f \<le> x \<longrightarrow> x < c \<longrightarrow> known s2 x) \<and> (m' < c \<or> m' = 0)))"
      using Cons.IH [of s1 ?c ?m] s1(1,3) m Cons.prems(6) by simp
    then obtain s2 r where
      "scan_loop scan page q ?rest ?c ?m s1 = Some (s2, r)" "ok s2" "\<forall>x. known s1 x \<longrightarrow> known s2 x"
      "\<forall>m'. r = Inr m' \<longrightarrow> (\<exists>c > q. (\<forall>x. f \<le> x \<longrightarrow> x < c \<longrightarrow> known s2 x) \<and> (m' < c \<or> m' = 0))"
      by blast
    with False s1(2) show ?thesis by (simp only: if_False) blast
  qed
  show ?case
  proof (cases "a \<le> cursor")
    case True
    have "known s x" if "f \<le> x" "x < ?c" for x
      using Cons.prems(4) [of x] ab [of x] that True by (cases "x < cursor") auto
    from step [OF Cons.prems(1) _ this] True p show ?thesis by (simp add: Let_def)
  next
    case False
    from a have "a - 1 \<le> q" by simp
    from pages_scan [OF assms(1) Cons.prems(1) this Cons.prems(6) assms(8)] obtain s1 r1 where
      h: "scan_pages scan page q (a - 1) cursor s = Some (s1, r1)" "ok s1" "\<forall>x. known s x \<longrightarrow> known s1 x"
         "r1 = Inr () \<longrightarrow> (\<forall>x. cursor \<le> x \<longrightarrow> x \<le> a - 1 \<longrightarrow> known s1 x)" by blast
    show ?thesis
    proof (cases r1)
      case (Inr u)
      have "known s1 x" if "f \<le> x" "x < ?c" for x
        using Cons.prems(4) [of x] ab [of x] h(3,4) that Inr
        by (cases "x < cursor"; cases "x < a") auto
      from step [OF h(2) _ this] h(1,3) Inr False p show ?thesis by (simp add: Let_def)
    qed (use h False p in \<open>simp add: Let_def\<close>)
  qed
qed

end

section \<open>Truthful tables\<close>

text \<open>\<open>past_ok\<close>: web3 answers with the events of the contract in the blocks asked for, when it
  answers.  \<open>known_at\<close>: every event of a block is in the table.\<close>

definition past_ok :: "chain_event list \<Rightarrow> (int \<Rightarrow> int \<Rightarrow> chain_event list result) \<Rightarrow> bool" where
  "past_ok logs getPast \<longleftrightarrow> (\<forall>a b evs. getPast a b = Inr evs \<longrightarrow>
     set evs = {e \<in> set logs. a \<le> ce_block e \<and> ce_block e \<le> b})"

definition known_at ::
  "(string \<Rightarrow> string) \<Rightarrow> string \<Rightarrow> string \<Rightarrow> chain_event list \<Rightarrow> event_db \<Rightarrow> int \<Rightarrow> bool" where
  "known_at H chain addr logs db b \<longleftrightarrow> (\<forall>e \<in> set logs. ce_block e = b \<longrightarrow>
     obj_get (event_tbl db) (event_key H addr e) = Some (row_of_event chain addr e))"

text \<open>The tables are truthful for a contract: its rows are events of the chain, and what a stored
  range covers is in the table.\<close>

definition rows_ok :: "(string \<Rightarrow> string) \<Rightarrow> string \<Rightarrow> string \<Rightarrow> chain_event list \<Rightarrow> (string, event_row) obj \<Rightarrow> bool" where
  "rows_ok H chain addr logs tbl \<longleftrightarrow> distinct (keys tbl) \<and>
     (\<forall>(k, r) \<in> set tbl. ev_contract r = addr \<and> ev_chain r = chain \<longrightarrow>
        (\<exists>e \<in> set logs. k = event_key H addr e \<and> r = row_of_event chain addr e))"

definition range_ok :: "string \<Rightarrow> string \<Rightarrow> (int \<Rightarrow> bool) \<Rightarrow> scan_row \<Rightarrow> bool" where
  "range_ok chain addr known r \<longleftrightarrow> (sc_contract r = addr \<and> sc_chain r = chain \<longrightarrow>
     from_block r \<le> to_block r \<and> (\<forall>b. from_block r \<le> b \<and> b \<le> to_block r \<longrightarrow> known b))"

definition tables_ok :: "(string \<Rightarrow> string) \<Rightarrow> string \<Rightarrow> string \<Rightarrow> chain_event list \<Rightarrow> event_db \<Rightarrow> bool" where
  "tables_ok H chain addr logs db \<longleftrightarrow> rows_ok H chain addr logs (event_tbl db) \<and>
     (\<forall>(i, r) \<in> set (scan_tbl db). range_ok chain addr (known_at H chain addr logs db) r)"

text \<open>The laws hold for a collision free hash over the contract's events.\<close>

definition scanning_ok ::
  "(string \<Rightarrow> string) \<Rightarrow> (int \<Rightarrow> int \<Rightarrow> chain_event list result) \<Rightarrow> string \<Rightarrow> string \<Rightarrow>
   chain_event list \<Rightarrow> event_db \<Rightarrow> bool" where
  "scanning_ok H getPast chain addr logs db \<longleftrightarrow> past_ok logs getPast \<and>
     inj_on (event_key H addr) (set logs) \<and> tables_ok H chain addr logs db"

lemma set_obj_set: "set (obj_set k v m) \<subseteq> insert (k, v) (set m)"
  by (induction m) (auto split: if_splits)

lemma rows_ok_store:
  "rows_ok H chain addr logs tbl \<Longrightarrow> x \<in> set logs \<Longrightarrow>
   rows_ok H chain addr logs (obj_set (event_key H addr x) (row_of_event chain addr x) tbl)"
  using set_obj_set [of "event_key H addr x" "row_of_event chain addr x" tbl]
  unfolding rows_ok_def by (auto intro!: distinct_obj_set)

lemma foldl_store:
  assumes "set evs \<subseteq> set logs" "inj_on (event_key H addr) (set logs)"
    "rows_ok H chain addr logs (event_tbl db)"
  shows "rows_ok H chain addr logs (event_tbl (foldl (store_event H chain addr) db evs)) \<and>
    scan_tbl (foldl (store_event H chain addr) db evs) = scan_tbl db \<and>
    (\<forall>e \<in> set logs. e \<in> set evs \<or>
       obj_get (event_tbl db) (event_key H addr e) = Some (row_of_event chain addr e) \<longrightarrow>
     obj_get (event_tbl (foldl (store_event H chain addr) db evs)) (event_key H addr e)
       = Some (row_of_event chain addr e))"
  using assms(1,3)
proof (induction evs arbitrary: db)
  case (Cons x evs)
  let ?db = "store_event H chain addr db x"
  have x: "x \<in> set logs" and sub: "set evs \<subseteq> set logs" using Cons.prems by auto
  have r: "rows_ok H chain addr logs (event_tbl ?db)"
    using rows_ok_store [OF Cons.prems(2) x] by (simp add: store_event_def)
  have g: "obj_get (event_tbl ?db) (event_key H addr e) = Some (row_of_event chain addr e)"
    if "e \<in> set logs" "e = x \<or> obj_get (event_tbl db) (event_key H addr e) = Some (row_of_event chain addr e)" for e
    using that assms(2) x by (auto simp: store_event_def inj_on_def)
  have t: "scan_tbl ?db = scan_tbl db" by (simp add: store_event_def)
  show ?case using Cons.IH [OF sub r] g t by auto
qed auto

lemma perform_laws:
  assumes "scanning_ok H getPast chain addr logs db"
    "performScanForContractEvents H getPast chain addr a b db = (db', r)"
  shows "a \<le> b \<Longrightarrow> scanning_ok H getPast chain addr logs db'"
    "known_at H chain addr logs db x \<Longrightarrow> known_at H chain addr logs db' x"
    "r = Inr () \<Longrightarrow> a \<le> x \<Longrightarrow> x \<le> b \<Longrightarrow> known_at H chain addr logs db' x"
proof -
  note s = assms(1) [unfolded scanning_ok_def tables_ok_def]
  have "(a \<le> b \<longrightarrow> scanning_ok H getPast chain addr logs db') \<and>
    (\<forall>x. known_at H chain addr logs db x \<longrightarrow> known_at H chain addr logs db' x) \<and>
    (r = Inr () \<longrightarrow> (\<forall>x. a \<le> x \<longrightarrow> x \<le> b \<longrightarrow> known_at H chain addr logs db' x))"
  proof (cases "getPast a b")
    case (Inl e)
    with assms show ?thesis by (auto simp: performScanForContractEvents_def)
  next
    case (Inr evs)
    let ?db1 = "foldl (store_event H chain addr) db evs"
    let ?row = "\<lparr>sc_contract = addr, sc_chain = chain, from_block = a, to_block = b\<rparr>"
    have evs: "set evs = {e \<in> set logs. a \<le> ce_block e \<and> ce_block e \<le> b}"
      using s Inr by (auto simp: past_ok_def)
    then have sub: "set evs \<subseteq> set logs" by auto
    have f: "rows_ok H chain addr logs (event_tbl ?db1)" "scan_tbl ?db1 = scan_tbl db"
      "\<And>e. e \<in> set logs \<Longrightarrow> e \<in> set evs \<or>
         obj_get (event_tbl db) (event_key H addr e) = Some (row_of_event chain addr e) \<Longrightarrow>
       obj_get (event_tbl ?db1) (event_key H addr e) = Some (row_of_event chain addr e)"
      using foldl_store [OF sub, of H addr chain db] s by blast+
    have db': "db' = ?db1\<lparr>scan_tbl := obj_set (scan_id addr a b) ?row (scan_tbl ?db1)\<rparr>" "r = Inr ()"
      using assms(2) Inr by (simp_all add: performScanForContractEvents_def Let_def)
    have keep: "known_at H chain addr logs db' x" if "known_at H chain addr logs db x" for x
      using that f(3) s unfolding known_at_def by (simp add: db')
    have new: "known_at H chain addr logs db' x" if "a \<le> x" "x \<le> b" for x
      using that f(3) s evs unfolding known_at_def by (simp add: db')
    have "range_ok chain addr (known_at H chain addr logs db') t"
      if "a \<le> b" "(i, t) \<in> set (scan_tbl db')" for i t
    proof -
      from that(2) consider "t = ?row" | "(i, t) \<in> set (scan_tbl db)"
        using set_obj_set [of "scan_id addr a b" ?row "scan_tbl ?db1"] f(2) by (auto simp: db')
      then show ?thesis
      proof cases
        case 1
        with that(1) new show ?thesis by (simp add: range_ok_def)
      next
        case 2
        with s have "range_ok chain addr (known_at H chain addr logs db) t" by blast
        with keep show ?thesis unfolding range_ok_def by blast
      qed
    qed
    moreover have "rows_ok H chain addr logs (event_tbl db')" using f(1) s by (simp add: db')
    ultimately have "a \<le> b \<longrightarrow> scanning_ok H getPast chain addr logs db'"
      using s unfolding scanning_ok_def tables_ok_def by blast
    with keep new show ?thesis by blast
  qed
  then show "a \<le> b \<Longrightarrow> scanning_ok H getPast chain addr logs db'"
    "known_at H chain addr logs db x \<Longrightarrow> known_at H chain addr logs db' x"
    "r = Inr () \<Longrightarrow> a \<le> x \<Longrightarrow> x \<le> b \<Longrightarrow> known_at H chain addr logs db' x" by blast+
qed

text \<open>\<open>touches\<close>: if the first stored range belongs to the contract, it meets or adjoins the
  interval.\<close>

definition touches :: "string \<Rightarrow> string \<Rightarrow> int \<Rightarrow> int \<Rightarrow> event_db \<Rightarrow> bool" where
  "touches chain addr f t db = (case scan_tbl db of [] \<Rightarrow> True
     | (_, r) # _ \<Rightarrow> sc_contract r = addr \<and> sc_chain r = chain \<longrightarrow> from_block r \<le> t + 1 \<and> f \<le> to_block r + 1)"

definition ranges_upto :: "string \<Rightarrow> string \<Rightarrow> int \<Rightarrow> event_db \<Rightarrow> bool" where
  "ranges_upto chain addr t db \<longleftrightarrow> (\<forall>(_, r) \<in> set (scan_tbl db). sc_contract r = addr \<and> sc_chain r = chain \<longrightarrow>
     0 \<le> from_block r \<and> to_block r \<le> t)"

lemma scan_tbl_perform:
  assumes "performScanForContractEvents H getPast chain addr a b db = (db', r)"
  shows "scan_tbl db' = scan_tbl db \<or> scan_tbl db' = obj_set (scan_id addr a b)
     \<lparr>sc_contract = addr, sc_chain = chain, from_block = a, to_block = b\<rparr> (scan_tbl db)"
proof -
  have "scan_tbl (foldl (store_event H chain addr) db evs) = scan_tbl db" for evs
    by (induction evs arbitrary: db) (simp_all add: store_event_def)
  with assms show ?thesis
    by (auto simp: performScanForContractEvents_def Let_def split: sum.splits)
qed

lemma touches_perform:
  assumes "performScanForContractEvents H getPast chain addr a b db = (db', r)"
    "touches chain addr f t db" "f \<le> a" "a \<le> b" "b \<le> t"
  shows "touches chain addr f t db'"
  using scan_tbl_perform [OF assms(1)]
proof
  assume "scan_tbl db' = obj_set (scan_id addr a b)
     \<lparr>sc_contract = addr, sc_chain = chain, from_block = a, to_block = b\<rparr> (scan_tbl db)"
  with assms(2-) show ?thesis
    by (cases "scan_tbl db") (auto simp: touches_def split: if_splits)
qed (use assms(2) in \<open>simp add: touches_def\<close>)

lemma upto_perform:
  assumes "performScanForContractEvents H getPast chain addr a b db = (db', r)"
    "ranges_upto chain addr t db" "0 \<le> a" "b \<le> t"
  shows "ranges_upto chain addr t db'"
  using scan_tbl_perform [OF assms(1)]
proof
  let ?r = "\<lparr>sc_contract = addr, sc_chain = chain, from_block = a, to_block = b\<rparr>"
  assume "scan_tbl db' = obj_set (scan_id addr a b) ?r (scan_tbl db)"
  then have "set (scan_tbl db') \<subseteq> insert (scan_id addr a b, ?r) (set (scan_tbl db))"
    by (simp add: set_obj_set)
  moreover have "\<forall>(_, r) \<in> insert (scan_id addr a b, ?r) (set (scan_tbl db)).
      sc_contract r = addr \<and> sc_chain r = chain \<longrightarrow> 0 \<le> from_block r \<and> to_block r \<le> t"
    using assms(2-) by (simp add: ranges_upto_def)
  ultimately show ?thesis unfolding ranges_upto_def by blast
qed (use assms(2) in \<open>simp add: ranges_upto_def\<close>)

text \<open>The scanner of the code provides the interface, with the tables truthful and the first range
  touching the interval; where the interval starts at block 0 the ranges stay within it.\<close>

definition scanner_ok ::
  "(string \<Rightarrow> string) \<Rightarrow> (int \<Rightarrow> int \<Rightarrow> chain_event list result) \<Rightarrow> string \<Rightarrow> string \<Rightarrow>
   chain_event list \<Rightarrow> int \<Rightarrow> int \<Rightarrow> bool \<Rightarrow> event_db \<Rightarrow> bool" where
  "scanner_ok H getPast chain addr logs f t w db \<longleftrightarrow> scanning_ok H getPast chain addr logs db \<and>
     touches chain addr f t db \<and> (w \<longrightarrow> ranges_upto chain addr t db \<and> 0 \<le> f)"

interpretation es: range_scanner "performScanForContractEvents H getPast chain addr"
  "scanner_ok H getPast chain addr logs f t w" "known_at H chain addr logs" f t
  for H getPast chain addr logs f t w
proof unfold_locales
  fix s :: event_db and a b x :: int
  obtain db' r where p: "performScanForContractEvents H getPast chain addr a b s = (db', r)"
    by (cases "performScanForContractEvents H getPast chain addr a b s")
  assume s: "scanner_ok H getPast chain addr logs f t w s"
  then have sc: "scanning_ok H getPast chain addr logs s" by (simp add: scanner_ok_def)
  note l = perform_laws [OF sc p]
  show "scanner_ok H getPast chain addr logs f t w (fst (performScanForContractEvents H getPast chain addr a b s))"
    if "f \<le> a" "a \<le> b" "b \<le> t"
    using l(1) s that touches_perform [OF p] upto_perform [OF p] p by (auto simp: scanner_ok_def)
  show "known_at H chain addr logs s x \<Longrightarrow>
       known_at H chain addr logs (fst (performScanForContractEvents H getPast chain addr a b s)) x"
    "snd (performScanForContractEvents H getPast chain addr a b s) = Inr () \<Longrightarrow> a \<le> x \<Longrightarrow> x \<le> b \<Longrightarrow>
       known_at H chain addr logs (fst (performScanForContractEvents H getPast chain addr a b s)) x"
    using l p by simp_all
qed

section \<open>The renewal\<close>

lemma set_scanned:
  "set (sort_key from_block (map snd (findAll (scan_match chain addr f t) tbl)))
     = {r. \<exists>i. (i, r) \<in> set tbl \<and> scan_match chain addr f t r}"
  by (force simp: findAll_def)

lemma loop_renews:
  assumes "0 < page" "scanner_ok H getPast chain addr logs f t w db" "f \<le> t"
  shows "\<exists>db' r. scan_loop (performScanForContractEvents H getPast chain addr) page t
      (scanned_ranges chain addr f t db) f 0 db = Some (db', r) \<and>
    scanner_ok H getPast chain addr logs f t w db' \<and>
    (\<forall>x. known_at H chain addr logs db x \<longrightarrow> known_at H chain addr logs db' x) \<and>
    (\<forall>m. r = Inr m \<longrightarrow> (\<exists>c > t. (\<forall>x. f \<le> x \<longrightarrow> x < c \<longrightarrow> known_at H chain addr logs db' x) \<and> (m < c \<or> m = 0)))"
proof -
  let ?rs = "map (\<lambda>r. (from_block r, to_block r))
    (sort_key from_block (map snd (findAll (scan_match chain addr f t) (scan_tbl db))))"
  have e: "scanned_ranges chain addr f t db = map (\<lambda>(a, b). (a, b, False)) ?rs @ [(t + 1, t + 1, True)]"
    by (simp add: scanned_ranges_def)
  have row: "\<exists>i r. (i, r) \<in> set (scan_tbl db) \<and> scan_match chain addr f t r \<and> a = from_block r \<and> b = to_block r"
    if "(a, b) \<in> set ?rs" for a b
    using that unfolding set_map set_scanned by blast
  have ok: "\<forall>(i, r) \<in> set (scan_tbl db). range_ok chain addr (known_at H chain addr logs db) r"
    using assms(2) by (simp add: scanner_ok_def scanning_ok_def tables_ok_def)
  have k: "known_at H chain addr logs db x" if m: "(a, b) \<in> set ?rs" "a \<le> x" "x \<le> b" for a b x
  proof -
    from row [OF m(1)] obtain i r where r: "(i, r) \<in> set (scan_tbl db)" "scan_match chain addr f t r"
      "a = from_block r" "b = to_block r" by blast
    with ok have "range_ok chain addr (known_at H chain addr logs db) r" by blast
    with r m(2,3) show ?thesis by (simp add: range_ok_def scan_match_def)
  qed
  have q: "a \<le> t + 1" if m: "(a, b) \<in> set ?rs" for a b
  proof -
    from row [OF m] obtain i r where r: "(i, r) \<in> set (scan_tbl db)" "scan_match chain addr f t r"
      "a = from_block r" "b = to_block r" by blast
    with ok have "range_ok chain addr (known_at H chain addr logs db) r" by blast
    with r(2) assms(3) have "from_block r \<le> t" unfolding range_ok_def scan_match_def by linarith
    with r(3) show ?thesis by simp
  qed
  show ?thesis unfolding e
    by (rule es.loop_scan [OF assms(1,2) k q _ _ order_refl order_refl]) auto
qed

lemma loop_max:
  "scan_loop scan page q rs cursor m s = Some (s', Inr m') \<Longrightarrow>
   (\<And>a b. (a, b, False) \<in> set rs \<Longrightarrow> b \<le> q) \<Longrightarrow> m \<le> q \<Longrightarrow> m' \<le> q"
  by (induction rs arbitrary: cursor m s)
    (fastforce simp: Let_def split: if_splits option.splits sum.splits prod.splits)+

lemma known_collapse [simp]:
  "known_at H chain addr logs (collapse_ranges chain addr f t m db) = known_at H chain addr logs db"
  by (auto simp: fun_eq_iff known_at_def collapse_ranges_def Let_def split: list.splits)

lemma event_tbl_collapse [simp]: "event_tbl (collapse_ranges chain addr f t m db) = event_tbl db"
  by (simp add: collapse_ranges_def Let_def split: list.splits)

text \<open>Every row after the collapse is an old row or the first one, widened.\<close>

lemma set_collapse:
  "(i, x) \<in> set (scan_tbl (collapse_ranges chain addr f t m db)) \<Longrightarrow> (i, x) \<in> set (scan_tbl db) \<or>
   (\<exists>r rs. scan_tbl db = (i, r) # rs \<and> x = r\<lparr>from_block := min (from_block r) f, to_block := max (to_block r) m\<rparr>)"
  by (auto simp: collapse_ranges_def Let_def split: list.splits if_splits)

lemma collapse_keeps:
  assumes "scanner_ok H getPast chain addr logs f t w db" "f \<le> t" "0 \<le> f" "t < c"
    "\<And>x. f \<le> x \<Longrightarrow> x < c \<Longrightarrow> known_at H chain addr logs db x" "m < c \<or> m = 0"
    "w \<Longrightarrow> m \<le> t"
  shows "scanning_ok H getPast chain addr logs (collapse_ranges chain addr f t m db)"
    "w \<Longrightarrow> ranges_upto chain addr t (collapse_ranges chain addr f t m db)"
proof -
  let ?K = "known_at H chain addr logs db"
  have ok: "\<forall>(i, r) \<in> set (scan_tbl db). range_ok chain addr ?K r"
    and rest: "past_ok logs getPast" "inj_on (event_key H addr) (set logs)" "rows_ok H chain addr logs (event_tbl db)"
    using assms(1) by (simp_all add: scanner_ok_def scanning_ok_def tables_ok_def)
  have wide: "range_ok chain addr ?K (r\<lparr>from_block := min (from_block r) f, to_block := max (to_block r) m\<rparr>)"
    if e: "scan_tbl db = (i, r) # rs" for i r rs
    unfolding range_ok_def
  proof (intro impI conjI allI)
    assume "sc_contract (r\<lparr>from_block := min (from_block r) f, to_block := max (to_block r) m\<rparr>) = addr \<and>
      sc_chain (r\<lparr>from_block := min (from_block r) f, to_block := max (to_block r) m\<rparr>) = chain"
    then have a: "sc_contract r = addr" "sc_chain r = chain" by simp_all
    with ok e have r: "from_block r \<le> to_block r" "\<And>b. from_block r \<le> b \<Longrightarrow> b \<le> to_block r \<Longrightarrow> ?K b"
      by (auto simp: range_ok_def)
    have t: "from_block r \<le> t + 1" "f \<le> to_block r + 1"
      using assms(1) a e by (simp_all add: scanner_ok_def touches_def)
    show "from_block (r\<lparr>from_block := min (from_block r) f, to_block := max (to_block r) m\<rparr>)
      \<le> to_block (r\<lparr>from_block := min (from_block r) f, to_block := max (to_block r) m\<rparr>)"
      using r(1) by simp
    fix b
    assume "from_block (r\<lparr>from_block := min (from_block r) f, to_block := max (to_block r) m\<rparr>) \<le> b \<and>
      b \<le> to_block (r\<lparr>from_block := min (from_block r) f, to_block := max (to_block r) m\<rparr>)"
    then have "min (from_block r) f \<le> b" "b \<le> max (to_block r) m" by simp_all
    then consider "from_block r \<le> b" "b \<le> to_block r" | "f \<le> b" "b < c"
      using t assms(2,3,4,6) by linarith
    then show "?K b" using r(2) assms(5) by cases auto
  qed
  have "range_ok chain addr ?K x" if "(i, x) \<in> set (scan_tbl (collapse_ranges chain addr f t m db))" for i x
    using set_collapse [OF that] wide ok by blast
  with rest show "scanning_ok H getPast chain addr logs (collapse_ranges chain addr f t m db)"
    unfolding scanning_ok_def tables_ok_def by auto
  assume w: "w"
  with assms(1) have u: "ranges_upto chain addr t db" by (simp add: scanner_ok_def)
  have "sc_contract x = addr \<and> sc_chain x = chain \<longrightarrow> 0 \<le> from_block x \<and> to_block x \<le> t"
    if "(i, x) \<in> set (scan_tbl (collapse_ranges chain addr f t m db))" for i x
    using set_collapse [OF that]
  proof
    assume "(i, x) \<in> set (scan_tbl db)"
    with u show ?thesis unfolding ranges_upto_def by blast
  next
    assume "\<exists>r rs. scan_tbl db = (i, r) # rs \<and> x = r\<lparr>from_block := min (from_block r) f, to_block := max (to_block r) m\<rparr>"
    with u assms(3,7) w show ?thesis unfolding ranges_upto_def by auto
  qed
  then show "ranges_upto chain addr t (collapse_ranges chain addr f t m db)"
    unfolding ranges_upto_def by blast
qed

text \<open>The renewal of an interval that does not start below block 0: it returns, keeps the tables
  truthful, and a success leaves every event of the interval in the table.\<close>

lemma renew_keeps:
  assumes "0 < page" "scanner_ok H getPast chain addr logs f t w db" "0 \<le> f" "f \<le> t" "w \<Longrightarrow> f = 0"
  shows "\<exists>db' r. renewContractEventsCache H getPast page chain addr f t db = Some (db', r) \<and>
    scanning_ok H getPast chain addr logs db' \<and> (w \<longrightarrow> ranges_upto chain addr t db') \<and>
    (r = Inr () \<longrightarrow> (\<forall>x. f \<le> x \<longrightarrow> x \<le> t \<longrightarrow> known_at H chain addr logs db' x))"
proof -
  let ?loop = "scan_loop (performScanForContractEvents H getPast chain addr) page t
      (scanned_ranges chain addr f t db) f 0 db"
  from loop_renews [OF assms(1,2,4)] obtain db' r where l: "?loop = Some (db', r)"
      "scanner_ok H getPast chain addr logs f t w db'"
      "\<forall>m. r = Inr m \<longrightarrow> (\<exists>c > t. (\<forall>x. f \<le> x \<longrightarrow> x < c \<longrightarrow> known_at H chain addr logs db' x) \<and> (m < c \<or> m = 0))"
    by blast
  have u: "renewContractEventsCache H getPast page chain addr f t db =
      (case r of Inl e \<Rightarrow> Some (db', Inl e) | Inr m \<Rightarrow> Some (collapse_ranges chain addr f t m db', Inr ()))"
    using l(1) assms(4) by (simp add: renewContractEventsCache_def)
  show ?thesis
  proof (cases r)
    case (Inl e)
    with u l(2) show ?thesis by (simp add: scanner_ok_def)
  next
    case (Inr m)
    with l(3) obtain c where c: "t < c" "\<And>x. f \<le> x \<Longrightarrow> x < c \<Longrightarrow> known_at H chain addr logs db' x"
      "m < c \<or> m = 0" by blast
    have m: "m \<le> t" if w
    proof (rule loop_max [OF l(1) [unfolded Inr]])
      show "0 \<le> t" using assms(3,4) by simp
      have "ranges_upto chain addr t db" using assms(2) that by (simp add: scanner_ok_def)
      then show "b \<le> t" if "(a, b, False) \<in> set (scanned_ranges chain addr f t db)" for a b
        using that by (auto simp: scanned_ranges_def findAll_def ranges_upto_def scan_match_def)
    qed
    note k = collapse_keeps [OF l(2) assms(4,3) c m]
    from u k Inr c(1,2) show ?thesis by auto
  qed
qed

section \<open>The cached answer\<close>

lemma event_of_row_of_event: "ce_address e = addr \<Longrightarrow> event_of_row addr (row_of_event chain addr e) = e"
  by (simp add: event_of_row_def row_of_event_def)

definition wanted :: "string \<Rightarrow> int \<Rightarrow> int \<Rightarrow> chain_event \<Rightarrow> bool" where
  "wanted name f t e \<longleftrightarrow> ce_name e = Some name \<and> f \<le> ce_block e \<and> ce_block e \<le> t"

lemma fetch_answer:
  assumes "rows_ok H chain addr logs (event_tbl db)" "inj_on (event_key H addr) (set logs)"
    "distinct logs" "\<And>e. e \<in> set logs \<Longrightarrow> ce_address e = addr" "f \<le> t"
    "\<And>x. f \<le> x \<Longrightarrow> x \<le> t \<Longrightarrow> known_at H chain addr logs db x"
  shows "mset (fetchCachedEvents chain addr name f t db) = mset (filter (wanted name f t) logs)"
    "sorted (map ce_block (fetchCachedEvents chain addr name f t db))"
proof -
  let ?Q = "\<lambda>r. ev_contract r = addr \<and> ev_chain r = chain \<and> ev_name r = Some name \<and> f \<le> ev_block r \<and> ev_block r \<le> t"
  let ?rows = "findAll ?Q (event_tbl db)"
  have fetch: "fetchCachedEvents chain addr name f t db = map (event_of_row addr) (sort_key ev_block (map snd ?rows))"
    using assms(5) by (simp add: fetchCachedEvents_def)
  have entry: "\<exists>e \<in> set logs. p = (event_key H addr e, row_of_event chain addr e) \<and> wanted name f t e"
    if p: "p \<in> set ?rows" for p
  proof -
    obtain k r where kr: "p = (k, r)" by (cases p)
    with p have "(k, r) \<in> set (event_tbl db)" "?Q r" by (simp_all add: findAll_def)
    with assms(1) obtain e where "e \<in> set logs" "k = event_key H addr e" "r = row_of_event chain addr e"
      unfolding rows_ok_def by blast
    with \<open>?Q r\<close> kr show ?thesis by (auto simp: wanted_def row_of_event_def)
  qed
  have d: "distinct (map (\<lambda>p. event_of_row addr (snd p)) ?rows)"
    unfolding distinct_map
  proof
    show "distinct ?rows" using assms(1) by (simp add: rows_ok_def findAll_def distinct_map)
    show "inj_on (\<lambda>p. event_of_row addr (snd p)) (set ?rows)"
    proof (rule inj_onI)
      fix p q assume p: "p \<in> set ?rows" and q: "q \<in> set ?rows"
        and e: "event_of_row addr (snd p) = event_of_row addr (snd q)"
      from entry [OF p] entry [OF q] e show "p = q"
        using assms(4) by (auto simp: event_of_row_of_event)
    qed
  qed
  have s: "(\<lambda>p. event_of_row addr (snd p)) ` set ?rows = {e \<in> set logs. wanted name f t e}"
  proof (intro equalityI subsetI)
    fix x assume "x \<in> (\<lambda>p. event_of_row addr (snd p)) ` set ?rows"
    then obtain p where "p \<in> set ?rows" "x = event_of_row addr (snd p)" by blast
    with entry [of p] show "x \<in> {e \<in> set logs. wanted name f t e}"
      using assms(4) by (auto simp: event_of_row_of_event)
  next
    fix e assume e: "e \<in> {e \<in> set logs. wanted name f t e}"
    with assms(6) [of "ce_block e"] have "obj_get (event_tbl db) (event_key H addr e) = Some (row_of_event chain addr e)"
      by (auto simp: known_at_def wanted_def)
    then have "(event_key H addr e, row_of_event chain addr e) \<in> set ?rows"
      using e by (auto simp: findAll_def wanted_def row_of_event_def dest!: map_of_SomeD)
    then have "event_of_row addr (row_of_event chain addr e) \<in> (\<lambda>p. event_of_row addr (snd p)) ` set ?rows"
      by force
    with e assms(4) show "e \<in> (\<lambda>p. event_of_row addr (snd p)) ` set ?rows"
      by (simp add: event_of_row_of_event)
  qed
  have "mset (map (\<lambda>p. event_of_row addr (snd p)) ?rows) = mset (filter (wanted name f t) logs)"
    using d s assms(3) by (subst set_eq_iff_mset_eq_distinct [symmetric]) auto
  then show "mset (fetchCachedEvents chain addr name f t db) = mset (filter (wanted name f t) logs)"
    unfolding fetch by (simp add: image_mset.compositionality comp_def)
  have "map ce_block (fetchCachedEvents chain addr name f t db) = map ev_block (sort_key ev_block (map snd ?rows))"
    unfolding fetch by (simp add: event_of_row_def)
  then show "sorted (map ce_block (fetchCachedEvents chain addr name f t db))" by simp
qed

section \<open>Termination\<close>

lemma pages_return: "0 < page \<Longrightarrow> scan_pages scan page q ce f s \<noteq> None"
proof (induction "nat (ce + 1 - f)" arbitrary: f s rule: less_induct)
  case less
  show ?case
  proof (cases "f \<le> ce")
    case True
    then have "nat (ce + 1 - (f + page)) < nat (ce + 1 - f)" using less.prems by simp
    from less.hyps [OF this less.prems] True show ?thesis
      by (simp add: scan_pages.simps [of scan page q ce f s] split: prod.splits sum.splits)
  qed (simp add: scan_pages.simps [of scan page q ce f s])
qed

lemma loop_returns: "0 < page \<Longrightarrow> scan_loop scan page q rs cursor m s \<noteq> None"
  by (induction rs arbitrary: cursor m s)
    (auto simp: Let_def pages_return split: option.splits sum.splits prod.splits)

text \<open>A renewal fails only where a scan failed.\<close>

lemma pages_fail:
  "0 < page \<Longrightarrow> scan_pages scan page q ce f s = Some (s', Inl e) \<Longrightarrow> \<exists>a b s. snd (scan a b s) = Inl e"
proof (induction "nat (ce + 1 - f)" arbitrary: f s rule: less_induct)
  case less
  show ?case
  proof (cases "f \<le> ce")
    case True
    let ?r = "scan f (min (min q (f + page - 1)) ce) s"
    show ?thesis
    proof (cases "snd ?r")
      case (Inl x)
      with less.prems True have "snd ?r = Inl e"
        by (auto simp: scan_pages.simps [of scan page q ce f s] split: prod.splits sum.splits)
      then show ?thesis by blast
    next
      case (Inr u)
      with less.prems True have "scan_pages scan page q ce (f + page) (fst ?r) = Some (s', Inl e)"
        by (auto simp: scan_pages.simps [of scan page q ce f s] split: prod.splits sum.splits)
      moreover have "nat (ce + 1 - (f + page)) < nat (ce + 1 - f)" using True less.prems(1) by simp
      ultimately show ?thesis using less.hyps less.prems(1) by blast
    qed
  qed (use less.prems in \<open>simp add: scan_pages.simps [of scan page q ce f s]\<close>)
qed

lemma loop_fail:
  "0 < page \<Longrightarrow> scan_loop scan page q rs cursor m s = Some (s', Inl e) \<Longrightarrow> \<exists>a b s. snd (scan a b s) = Inl e"
  by (induction rs arbitrary: cursor m s)
    (auto simp: Let_def split: option.splits sum.splits prod.splits if_splits dest: pages_fail)

lemma renew_fail:
  assumes "0 < page" "f \<le> t" "renewContractEventsCache H getPast page chain addr f t db = Some (db', Inl e)"
  shows "\<exists>a b. getPast a b = Inl e"
proof -
  obtain a b s where "snd (performScanForContractEvents H getPast chain addr a b s) = Inl e"
    using assms(2,3) by (auto simp: renewContractEventsCache_def split: option.splits sum.splits prod.splits
        dest: loop_fail [OF assms(1)])
  then show ?thesis by (cases "getPast a b") (auto simp: performScanForContractEvents_def Let_def)
qed

lemma pages_diverge:
  assumes "\<And>a b s. snd (scan a b s) = Inr ()" "page \<le> 0" "f \<le> ce"
  shows "scan_pages scan page q ce f s = None"
proof (rule ccontr)
  assume "scan_pages scan page q ce f s \<noteq> None"
  then obtain y where "scan_pages scan page q ce f s = Some y" by blast
  then have "(\<forall>a b s. snd (scan a b s) = Inr ()) \<longrightarrow> page \<le> 0 \<longrightarrow> f \<le> ce \<longrightarrow> False"
  proof (rule scan_pages.raw_induct [rotated])
    fix scan_pages and scan :: "int \<Rightarrow> int \<Rightarrow> 'a \<Rightarrow> 'a \<times> unit result" and page q ce f s y
    assume ih: "\<And>scan page q ce f s y. scan_pages scan page q ce f s = Some y \<Longrightarrow>
        (\<forall>a b s. snd (scan a b s :: 'a \<times> unit result) = Inr ()) \<longrightarrow> page \<le> 0 \<longrightarrow> f \<le> ce \<longrightarrow> False"
      and e: "(if f \<le> ce then case scan f (min (min q (f + page - 1)) ce) s of
          (db', Inl e) \<Rightarrow> Some (db', Inl e) | (db', Inr _) \<Rightarrow> scan_pages scan page q ce (f + page) db'
        else Some (s, Inr ())) = Some y"
    show "(\<forall>a b s. snd (scan a b s) = Inr ()) \<longrightarrow> page \<le> 0 \<longrightarrow> f \<le> ce \<longrightarrow> False"
    proof (intro impI)
      assume a: "\<forall>a b s. snd (scan a b s) = Inr ()" "page \<le> 0" "f \<le> ce"
      obtain s1 where "scan f (min (min q (f + page - 1)) ce) s = (s1, Inr ())"
        using a(1) by (metis prod.collapse)
      with e a(3) have "scan_pages scan page q ce (f + page) s1 = Some y" by simp
      from ih [OF this] a show False by simp
    qed
  qed
  with assms show False by blast
qed

text \<open>C27: with a positive page size the renewal returns for every table, interval and answer of
  web3; with a page size that is not positive it never returns on an empty table, unless web3 fails.\<close>

theorem renewal_returns:
  "(0 < page \<longrightarrow> renewContractEventsCache H getPast page chain addr f t db \<noteq> None) \<and>
   (page \<le> 0 \<longrightarrow> (\<forall>a b. is_ok (getPast a b)) \<longrightarrow> f \<le> t \<longrightarrow>
      renewContractEventsCache H getPast page chain addr f t empty_db = None)"
proof (intro conjI impI)
  assume p: "0 < page"
  show "renewContractEventsCache H getPast page chain addr f t db \<noteq> None"
    using loop_returns [OF p]
    by (cases "t < f") (simp_all add: renewContractEventsCache_def split: option.splits sum.splits prod.splits)
next
  assume p: "page \<le> 0" and g: "\<forall>a b. is_ok (getPast a b)" and ft: "f \<le> t"
  have "snd (performScanForContractEvents H getPast chain addr a b s) = Inr ()" for a b s
    using g [rule_format, of a b] by (cases "getPast a b") (simp_all add: performScanForContractEvents_def Let_def)
  from pages_diverge [OF this p ft] ft
  show "renewContractEventsCache H getPast page chain addr f t empty_db = None"
    by (simp add: renewContractEventsCache_def scanned_ranges_def findAll_def empty_db_def Let_def)
qed

lemma renewal_returns_witness:
  "renewContractEventsCache id (\<lambda>a b. Inr []) 10 ''c'' ''A'' 0 25 empty_db \<noteq> None \<and>
   renewContractEventsCache id (\<lambda>a b. Inr []) 0 ''c'' ''A'' 0 25 empty_db = None"
  using renewal_returns [of 10 id "\<lambda>a b. Inr []" "''c''" "''A''" 0 25 empty_db]
    renewal_returns [of 0 id "\<lambda>a b. Inr []" "''c''" "''A''" 0 25 empty_db] by simp

section \<open>Properties of the event cache\<close>


text \<open>The chain of the witnesses: an event at block 50, and web3 failing from block 20.\<close>

definition transfer_at :: "int \<Rightarrow> chain_event" where
  "transfer_at b = \<lparr>ce_id = ''log'', ce_address = ''A'', ce_block = b, ce_tx_hash = ''tx'', ce_tx_index = 0,
     ce_block_hash = ''bh'', ce_log_index = 0, ce_removed = False, ce_returns = [(''to'', JStr ''bob'')],
     ce_name = Some ''Transfer'', ce_signature = None, ce_data = ''0x'', ce_topics = [''t0'']\<rparr>"

definition past_of :: "chain_event list \<Rightarrow> int \<Rightarrow> int \<Rightarrow> chain_event list result" where
  "past_of logs a b = Inr (filter (\<lambda>e. a \<le> ce_block e \<and> ce_block e \<le> b) logs)"

definition past_until :: "int \<Rightarrow> chain_event list \<Rightarrow> int \<Rightarrow> int \<Rightarrow> chain_event list result" where
  "past_until n logs a b = (if n < b then Inl (PlainError ''timeout'') else past_of logs a b)"

lemma past_ok_of [simp]: "past_ok logs (past_of logs)" "past_ok logs (past_until n logs)"
  by (auto simp: past_ok_def past_of_def past_until_def)

lemma tables_ok_empty [simp]: "tables_ok H chain addr logs empty_db"
  by (simp add: tables_ok_def rows_ok_def empty_db_def)


definition exact_answer ::
  "chain_event list \<Rightarrow> (int \<Rightarrow> int \<Rightarrow> chain_event list result) \<Rightarrow> string \<Rightarrow> int \<Rightarrow> int \<Rightarrow> chain_event list result \<Rightarrow> bool" where
  "exact_answer logs getPast name f t r = (case r of
     Inl e \<Rightarrow> (\<exists>a b. getPast a b = Inl e)
   | Inr evs \<Rightarrow> mset evs = mset (filter (wanted name f t) logs) \<and> sorted (map ce_block evs))"

lemma paginated_exact:
  assumes "0 < page" "scanner_ok H getPast chain addr logs f t w db" "distinct logs"
    "\<And>e. e \<in> set logs \<Longrightarrow> ce_address e = addr" "0 \<le> f" "f \<le> t" "w \<Longrightarrow> f = 0"
  shows "\<exists>db' r. getPaginatedPastEvents H getPast page latest cks chain addr name
        \<lparr>opt_from = f, opt_to = Block t, opt_filter = []\<rparr> db = Some (db', r) \<and>
      tables_ok H chain addr logs db' \<and> exact_answer logs getPast name f t r"
proof -
  let ?q = "getPaginatedPastEvents H getPast page latest cks chain addr name
        \<lparr>opt_from = f, opt_to = Block t, opt_filter = []\<rparr> db"
  from renew_keeps [OF assms(1,2,5,6,7)] obtain db' r where
    r: "renewContractEventsCache H getPast page chain addr f t db = Some (db', r)"
       "scanning_ok H getPast chain addr logs db'"
       "r = Inr () \<Longrightarrow> (\<forall>x. f \<le> x \<longrightarrow> x \<le> t \<longrightarrow> known_at H chain addr logs db' x)" by blast
  have ok: "rows_ok H chain addr logs (event_tbl db')" "inj_on (event_key H addr) (set logs)"
      "tables_ok H chain addr logs db'"
    using r(2) by (simp_all add: scanning_ok_def tables_ok_def)
  show ?thesis
  proof (cases r)
    case (Inl e)
    with r(1) have "?q = Some (db', Inl e)" by (simp add: getPaginatedPastEvents_def Let_def)
    moreover have "exact_answer logs getPast name f t (Inl e)"
      using renew_fail [OF assms(1,6)] r(1) Inl by (auto simp: exact_answer_def)
    ultimately show ?thesis using ok by blast
  next
    case (Inr u)
    with r(1) have "?q = Some (db', Inr (fetchCachedEvents chain addr name f t db'))"
      by (simp add: getPaginatedPastEvents_def Let_def checksum_filter_def filter_events_def)
    moreover have "exact_answer logs getPast name f t (Inr (fetchCachedEvents chain addr name f t db'))"
      using fetch_answer [OF ok(1,2) assms(3,4,6)] r(3) Inr by (simp add: exact_answer_def)
    ultimately show ?thesis using ok by blast
  qed
qed

text \<open>Over truthful tables a query of an interval returns with exactly the chain's events of
  that name in it, each once and in the order of their blocks, or with an error that web3 gave.\<close>

theorem cached_events_are_the_chains:
  assumes "0 < page" "past_ok logs getPast" "inj_on (event_key H addr) (set logs)" "distinct logs"
    "\<And>e. e \<in> set logs \<Longrightarrow> ce_address e = addr"
    "tables_ok H chain addr logs db" "0 \<le> f" "f \<le> t" "touches chain addr f t db"
  shows "\<exists>db' r. getPaginatedPastEvents H getPast page latest cks chain addr name
        \<lparr>opt_from = f, opt_to = Block t, opt_filter = []\<rparr> db = Some (db', r) \<and>
      exact_answer logs getPast name f t r"
proof -
  have "scanner_ok H getPast chain addr logs f t False db"
    using assms by (simp add: scanner_ok_def scanning_ok_def)
  from paginated_exact [OF assms(1) this assms(4,5,7,8)] show ?thesis by blast
qed

lemma cached_events_witness:
  "\<exists>db' r. getPaginatedPastEvents id (past_of [transfer_at 5]) 10 25 id ''c'' ''A'' ''Transfer''
        \<lparr>opt_from = 0, opt_to = Block 25, opt_filter = []\<rparr> empty_db = Some (db', r) \<and>
      exact_answer [transfer_at 5] (past_of [transfer_at 5]) ''Transfer'' 0 25 r"
  by (rule cached_events_are_the_chains) (simp_all add: touches_def transfer_at_def, simp add: empty_db_def)

text \<open>The node's own queries of a contract: from block 0 to the latest block, which never goes
  back; every query may fail.\<close>

inductive queried ::
  "(string \<Rightarrow> string) \<Rightarrow> int \<Rightarrow> string \<Rightarrow> string \<Rightarrow> chain_event list \<Rightarrow> int \<Rightarrow> event_db \<Rightarrow> bool"
  for H page chain addr logs where
  start: "queried H page chain addr logs 0 empty_db"
| query: "queried H page chain addr logs t db \<Longrightarrow> t \<le> t' \<Longrightarrow> past_ok logs getPast \<Longrightarrow>
    renewContractEventsCache H getPast page chain addr 0 t' db = Some (db', r) \<Longrightarrow>
    queried H page chain addr logs t' db'"

lemma ranges_upto_touches: "ranges_upto chain addr t db \<Longrightarrow> tables_ok H chain addr logs db \<Longrightarrow> t \<le> t' \<Longrightarrow>
  touches chain addr 0 t' db \<and> ranges_upto chain addr t' db"
  by (cases "scan_tbl db") (fastforce simp: ranges_upto_def touches_def tables_ok_def range_ok_def)+

lemma queried_ok:
  assumes "queried H page chain addr logs t db" "0 < page" "inj_on (event_key H addr) (set logs)"
  shows "0 \<le> t \<and> tables_ok H chain addr logs db \<and> ranges_upto chain addr t db"
  using assms(1)
proof (induction rule: queried.induct)
  case start
  show ?case by (simp add: ranges_upto_def) (simp add: empty_db_def)
next
  case (query t db t' getPast db' r)
  then have "scanner_ok H getPast chain addr logs 0 t' True db"
    using ranges_upto_touches [of chain addr t db H logs t'] assms(3)
    by (simp add: scanner_ok_def scanning_ok_def)
  from renew_keeps [OF assms(2) this] query show ?case by (auto simp: scanning_ok_def)
qed



text \<open>Where the first range lies apart from the interval, the collapse claims the blocks between
  them: the ranges 100 to 200 and 0 to 10 become 0 to 200, and the event at block 50 is never
  found.\<close>

definition far_range :: event_db where
  "far_range = \<lparr>event_tbl = [], scan_tbl = [(''A_100_200'',
     \<lparr>sc_contract = ''A'', sc_chain = ''c'', from_block = 100, to_block = 200\<rparr>)]\<rparr>"

lemma far_range_truthful: "tables_ok id ''c'' ''A'' [transfer_at 50] far_range"
  by (simp add: tables_ok_def rows_ok_def far_range_def range_ok_def known_at_def transfer_at_def)

lemma collapse_hides_events:
  "\<exists>db. renewContractEventsCache id (past_of [transfer_at 50]) 10000 ''c'' ''A'' 0 10 far_range = Some (db, Inr ()) \<and>
     getPaginatedPastEvents id (past_of [transfer_at 50]) 10000 200 id ''c'' ''A'' ''Transfer''
       \<lparr>opt_from = 0, opt_to = Latest, opt_filter = []\<rparr> db = Some (db, Inr [])"
proof -
  let ?db = "\<lparr>event_tbl = [], scan_tbl = [(''A_100_200'',
     \<lparr>sc_contract = ''A'', sc_chain = ''c'', from_block = 0, to_block = 200\<rparr>)]\<rparr>"
  have "renewContractEventsCache id (past_of [transfer_at 50]) 10000 ''c'' ''A'' 0 10 far_range = Some (?db, Inr ())"
    by (simp add: renewContractEventsCache_def far_range_def scanned_ranges_def findAll_def scan_match_def
        scan_pages.simps performScanForContractEvents_def past_of_def transfer_at_def collapse_ranges_def
        scan_id_def show_int_def show_nat.simps digit_char_def Let_def)
  moreover have "getPaginatedPastEvents id (past_of [transfer_at 50]) 10000 200 id ''c'' ''A'' ''Transfer''
       \<lparr>opt_from = 0, opt_to = Latest, opt_filter = []\<rparr> ?db = Some (?db, Inr [])"
    by (simp add: getPaginatedPastEvents_def renewContractEventsCache_def scanned_ranges_def findAll_def
        scan_match_def fetchCachedEvents_def filter_events_def collapse_ranges_def checksum_filter_def Let_def)
  ultimately show ?thesis by blast
qed

end
