(* ===== verification/Identity.thy ===== *)
theory Identity
  imports Caches Codec
begin

text \<open>
  The identity of a user: \<open>src/name_service/identity.ts\<close> and
  \<open>identity-cache.ts\<close> over the expiring cache.  The blockchain clients are
  arguments, and one clock value serves the three lookups of a call.
\<close>

section \<open>Records\<close>

record identity_data =
  id_name :: "string option"
  id_address :: string
  id_publicKey :: string
  id_network :: string

record identity_params =
  solAddress :: string
  ethAddress :: string
  targets :: "string list"
  solNetwork :: string
  ethNetwork :: string

text \<open>The keystore and the clients of the chains; a lookup may fail, and \<open>None\<close> is null.\<close>

record identity_env =
  networkPublicKey :: string
  networkAddress :: string
  identityByOwner :: "string \<Rightarrow> string option result"
  toPublicKey :: "string \<Rightarrow> string result"
  solanaKey :: "string result"
  solanaDomain :: "string \<Rightarrow> string \<Rightarrow> string option result"
  ensDomain :: "string \<Rightarrow> string \<Rightarrow> string option result"

type_synonym identity_cache = "(string, identity_data) cache"

definition identity_expiration :: int where
  "identity_expiration = 5 * 60 * 1000"

definition identityCache :: identity_cache where
  "identityCache = new_cache identity_expiration None"

definition addToCache :: "int \<Rightarrow> identity_data \<Rightarrow> identity_cache \<Rightarrow> identity_cache" where
  "addToCache now d c = add now (''point:'' @ id_address d) d c"

section \<open>The lookups\<close>

text \<open>A missing or empty name is no identity.\<close>

definition has_name :: "identity_data \<Rightarrow> bool" where
  "has_name d = (case id_name d of None \<Rightarrow> False | Some n \<Rightarrow> n \<noteq> [])"

definition with_defaults :: "identity_params \<Rightarrow> identity_params" where
  "with_defaults ps = ps\<lparr>solNetwork := (if solNetwork ps = [] then ''solana'' else solNetwork ps),
     ethNetwork := (if ethNetwork ps = [] then ''rinkeby'' else ethNetwork ps)\<rparr>"

definition asked :: "string \<Rightarrow> identity_params \<Rightarrow> bool" where
  "asked n ps \<longleftrightarrow> targets ps = [] \<or> n \<in> set (targets ps)"

definition eth_address :: "identity_env \<Rightarrow> identity_params \<Rightarrow> string" where
  "eth_address env ps = (if ethAddress ps = [] then networkAddress env else ethAddress ps)"

definition bare_address :: "string \<Rightarrow> string" where
  "bare_address a = to_lower (replace_first ''0x'' [] a)"

text \<open>A section of the function: \<open>Some d\<close> is its \<open>return d\<close>, \<open>None\<close> goes on to the next
  section.\<close>

definition point_section ::
  "identity_env \<Rightarrow> int \<Rightarrow> identity_params \<Rightarrow> identity_cache \<Rightarrow> identity_cache \<times> identity_data option" where
  "point_section env now ps c =
     (let a = eth_address env ps; key = ''point:'' @ a;
          d = \<lparr>id_name = None, id_address = a, id_publicKey = networkPublicKey env, id_network = ''point''\<rparr>
      in case get now key c of
           (c1, Some hit) \<Rightarrow> (c1, if has_name hit then Some hit else None)
         | (c1, None) \<Rightarrow>
             (case identityByOwner env a of
                Inl _ \<Rightarrow> (c1, Some d)
              | Inr (Some n) \<Rightarrow>
                  if n \<noteq> [] \<and> bare_address n \<noteq> bare_address a
                  then (add now key (d\<lparr>id_name := Some n\<rparr>) c1, Some (d\<lparr>id_name := Some n\<rparr>))
                  else (add now key d c1, None)
              | Inr None \<Rightarrow> (add now key d c1, None)))"

text \<open>The sections for Solana and Ethereum after the key is known: errors are logged.\<close>

definition domain_section ::
  "int \<Rightarrow> string \<Rightarrow> identity_data \<Rightarrow> string option result \<Rightarrow> identity_cache \<Rightarrow>
   identity_cache \<times> identity_data option" where
  "domain_section now key d answer c =
     (case get now key c of
        (c1, Some hit) \<Rightarrow> (c1, if has_name hit then Some hit else None)
      | (c1, None) \<Rightarrow>
          (case answer of
             Inl _ \<Rightarrow> (c1, None)
           | Inr (Some n) \<Rightarrow>
               if n \<noteq> [] then (add now key (d\<lparr>id_name := Some n\<rparr>) c1, Some (d\<lparr>id_name := Some n\<rparr>))
               else (add now key d c1, None)
           | Inr None \<Rightarrow> (add now key d c1, None)))"

definition solana_section ::
  "identity_env \<Rightarrow> int \<Rightarrow> identity_params \<Rightarrow> identity_cache \<Rightarrow> identity_cache \<times> identity_data option" where
  "solana_section env now ps c =
     (case (if solAddress ps \<noteq> [] then toPublicKey env (solAddress ps) else solanaKey env) of
        Inl _ \<Rightarrow> (c, None)
      | Inr pk \<Rightarrow> domain_section now (''sol:'' @ pk)
          \<lparr>id_name = None, id_address = pk, id_publicKey = pk, id_network = ''solana''\<rparr>
          (solanaDomain env pk (solNetwork ps)) c)"

definition ethereum_section ::
  "identity_env \<Rightarrow> int \<Rightarrow> identity_params \<Rightarrow> identity_cache \<Rightarrow> identity_cache \<times> identity_data option" where
  "ethereum_section env now ps c =
     domain_section now (''eth:'' @ eth_address env ps)
       \<lparr>id_name = None, id_address = eth_address env ps, id_publicKey = networkPublicKey env,
        id_network = ''ethereum''\<rparr>
       (ensDomain env (eth_address env ps) (ethNetwork ps)) c"

definition run_section ::
  "bool \<Rightarrow> (identity_cache \<Rightarrow> identity_cache \<times> identity_data option) \<Rightarrow>
   identity_cache \<times> identity_data option \<Rightarrow> identity_cache \<times> identity_data option" where
  "run_section wanted sec r = (case r of (c, None) \<Rightarrow> if wanted then sec c else (c, None) | _ \<Rightarrow> r)"

definition no_identity :: "identity_env \<Rightarrow> identity_data" where
  "no_identity env = \<lparr>id_name = None, id_address = networkAddress env,
     id_publicKey = networkPublicKey env, id_network = ''point''\<rparr>"

definition getIdentity ::
  "identity_env \<Rightarrow> int \<Rightarrow> identity_params \<Rightarrow> identity_cache \<Rightarrow> identity_cache \<times> identity_data" where
  "getIdentity env now ps0 c =
     (let ps = with_defaults ps0;
          r1 = run_section (asked ''point'' ps) (point_section env now ps) (c, None);
          r2 = run_section (asked ''solana'' ps) (solana_section env now ps) r1;
          r3 = run_section (asked ''ethereum'' ps) (ethereum_section env now ps) r2
      in case r3 of (c', Some d) \<Rightarrow> (c', d) | (c', None) \<Rightarrow> (c', no_identity env))"

section \<open>The reference without a cache\<close>

definition point_answer :: "identity_env \<Rightarrow> string \<Rightarrow> identity_data result" where
  "point_answer env a =
     (let d = \<lparr>id_name = None, id_address = a, id_publicKey = networkPublicKey env, id_network = ''point''\<rparr>
      in case identityByOwner env a of
           Inl e \<Rightarrow> Inl e
         | Inr po \<Rightarrow> Inr (d\<lparr>id_name := (case po of None \<Rightarrow> None
             | Some n \<Rightarrow> if n \<noteq> [] \<and> bare_address n \<noteq> bare_address a then Some n else None)\<rparr>))"

definition domain_answer :: "identity_data \<Rightarrow> string option result \<Rightarrow> identity_data result" where
  "domain_answer d answer = (case answer of Inl e \<Rightarrow> Inl e
     | Inr po \<Rightarrow> Inr (d\<lparr>id_name := (case po of None \<Rightarrow> None | Some n \<Rightarrow> if n \<noteq> [] then Some n else None)\<rparr>))"

definition sns_answer :: "identity_env \<Rightarrow> string \<Rightarrow> string \<Rightarrow> identity_data result" where
  "sns_answer env net pk = domain_answer \<lparr>id_name = None, id_address = pk, id_publicKey = pk, id_network = ''solana''\<rparr>
     (solanaDomain env pk net)"

definition ens_answer :: "identity_env \<Rightarrow> string \<Rightarrow> string \<Rightarrow> identity_data result" where
  "ens_answer env net a = domain_answer
     \<lparr>id_name = None, id_address = a, id_publicKey = networkPublicKey env, id_network = ''ethereum''\<rparr>
     (ensDomain env a net)"

text \<open>What a caller is promised: the first identity in the order Point, SNS, ENS among those asked
  for; a failure of the Point contract ends the search.\<close>

definition named :: "identity_data result \<Rightarrow> identity_data option" where
  "named r = (case r of Inr d \<Rightarrow> if has_name d then Some d else None | Inl _ \<Rightarrow> None)"

definition promised_identity :: "identity_env \<Rightarrow> identity_params \<Rightarrow> identity_data" where
  "promised_identity env ps =
     (let a = eth_address env ps;
          sol = (if asked ''solana'' ps
                 then (case (if solAddress ps \<noteq> [] then toPublicKey env (solAddress ps) else solanaKey env) of
                         Inl _ \<Rightarrow> None | Inr pk \<Rightarrow> named (sns_answer env (solNetwork ps) pk))
                 else None);
          eth = (if asked ''ethereum'' ps then named (ens_answer env (ethNetwork ps) a) else None);
          rest = (case sol of Some d \<Rightarrow> d | None \<Rightarrow> (case eth of Some d \<Rightarrow> d | None \<Rightarrow> no_identity env))
      in if asked ''point'' ps
         then (case point_answer env a of
                 Inl _ \<Rightarrow> \<lparr>id_name = None, id_address = a, id_publicKey = networkPublicKey env, id_network = ''point''\<rparr>
               | Inr d \<Rightarrow> if has_name d then d else rest)
         else rest)"

text \<open>A cache that agrees with the chains, for the networks that are asked.\<close>

definition cache_true :: "identity_env \<Rightarrow> string \<Rightarrow> string \<Rightarrow> identity_cache \<Rightarrow> bool" where
  "cache_true env solnet ethnet c \<longleftrightarrow> unlimited c \<and>
     (\<forall>t a d. live t c (''point:'' @ a) = Some d \<longrightarrow> point_answer env a = Inr d) \<and>
     (\<forall>t a d. live t c (''sol:'' @ a) = Some d \<longrightarrow> sns_answer env solnet a = Inr d) \<and>
     (\<forall>t a d. live t c (''eth:'' @ a) = Some d \<longrightarrow> ens_answer env ethnet a = Inr d)"

section \<open>The cache is transparent\<close>

definition true_entry :: "identity_env \<Rightarrow> string \<Rightarrow> string \<Rightarrow> string \<Rightarrow> identity_data \<Rightarrow> bool" where
  "true_entry env solnet ethnet k d \<longleftrightarrow>
     (\<forall>a. k = ''point:'' @ a \<longrightarrow> point_answer env a = Inr d) \<and>
     (\<forall>a. k = ''sol:'' @ a \<longrightarrow> sns_answer env solnet a = Inr d) \<and>
     (\<forall>a. k = ''eth:'' @ a \<longrightarrow> ens_answer env ethnet a = Inr d)"

lemma cache_true_iff: "cache_true env sn en c \<longleftrightarrow> unlimited c \<and>
    (\<forall>t k d. live t c k = Some d \<longrightarrow> true_entry env sn en k d)"
  unfolding cache_true_def true_entry_def by blast

lemma cache_true_get [intro]: "cache_true env sn en c \<Longrightarrow> cache_true env sn en (fst (get now k c))"
  unfolding cache_true_iff by (simp add: cf.view_look cf.ok_look)

lemma cache_true_add [intro]:
  "cache_true env sn en c \<Longrightarrow> true_entry env sn en k d \<Longrightarrow> cache_true env sn en (add now k d c)"
  unfolding cache_true_iff
proof (intro conjI allI impI)
  fix t k' x
  assume c: "unlimited c \<and> (\<forall>t k d. live t c k = Some d \<longrightarrow> true_entry env sn en k d)"
    and d: "true_entry env sn en k d" and l: "live t (add now k d c) k' = Some x"
  then show "true_entry env sn en k' x"
    by (cases "k' = k") (auto simp: live_add_same live_add_other unlimited_def split: if_splits)
qed (simp add: cf.ok_put)

lemma true_entry_simps [simp]:
  "true_entry env sn en (''point:'' @ a) d \<longleftrightarrow> point_answer env a = Inr d"
  "true_entry env sn en (''sol:'' @ a) d \<longleftrightarrow> sns_answer env sn a = Inr d"
  "true_entry env sn en (''eth:'' @ a) d \<longleftrightarrow> ens_answer env en a = Inr d"
  by (simp_all add: true_entry_def)

lemma hit_true:
  "cache_true env sn en c \<Longrightarrow> get now k c = (c1, Some d) \<Longrightarrow> true_entry env sn en k d"
  unfolding cache_true_iff by (metis cf.look_view snd_conv)

lemma get_true: "cache_true env sn en c \<Longrightarrow> get now k c = (c1, h) \<Longrightarrow> cache_true env sn en c1"
  using cache_true_get [of env sn en c now k] by simp

definition section_spec ::
  "identity_env \<Rightarrow> string \<Rightarrow> string \<Rightarrow> identity_cache \<times> identity_data option \<Rightarrow> identity_data option \<Rightarrow> bool" where
  "section_spec env sn en r d \<longleftrightarrow> cache_true env sn en (fst r) \<and> snd r = d"

lemma domain_section_spec:
  assumes "cache_true env sn en c" "id_name d = None"
    "\<And>x. true_entry env sn en k x \<longleftrightarrow> domain_answer d answer = Inr x"
  shows "section_spec env sn en (domain_section now k d answer c) (named (domain_answer d answer))"
proof -
  obtain c1 h where g: "get now k c = (c1, h)" by (cases "get now k c")
  note t = get_true [OF assms(1) g]
  show ?thesis
  proof (cases h)
    case (Some x)
    with hit_true [OF assms(1)] g assms(3) have "domain_answer d answer = Inr x" by blast
    with g Some t show ?thesis by (simp add: section_spec_def domain_section_def named_def)
  next
    case None
    obtain a p w where d: "d = \<lparr>id_name = None, id_address = a, id_publicKey = p, id_network = w\<rparr>"
      using assms(2) by (cases d) auto
    have e: "cache_true env sn en (add now k x c1)" if "domain_answer d answer = Inr x" for x
      using that t assms(3) by blast
    show ?thesis using g None t e
      by (auto simp: d section_spec_def domain_section_def domain_answer_def named_def has_name_def
          split: sum.splits option.splits)
  qed
qed

lemma solana_section_spec:
  assumes "cache_true env (solNetwork ps) en c"
  shows "section_spec env (solNetwork ps) en (solana_section env now ps c)
    (case (if solAddress ps \<noteq> [] then toPublicKey env (solAddress ps) else solanaKey env) of
       Inl _ \<Rightarrow> None | Inr pk \<Rightarrow> named (sns_answer env (solNetwork ps) pk))"
proof (cases "if solAddress ps \<noteq> [] then toPublicKey env (solAddress ps) else solanaKey env")
  case (Inl e)
  with assms show ?thesis by (simp add: solana_section_def section_spec_def)
next
  case (Inr pk)
  with domain_section_spec [OF assms, of "\<lparr>id_name = None, id_address = pk, id_publicKey = pk, id_network = ''solana''\<rparr>"
      "''sol:'' @ pk" "solanaDomain env pk (solNetwork ps)" now]
  show ?thesis by (simp add: solana_section_def sns_answer_def del: append.simps)
qed

lemma ethereum_section_spec:
  assumes "cache_true env sn (ethNetwork ps) c"
  shows "section_spec env sn (ethNetwork ps) (ethereum_section env now ps c)
    (named (ens_answer env (ethNetwork ps) (eth_address env ps)))"
  using domain_section_spec [OF assms, of "\<lparr>id_name = None, id_address = eth_address env ps,
      id_publicKey = networkPublicKey env, id_network = ''ethereum''\<rparr>" "''eth:'' @ eth_address env ps"
      "ensDomain env (eth_address env ps) (ethNetwork ps)" now]
  by (simp add: ethereum_section_def ens_answer_def del: append.simps)

lemma point_section_spec:
  assumes "cache_true env sn en c"
  shows "section_spec env sn en (point_section env now ps c)
    (case point_answer env (eth_address env ps) of
       Inl _ \<Rightarrow> Some \<lparr>id_name = None, id_address = eth_address env ps, id_publicKey = networkPublicKey env,
                     id_network = ''point''\<rparr>
     | Inr d \<Rightarrow> if has_name d then Some d else None)"
proof -
  let ?a = "eth_address env ps" and ?k = "''point:'' @ eth_address env ps"
  obtain c1 h where g: "get now ?k c = (c1, h)" by (cases "get now ?k c")
  note t = get_true [OF assms g]
  show ?thesis
  proof (cases h)
    case (Some x)
    have "point_answer env ?a = Inr x"
      using hit_true [OF assms g [unfolded Some]] by (simp del: append.simps)
    with g Some t show ?thesis by (simp add: section_spec_def point_section_def Let_def del: append.simps)
  next
    case None
    have e: "cache_true env sn en (add now ?k x c1)" if "point_answer env ?a = Inr x" for x
      using that t by (intro cache_true_add) (simp_all del: append.simps)
    show ?thesis using g None t e
      by (auto simp: section_spec_def point_section_def point_answer_def has_name_def Let_def
          simp del: append.simps split: sum.splits option.splits)
  qed
qed

text \<open>C8: over a cache that agrees with the chains the answer is the identity promised without any
  cache, in the order Point, SNS, ENS, and the cache still agrees with the chains afterwards.\<close>

theorem identity_cache_transparent:
  assumes "cache_true env (solNetwork (with_defaults ps)) (ethNetwork (with_defaults ps)) c"
  shows "snd (getIdentity env now ps c) = promised_identity env (with_defaults ps) \<and>
    cache_true env (solNetwork (with_defaults ps)) (ethNetwork (with_defaults ps)) (fst (getIdentity env now ps c))"
proof -
  let ?ps = "with_defaults ps"
  let ?sn = "solNetwork ?ps" and ?en = "ethNetwork ?ps"
  let ?r1 = "run_section (asked ''point'' ?ps) (point_section env now ?ps) (c, None)"
  let ?r2 = "run_section (asked ''solana'' ?ps) (solana_section env now ?ps) ?r1"
  let ?r3 = "run_section (asked ''ethereum'' ?ps) (ethereum_section env now ?ps) ?r2"
  have keep: "section_spec env ?sn ?en (run_section w sec r) (case snd r of Some x \<Rightarrow> Some x | None \<Rightarrow> if w then d else None)"
    if "section_spec env ?sn ?en r (snd r)" "\<And>c. cache_true env ?sn ?en c \<Longrightarrow> section_spec env ?sn ?en (sec c) d"
    for w sec r d
    using that by (cases r) (auto simp: run_section_def section_spec_def split: option.splits)
  have 1: "section_spec env ?sn ?en (c, None) (snd (c, None))" using assms by (simp add: section_spec_def)
  note r1 = keep [where w = "asked ''point'' ?ps" and sec = "point_section env now ?ps", OF 1 point_section_spec [where now = now and ps = ?ps]]
  then have "section_spec env ?sn ?en ?r1 (snd ?r1)" by (simp add: section_spec_def)
  note r2 = keep [where w = "asked ''solana'' ?ps" and sec = "solana_section env now ?ps", OF this solana_section_spec [where now = now]]
  then have "section_spec env ?sn ?en ?r2 (snd ?r2)" by (simp add: section_spec_def)
  note r3 = keep [where w = "asked ''ethereum'' ?ps" and sec = "ethereum_section env now ?ps", OF this ethereum_section_spec [where now = now]]
  obtain c3 d3 where e3: "?r3 = (c3, d3)" by (cases ?r3)
  have g: "getIdentity env now ps c = (c3, case d3 of Some d \<Rightarrow> d | None \<Rightarrow> no_identity env)"
    using e3 by (simp add: getIdentity_def Let_def split: option.splits)
  have "cache_true env ?sn ?en c3" using r3 e3 by (simp add: section_spec_def)
  moreover have "(case d3 of Some d \<Rightarrow> d | None \<Rightarrow> no_identity env) = promised_identity env ?ps"
    using r1 r2 r3 e3
    by (auto simp: section_spec_def promised_identity_def Let_def split: option.splits sum.splits)
  ultimately show ?thesis using g by simp
qed

definition toy_identities :: identity_env where
  "toy_identities = \<lparr>networkPublicKey = ''pk'', networkAddress = ''0xAB'',
     identityByOwner = (\<lambda>a. if a = ''0xAB'' then Inr (Some ''ab'') else Inr (Some ''bob'')),
     toPublicKey = (\<lambda>s. Inr s), solanaKey = Inr ''so1'',
     solanaDomain = (\<lambda>pk net. if pk = ''so1'' then Inr (Some ''x.sol'') else Inr None),
     ensDomain = (\<lambda>a net. if net = ''mainnet'' then Inr (Some ''m.eth'') else Inr None)\<rparr>"

definition toy_params :: identity_params where
  "toy_params = \<lparr>solAddress = [], ethAddress = [], targets = [], solNetwork = [], ethNetwork = []\<rparr>"

lemma cache_true_empty [simp]: "cache_true env sn en identityCache"
  by (simp add: cache_true_iff identityCache_def unlimited_new) (simp add: live_def new_cache_def)

lemma toy_promised: "promised_identity toy_identities (with_defaults toy_params) =
    \<lparr>id_name = Some ''x.sol'', id_address = ''so1'', id_publicKey = ''so1'', id_network = ''solana''\<rparr>"
  by code_simp

lemma identity_cache_transparent_witness:
  "snd (getIdentity toy_identities 0 toy_params identityCache) =
    \<lparr>id_name = Some ''x.sol'', id_address = ''so1'', id_publicKey = ''so1'', id_network = ''solana''\<rparr>"
  using identity_cache_transparent [OF cache_true_empty, of toy_identities 0 toy_params] toy_promised by simp

text \<open>The key of an ENS answer does not name the network: the answer for one network is returned for
  another.\<close>

definition ens_on :: "string \<Rightarrow> identity_params" where
  "ens_on net = toy_params\<lparr>targets := [''ethereum''], ethNetwork := net\<rparr>"

lemma ens_network_not_in_key:
  "id_name (promised_identity toy_identities (with_defaults (ens_on ''rinkeby''))) = None \<and>
   id_name (snd (getIdentity toy_identities 0 (ens_on ''rinkeby'')
     (fst (getIdentity toy_identities 0 (ens_on ''mainnet'') identityCache)))) = Some ''m.eth''"
  by code_simp

text \<open>A failing Point contract ends the search, although a Solana name exists.\<close>

lemma point_failure_ends_search:
  "id_name (snd (getIdentity (toy_identities\<lparr>identityByOwner := \<lambda>_. Inl TypeError\<rparr>) 0 toy_params identityCache)) = None"
  by code_simp

end
