(* ===== verification/KeyValue.thy ===== *)
theory KeyValue
  imports Events "HOL-Library.Char_ord" "HOL-Library.List_Lexorder"
begin

text \<open>
  The key-value store of the Identity contract as \<open>src/network/providers/ethereum.js\<close>
  reads and writes it, over the promise cache of \<open>src/util/cache.ts\<close>.  The package
  node-cache is an argument (a record of operations with its documented laws) and the
  contract is one too.  A cached promise is represented by its outcome.
\<close>

section \<open>Versions\<close>

text \<open>\<open>compareVersions\<close>: the parts are compared as strings, over the parts of the first version;
  a missing part of the second is neither smaller nor greater.\<close>

fun compare_parts :: "string list \<Rightarrow> string list \<Rightarrow> int" where
  "compare_parts [] q = 0"
| "compare_parts (a # p) [] = compare_parts p []"
| "compare_parts (a # p) (b # q) = (if a > b then 1 else if a < b then -1 else compare_parts p q)"

definition compareVersions :: "string \<Rightarrow> string \<Rightarrow> int" where
  "compareVersions v1 v2 = compare_parts (split_ch CHR ''.'' v1) (split_ch CHR ''.'' v2)"

text \<open>The version and the value of an \<open>IKVSet\<close> event; both are strings.\<close>

definition return_str :: "string \<Rightarrow> chain_event \<Rightarrow> string" where
  "return_str k e = (case jstr (obj_get (ce_returns e) k) of Some s \<Rightarrow> s | None \<Rightarrow> [])"

definition later_event :: "chain_event \<Rightarrow> chain_event \<Rightarrow> chain_event" where
  "later_event prev current =
     (if compareVersions (return_str ''version'' prev) (return_str ''version'' current) = 1 then prev else current)"

definition getLastVersionOrBefore :: "string \<Rightarrow> chain_event list \<Rightarrow> string option" where
  "getLastVersionOrBefore version evs =
     (case filter (\<lambda>e. compareVersions (return_str ''version'' e) version \<in> {-1, 0}) evs of
        [] \<Rightarrow> None
      | e # es \<Rightarrow> Some (return_str ''value'' (foldl later_event e es)))"

definition newer_block :: "chain_event \<Rightarrow> chain_event \<Rightarrow> chain_event" where
  "newer_block prev current = (if ce_block prev > ce_block current then prev else current)"

definition getKeyLastVersion ::
  "((string, json) obj \<Rightarrow> chain_event list result) \<Rightarrow> string \<Rightarrow> string \<Rightarrow> string option result" where
  "getKeyLastVersion ikv_events identity key =
     (case ikv_events [(''identity'', JStr identity), (''key'', JStr key)] of
        Inl e \<Rightarrow> Inl e
      | Inr [] \<Rightarrow> Inr None
      | Inr (e # es) \<Rightarrow> Inr (Some (return_str ''version'' (foldl newer_block e es))))"

section \<open>The promise cache\<close>

record ('c, 'v) node_cache =
  nc_get :: "int \<Rightarrow> string \<Rightarrow> 'c \<Rightarrow> 'v option"
  nc_set :: "int \<Rightarrow> string \<Rightarrow> 'v \<Rightarrow> 'c \<Rightarrow> 'c"
  nc_keys :: "'c \<Rightarrow> string list"
  nc_del :: "string \<Rightarrow> 'c \<Rightarrow> 'c"

definition cached ::
  "('c, 'v) node_cache \<Rightarrow> int \<Rightarrow> string \<Rightarrow> 'v \<Rightarrow> 'c \<Rightarrow> 'c \<times> 'v" where
  "cached nc now k outcome c =
     (case nc_get nc now k c of Some v \<Rightarrow> (c, v) | None \<Rightarrow> (nc_set nc now k outcome c, outcome))"

definition delStartWith :: "('c, 'v) node_cache \<Rightarrow> string \<Rightarrow> 'c \<Rightarrow> 'c" where
  "delStartWith nc startStr c =
     (if startStr = [] then c
      else foldl (\<lambda>c k. nc_del nc k c) c (filter (includes_str startStr) (nc_keys nc c)))"

section \<open>Reading\<close>

text \<open>The contract's getter and the events of \<open>IKVSet\<close> for a filter, as \<open>getPastEvents\<close>
  from block 0 to the latest answers.\<close>

record kv_env =
  ikvGet :: "string \<Rightarrow> string \<Rightarrow> string option result"
  ikv_events :: "(string, json) obj \<Rightarrow> chain_event list result"

definition strip_point :: "string \<Rightarrow> string" where
  "strip_point i = replace_suffix ''.point'' [] i"

definition base_key :: "string \<Rightarrow> string \<Rightarrow> string" where
  "base_key identity key = identity @ ''-'' @ key"

definition version_key :: "string \<Rightarrow> string \<Rightarrow> string \<Rightarrow> string" where
  "version_key identity key version = base_key identity key @ ''-'' @ version"

definition exact_lookup :: "kv_env \<Rightarrow> string \<Rightarrow> string \<Rightarrow> string \<Rightarrow> string option result" where
  "exact_lookup env identity key version =
     (case ikv_events env [(''identity'', JStr identity), (''key'', JStr key), (''version'', JStr version)] of
        Inl e \<Rightarrow> Inl e
      | Inr [] \<Rightarrow> Inr None
      | Inr (e # _) \<Rightarrow> Inr (Some (return_str ''value'' e)))"

definition before_lookup :: "kv_env \<Rightarrow> string \<Rightarrow> string \<Rightarrow> string \<Rightarrow> string option result" where
  "before_lookup env identity key version =
     (case ikv_events env [(''identity'', JStr identity), (''key'', JStr key)] of
        Inl e \<Rightarrow> Inl e
      | Inr evs \<Rightarrow> Inr (getLastVersionOrBefore version evs))"

text \<open>The part of \<open>getKeyValue\<close> that gets the value, for an identity that does not end in
  \<open>.local\<close>.\<close>

definition kv_read ::
  "('c, string option result) node_cache \<Rightarrow> kv_env \<Rightarrow> int \<Rightarrow> string \<Rightarrow> string \<Rightarrow> string \<Rightarrow> string \<Rightarrow> 'c \<Rightarrow>
   'c \<times> string option result" where
  "kv_read nc env now identity0 key version strategy c =
     (let identity = strip_point identity0
      in if version = ''latest'' then cached nc now (base_key identity key) (ikvGet env identity key) c
         else if strategy = ''exact''
         then cached nc now (version_key identity key version) (exact_lookup env identity key version) c
         else if strategy = ''equalOrBefore''
         then cached nc now (version_key identity key version) (before_lookup env identity key version) c
         else (c, Inr None))"

text \<open>\<open>.local\<close> becomes \<open>.point\<close> until the identity no longer ends in it.\<close>

lemma count_replace_local:
  "includes_str ''.local'' s \<Longrightarrow>
   count_list (replace_first ''.local'' ''.point'' s) CHR ''l'' < count_list s CHR ''l''"
proof (induction s)
  case (Cons c cs)
  show ?case
  proof (cases "starts_with ''.local'' (c # cs)")
    case True
    then obtain r where e: "c # cs = ''.local'' @ r" by (auto simp: starts_with_iff)
    have "replace_first ''.local'' ''.point'' (''.local'' @ r) = ''.point'' @ r"
      by (simp add: replace_first.simps [of _ _ "_ # _"])
    then show ?thesis unfolding e by simp
  next
    case False
    with Cons show ?thesis by (auto simp: replace_first.simps [of _ _ "c # cs"])
  qed
qed simp

lemma includes_append: "includes_str p (r @ p)"
  by (induction r) (cases p; simp add: starts_with_def)+

function local_identity :: "string \<Rightarrow> string" where
  "local_identity i =
     (if ends_with ''.local'' i then local_identity (replace_first ''.local'' ''.point'' i) else i)"
  by pat_completeness auto
termination
  by (relation "measure (\<lambda>i. count_list i CHR ''l'')")
    (auto simp: ends_with_iff intro: count_replace_local includes_append)

declare local_identity.simps [simp del]

definition copyFromIkv_prolog :: string where
  "copyFromIkv_prolog = ''@@copy_from_ikv=''"

definition copy_target :: "string \<Rightarrow> string \<times> string" where
  "copy_target value =
     (let parts = split_ch CHR '':'' (drop (length copyFromIkv_prolog) value)
      in (hd parts, join_ch '':'' (tl parts)))"

text \<open>\<open>getKeyValue\<close>; \<open>None\<close>: the chain of copy instructions does not end.\<close>

partial_function (option) getKeyValue ::
  "('c, string option result) node_cache \<Rightarrow> kv_env \<Rightarrow> int \<Rightarrow> string \<Rightarrow> string \<Rightarrow> string \<Rightarrow> string \<Rightarrow> bool \<Rightarrow> 'c \<Rightarrow>
   ('c \<times> string option result) option" where
  "getKeyValue nc env now identity key version strategy followCopy c =
     (if ends_with ''.local'' identity then Some (kv_read nc env now (local_identity identity) key version strategy c)
      else case kv_read nc env now identity key version strategy c of
        (c1, Inl e) \<Rightarrow> Some (c1, Inl e)
      | (c1, Inr r) \<Rightarrow>
          if \<not> followCopy then Some (c1, Inr r)
          else case r of
            None \<Rightarrow> Some (c1, Inl TypeError)
          | Some v \<Rightarrow>
              if \<not> starts_with copyFromIkv_prolog v then Some (c1, Inr (Some v))
              else Option.bind
                (getKeyValue nc env now (fst (copy_target v)) (snd (copy_target v)) ''latest'' ''exact'' True c1)
                (\<lambda>(c2, r2). Some (c2, case r2 of
                    Inl e \<Rightarrow> Inl e
                  | Inr None \<Rightarrow> Inl (PlainError ''Failed to obtain ikv value'')
                  | Inr (Some w) \<Rightarrow>
                      if w = [] then Inl (PlainError ''Failed to obtain ikv value'') else Inr (Some w))))"

definition ZDNS_ROUTES_KEY :: string where
  "ZDNS_ROUTES_KEY = ''zdns/routes''"

text \<open>\<open>getZRecord\<close> with its own cache; its outcome is what \<open>getKeyValue\<close> returns.\<close>

definition strip_hex_prefix :: "string option \<Rightarrow> string option" where
  "strip_hex_prefix r = map_option (\<lambda>s. if take 2 s = ''0x'' then drop 2 s else s) r"

definition getZRecord ::
  "('c, string option result) node_cache \<Rightarrow> kv_env \<Rightarrow> int \<Rightarrow> string \<Rightarrow> string \<Rightarrow> 'c \<Rightarrow> 'c \<Rightarrow>
   ('c \<times> 'c \<times> string option result) option" where
  "getZRecord nc env now domain0 version zc kc =
     (let domain = strip_point domain0; k = domain @ ''-'' @ ZDNS_ROUTES_KEY @ ''-'' @ version
      in case nc_get nc now k zc of
           Some v \<Rightarrow> Some (zc, kc, v)
         | None \<Rightarrow>
             (case getKeyValue nc env now domain ZDNS_ROUTES_KEY version ''exact'' True kc of
                None \<Rightarrow> None
              | Some (kc1, r) \<Rightarrow>
                  (let r' = (case r of Inl e \<Rightarrow> Inl e | Inr s \<Rightarrow> Inr (strip_hex_prefix s))
                   in Some (nc_set nc now k r' zc, kc1, r'))))"

section \<open>Writing\<close>

text \<open>The call \<open>ikvPut\<close> gives the contract after it, or fails; the cache is invalidated only
  after a success.\<close>

definition putKeyValue ::
  "('c, 'v) node_cache \<Rightarrow> (string \<Rightarrow> string \<Rightarrow> string \<Rightarrow> string \<Rightarrow> kv_env \<Rightarrow> kv_env result) \<Rightarrow>
   string \<Rightarrow> string \<Rightarrow> string \<Rightarrow> string \<Rightarrow> kv_env \<times> 'c \<Rightarrow> (kv_env \<times> 'c) \<times> unit result" where
  "putKeyValue nc ikvPut identity0 key v version st =
     (let identity = strip_point identity0
      in case ikvPut identity key v version (fst st) of
           Inl e \<Rightarrow> (st, Inl e)
         | Inr env' \<Rightarrow> ((env', delStartWith nc (base_key identity key) (snd st)), Inr ()))"

definition putZRecord ::
  "('c, 'v) node_cache \<Rightarrow> (string \<Rightarrow> string \<Rightarrow> string \<Rightarrow> string \<Rightarrow> kv_env \<Rightarrow> kv_env result) \<Rightarrow>
   string \<Rightarrow> string \<Rightarrow> string \<Rightarrow> kv_env \<times> 'c \<Rightarrow> (kv_env \<times> 'c) \<times> unit result" where
  "putZRecord nc ikvPut domain routesFile version st =
     putKeyValue nc ikvPut (strip_point domain) ZDNS_ROUTES_KEY routesFile version st"

section \<open>The order of versions\<close>

definition version_parts :: "string \<Rightarrow> string list" where
  "version_parts v = split_ch CHR ''.'' v"

lemma compare_parts_same_length:
  "length p = length q \<Longrightarrow> compare_parts p q = (if p > q then 1 else if p < q then -1 else 0)"
  by (induction p q rule: compare_parts.induct) auto

lemma compareVersions_order:
  "length (version_parts v) = length (version_parts w) \<Longrightarrow>
   compareVersions v w = (if version_parts v > version_parts w then 1
     else if version_parts v < version_parts w then -1 else 0)"
  unfolding compareVersions_def version_parts_def by (rule compare_parts_same_length)

definition event_version :: "chain_event \<Rightarrow> string list" where
  "event_version e = version_parts (return_str ''version'' e)"

text \<open>The result of the reduction: the last of the greatest.\<close>

definition last_greatest :: "chain_event list \<Rightarrow> chain_event \<Rightarrow> bool" where
  "last_greatest evs e \<longleftrightarrow> (\<exists>xs ys. evs = xs @ e # ys \<and>
     (\<forall>x \<in> set xs. event_version x \<le> event_version e) \<and> (\<forall>y \<in> set ys. event_version y < event_version e))"

lemma last_greatest_step:
  assumes "last_greatest evs e" "length (event_version e) = length (event_version x)"
  shows "last_greatest (evs @ [x]) (later_event e x)"
proof -
  obtain xs ys where e: "evs = xs @ e # ys" "\<forall>x \<in> set xs. event_version x \<le> event_version e"
    "\<forall>y \<in> set ys. event_version y < event_version e"
    using assms(1) unfolding last_greatest_def by blast
  have l: "later_event e x = (if event_version e > event_version x then e else x)"
    using compareVersions_order [of "return_str ''version'' e" "return_str ''version'' x"] assms(2)
    by (simp add: later_event_def event_version_def)
  show ?thesis
  proof (cases "event_version e > event_version x")
    case True
    with e l show ?thesis unfolding last_greatest_def
      by (intro exI [of _ xs] exI [of _ "ys @ [x]"]) auto
  next
    case False
    then have "\<forall>z \<in> set evs. event_version z \<le> event_version x" using e by fastforce
    with False l show ?thesis unfolding last_greatest_def
      by (intro exI [of _ evs] exI [of _ "[]"]) auto
  qed
qed

lemma last_greatest_foldl:
  assumes "last_greatest evs e" "\<forall>x \<in> set (evs @ es). length (event_version x) = n"
  shows "last_greatest (evs @ es) (foldl later_event e es)"
  using assms
proof (induction es arbitrary: evs e)
  case (Cons x es)
  have "e \<in> set evs" using Cons.prems(1) by (auto simp: last_greatest_def)
  with Cons.prems have "last_greatest (evs @ [x]) (later_event e x)"
    by (intro last_greatest_step) auto
  from Cons.IH [OF this] Cons.prems(2) show ?case by simp
qed simp

text \<open>Where all versions have as many parts as the one asked for, the value found is that of the
  last of the greatest versions not after it, and none is found only if there is no such version.\<close>

theorem last_version_or_before:
  assumes "\<And>e. e \<in> set evs \<Longrightarrow> length (event_version e) = length (version_parts version)"
    "ok = filter (\<lambda>e. event_version e \<le> version_parts version) evs"
  shows "case getLastVersionOrBefore version evs of
      None \<Rightarrow> ok = []
    | Some v \<Rightarrow> \<exists>e. last_greatest ok e \<and> v = return_str ''value'' e"
proof -
  have f: "filter (\<lambda>e. compareVersions (return_str ''version'' e) version \<in> {-1, 0}) evs = ok"
    unfolding assms(2)
  proof (rule filter_cong [OF refl])
    fix e assume "e \<in> set evs"
    from compareVersions_order [of "return_str ''version'' e" version] assms(1) [OF this]
    show "(compareVersions (return_str ''version'' e) version \<in> {-1, 0}) = (event_version e \<le> version_parts version)"
      by (auto simp: event_version_def)
  qed
  show ?thesis
  proof (cases ok)
    case Nil
    with f show ?thesis by (simp add: getLastVersionOrBefore_def)
  next
    case (Cons e es)
    have "last_greatest [e] e" by (auto simp: last_greatest_def intro!: exI [of _ "[]"])
    moreover have "\<forall>x \<in> set ([e] @ es). length (event_version x) = length (version_parts version)"
      using Cons assms by (metis append_Cons append_Nil filter_is_subset subsetD)
    ultimately have "last_greatest ok (foldl later_event e es)"
      using last_greatest_foldl [of "[e]" e es] Cons by simp
    with f Cons show ?thesis by (auto simp: getLastVersionOrBefore_def)
  qed
qed

definition ikv_set :: "string \<Rightarrow> string \<Rightarrow> chain_event" where
  "ikv_set version value = (transfer_at 1)\<lparr>ce_returns :=
     [(''version'', JStr version), (''value'', JStr value)]\<rparr>"

lemma last_version_or_before_witness:
  "\<exists>e. last_greatest [ikv_set ''1.2'' ''a'', ikv_set ''1.3'' ''b''] e \<and> ''b'' = return_str ''value'' e"
proof -
  have "getLastVersionOrBefore ''1.4'' [ikv_set ''1.2'' ''a'', ikv_set ''1.5'' ''c'', ikv_set ''1.3'' ''b''] = Some ''b''"
    by code_simp
  moreover have "filter (\<lambda>e. event_version e \<le> version_parts ''1.4'')
      [ikv_set ''1.2'' ''a'', ikv_set ''1.5'' ''c'', ikv_set ''1.3'' ''b''] = [ikv_set ''1.2'' ''a'', ikv_set ''1.3'' ''b'']"
    by code_simp
  moreover have "length (event_version e) = length (version_parts ''1.4'')"
    if "e \<in> set [ikv_set ''1.2'' ''a'', ikv_set ''1.5'' ''c'', ikv_set ''1.3'' ''b'']" for e
    using that by (auto simp: event_version_def version_parts_def ikv_set_def return_str_def)
  ultimately show ?thesis
    using last_version_or_before [OF _ refl, of "[ikv_set ''1.2'' ''a'', ikv_set ''1.5'' ''c'', ikv_set ''1.3'' ''b'']" "''1.4''"]
    by simp
qed

text \<open>Parts are compared as strings: version 0.9 is not before 0.10.\<close>

lemma version_order_not_numeric:
  "getLastVersionOrBefore ''0.10'' [ikv_set ''0.9'' ''old''] = None \<and> compareVersions ''0.10'' ''0.9'' = -1"
  by code_simp

section \<open>Reading through the cache\<close>

text \<open>What node-cache documents: a value is returned until it is deleted, overwritten or expired, the
  keys include every live one, and deletion is immediate.\<close>

definition node_cache_ok :: "('c, 'v) node_cache \<Rightarrow> bool" where
  "node_cache_ok nc \<longleftrightarrow>
     (\<forall>t now k v k' c r. nc_get nc t k' (nc_set nc now k v c) = Some r \<longrightarrow>
        k' = k \<and> r = v \<or> k' \<noteq> k \<and> nc_get nc t k' c = Some r) \<and>
     (\<forall>t k k' c. nc_get nc t k' (nc_del nc k c) = (if k' = k then None else nc_get nc t k' c)) \<and>
     (\<forall>t k c. nc_get nc t k c \<noteq> None \<longrightarrow> k \<in> set (nc_keys nc c))"

lemma node_cacheD:
  assumes "node_cache_ok nc"
  shows "nc_get nc t k' (nc_set nc now k v c) = Some r \<Longrightarrow>
      k' = k \<and> r = v \<or> k' \<noteq> k \<and> nc_get nc t k' c = Some r"
    "nc_get nc t k' (nc_del nc k c) = (if k' = k then None else nc_get nc t k' c)"
    "nc_get nc t k c \<noteq> None \<Longrightarrow> k \<in> set (nc_keys nc c)"
  using assms unfolding node_cache_ok_def by blast+

lemma get_deleted:
  assumes "node_cache_ok nc" "startStr \<noteq> []"
  shows "nc_get nc t k (delStartWith nc startStr c) = (if includes_str startStr k then None else nc_get nc t k c)"
proof -
  have d: "nc_get nc t k (foldl (\<lambda>c k. nc_del nc k c) c ks) = (if k \<in> set ks then None else nc_get nc t k c)" for ks c
    by (induction ks arbitrary: c) (simp_all add: node_cacheD(2) [OF assms(1)])
  have "nc_get nc t k c = None \<or> k \<in> set (nc_keys nc c)" using node_cacheD(3) [OF assms(1)] by blast
  with assms(2) d [of c "filter (includes_str startStr) (nc_keys nc c)"] show ?thesis
    by (auto simp: delStartWith_def)
qed

lemma starts_includes: "starts_with p s \<Longrightarrow> includes_str p s"
  by (cases s) (auto simp: starts_with_def)

definition fresh_value :: "kv_env \<Rightarrow> string \<Rightarrow> string \<Rightarrow> string \<Rightarrow> string \<Rightarrow> string option result" where
  "fresh_value env identity key version strategy =
     (if version = ''latest'' then ikvGet env identity key
      else if strategy = ''exact'' then exact_lookup env identity key version
      else if strategy = ''equalOrBefore'' then before_lookup env identity key version
      else Inr None)"

lemma read_missing:
  assumes "nc_get nc now (base_key (strip_point i) k) c = None"
    "nc_get nc now (version_key (strip_point i) k version) c = None"
  shows "snd (kv_read nc env now i k version strategy c) = fresh_value env (strip_point i) k version strategy"
  using assms by (simp add: kv_read_def fresh_value_def cached_def Let_def)

text \<open>C7: after a successful put of a key, reading that key at any version gets what the contract
  then holds, whatever the cache contained.\<close>

theorem put_then_read_fresh:
  assumes "node_cache_ok nc" "putKeyValue nc ikvPut i k v ver (env, c) = ((env', c'), Inr ())"
    "\<not> ends_with ''.local'' i"
  shows "\<exists>c''. getKeyValue nc env' now i k version strategy False c' =
    Some (c'', fresh_value env' (strip_point i) k version strategy)"
proof -
  let ?b = "base_key (strip_point i) k"
  have c': "c' = delStartWith nc ?b c"
    using assms(2) by (auto simp: putKeyValue_def Let_def split: sum.splits)
  have n: "?b \<noteq> []" by (simp add: base_key_def)
  have "nc_get nc now ?b c' = None" "nc_get nc now (version_key (strip_point i) k version) c' = None"
    unfolding c' get_deleted [OF assms(1) n] by (simp_all add: starts_includes version_key_def starts_with_def)
  from read_missing [OF this, of env' strategy] assms(3) show ?thesis
    by (cases "kv_read nc env' now i k version strategy c'")
      (auto simp: getKeyValue.simps [of nc env' now i k version strategy False c'] split: sum.splits)
qed

text \<open>The cache of the witnesses: an association list whose entries do not expire.\<close>

definition list_cache :: "((string, 'v) obj, 'v) node_cache" where
  "list_cache = \<lparr>nc_get = (\<lambda>_ k c. obj_get c k), nc_set = (\<lambda>_ k v c. obj_set k v c),
     nc_keys = keys, nc_del = obj_del\<rparr>"

lemma list_cache_ok [simp]: "node_cache_ok list_cache"
  by (auto simp: node_cache_ok_def list_cache_def split: if_splits dest!: map_of_SomeD) (force dest: map_of_SomeD)

definition toy_ikv :: "string \<Rightarrow> kv_env" where
  "toy_ikv v = \<lparr>ikvGet = (\<lambda>i k. Inr (Some v)), ikv_events = (\<lambda>f. Inr [])\<rparr>"

lemma put_then_read_fresh_witness:
  "\<exists>c''. getKeyValue list_cache (toy_ikv ''new'') 0 ''site.point'' ''k'' ''latest'' ''exact'' False [] =
    Some (c'', Inr (Some ''new''))"
proof -
  have "putKeyValue list_cache (\<lambda>i k v ver e. Inr (toy_ikv v)) ''site.point'' ''k'' ''new'' ''1''
      (toy_ikv ''old'', [(''site-k'', Inr (Some ''old''))]) = ((toy_ikv ''new'', []), Inr ())"
    by (simp add: putKeyValue_def strip_point_def replace_suffix_def ends_with_def starts_with_def base_key_def
        delStartWith_def list_cache_def obj_del_def)
  from put_then_read_fresh [OF list_cache_ok this, of 0 "''latest''" "''exact''"]
  show ?thesis by (simp add: ends_with_def fresh_value_def toy_ikv_def)
qed

section \<open>Copy instructions\<close>

definition plain_identity :: "string \<Rightarrow> bool" where
  "plain_identity i \<longleftrightarrow> CHR ''-'' \<notin> set i \<and> CHR '':'' \<notin> set i \<and> \<not> ends_with ''.local'' i \<and> strip_point i = i"

text \<open>The keys of a chain of copy instructions and the value at its end.\<close>

fun copies_to :: "kv_env \<Rightarrow> (string \<times> string) list \<Rightarrow> string \<Rightarrow> bool" where
  "copies_to env [] v = False"
| "copies_to env [(i, k)] v \<longleftrightarrow> plain_identity i \<and> ikvGet env i k = Inr (Some v) \<and> v \<noteq> [] \<and>
     \<not> starts_with copyFromIkv_prolog v"
| "copies_to env ((i, k) # (j, l) # ps) v \<longleftrightarrow> plain_identity i \<and>
     ikvGet env i k = Inr (Some (copyFromIkv_prolog @ j @ '':'' @ l)) \<and> copies_to env ((j, l) # ps) v"

text \<open>The cached latest values are the contract's.\<close>

definition latest_fresh :: "('c, string option result) node_cache \<Rightarrow> kv_env \<Rightarrow> int \<Rightarrow> 'c \<Rightarrow> bool" where
  "latest_fresh nc env now c \<longleftrightarrow> (\<forall>i k r. plain_identity i \<longrightarrow> nc_get nc now (base_key i k) c = Some r \<longrightarrow>
     r = ikvGet env i k)"

lemma base_key_inj:
  assumes "base_key i k = base_key j l" "CHR ''-'' \<notin> set i" "CHR ''-'' \<notin> set j"
  shows "i = j \<and> k = l"
proof -
  have "split_ch CHR ''-'' (base_key i k) = i # split_ch CHR ''-'' k"
    "split_ch CHR ''-'' (base_key j l) = j # split_ch CHR ''-'' l"
    using assms(2,3) split_ch_append [of "CHR ''-''" i k] split_ch_append [of "CHR ''-''" j l]
    by (simp_all add: base_key_def)
  with assms(1) show ?thesis by (simp add: base_key_def)
qed

lemma read_latest:
  assumes "node_cache_ok nc" "latest_fresh nc env now c" "plain_identity i"
  shows "\<exists>c1. kv_read nc env now i k ''latest'' strategy c = (c1, ikvGet env i k) \<and> latest_fresh nc env now c1"
proof (cases "nc_get nc now (base_key i k) c")
  case None
  have "latest_fresh nc env now (nc_set nc now (base_key i k) (ikvGet env i k) c)"
    unfolding latest_fresh_def
  proof (intro allI impI)
    fix j l r assume j: "plain_identity j"
      and g: "nc_get nc now (base_key j l) (nc_set nc now (base_key i k) (ikvGet env i k) c) = Some r"
    from node_cacheD(1) [OF assms(1) g]
    have "base_key j l = base_key i k \<and> r = ikvGet env i k \<or> nc_get nc now (base_key j l) c = Some r" by blast
    then show "r = ikvGet env j l"
      using base_key_inj [of j l i k] assms(2,3) j by (auto simp: plain_identity_def latest_fresh_def)
  qed
  with None assms(3) show ?thesis by (simp add: kv_read_def cached_def plain_identity_def)
next
  case (Some r)
  with assms have "r = ikvGet env i k" by (simp add: latest_fresh_def)
  with Some assms(2,3) show ?thesis by (simp add: kv_read_def cached_def plain_identity_def)
qed

lemma copy_target_prolog:
  "plain_identity j \<Longrightarrow> copy_target (copyFromIkv_prolog @ j @ '':'' @ l) = (j, l)"
  using split_ch_append [of "CHR '':''" j l] join_split [of "CHR '':''" l]
  by (simp add: copy_target_def plain_identity_def)

lemma copies_to_plain: "copies_to env ((i, k) # ps) v \<Longrightarrow> plain_identity i \<and> v \<noteq> []"
  by (induction ps arbitrary: i k) auto

lemma copy_chain:
  "node_cache_ok nc \<Longrightarrow> latest_fresh nc env now c \<Longrightarrow> copies_to env ((i, k) # ps) v \<Longrightarrow>
   \<exists>c'. getKeyValue nc env now i k ''latest'' ''exact'' True c = Some (c', Inr (Some v)) \<and> latest_fresh nc env now c'"
proof (induction ps arbitrary: i k c)
  case Nil
  from read_latest [OF Nil(1,2), of i k "''exact''"] Nil(3) show ?case
    by (auto simp: getKeyValue.simps [of nc env now i] plain_identity_def)
next
  case (Cons p ps)
  obtain j l where p: "p = (j, l)" by (cases p)
  from Cons.prems(3) p have i: "plain_identity i" and c: "copies_to env ((j, l) # ps) v"
    and g: "ikvGet env i k = Inr (Some (copyFromIkv_prolog @ j @ '':'' @ l))" by simp_all
  note j = copies_to_plain [OF c]
  from read_latest [OF Cons.prems(1,2) i, of k "''exact''"] obtain c1 where
    r: "kv_read nc env now i k ''latest'' ''exact'' c = (c1, ikvGet env i k)" "latest_fresh nc env now c1" by blast
  from Cons.IH [OF Cons.prems(1) r(2) c] obtain c2 where
    n: "getKeyValue nc env now j l ''latest'' ''exact'' True c1 = Some (c2, Inr (Some v))" "latest_fresh nc env now c2"
    by blast
  have "\<not> ends_with ''.local'' i" using i by (simp add: plain_identity_def)
  with r n g j show ?case
    by (simp add: getKeyValue.simps [of nc env now i] copy_target_prolog del: append.simps)
qed

text \<open>C28: a chain of copy instructions of any length is followed to the value at its end.\<close>

theorem copy_chain_followed:
  assumes "node_cache_ok nc" "latest_fresh nc env now c" "copies_to env ((i, k) # ps) v"
  shows "\<exists>c'. getKeyValue nc env now i k ''latest'' ''exact'' True c = Some (c', Inr (Some v))"
  using copy_chain [OF assms] by blast

definition copy_env :: kv_env where
  "copy_env = \<lparr>ikvGet = (\<lambda>i k. if i = ''a'' then Inr (Some ''@@copy_from_ikv=b:x:y'')
      else if i = ''b'' then Inr (Some ''routes'') else Inr (Some ''@@copy_from_ikv=c:k'')),
     ikv_events = (\<lambda>f. if length f = 3 then Inr [] else Inr [ikv_set ''1.0'' ''v''])\<rparr>"

lemma copy_chain_followed_witness:
  "\<exists>c'. getKeyValue list_cache copy_env 0 ''a'' ''k'' ''latest'' ''exact'' True [] = Some (c', Inr (Some ''routes''))"
  by (rule copy_chain_followed [OF list_cache_ok, where ps = "[(''b'', ''x:y'')]"])
    (simp_all add: latest_fresh_def list_cache_def plain_identity_def ends_with_def strip_point_def
      replace_suffix_def copy_env_def copyFromIkv_prolog_def starts_with_def)

text \<open>A key that copies itself is followed for ever.\<close>

lemma copy_cycle_diverges:
  assumes "node_cache_ok nc" "latest_fresh nc env now c" "plain_identity i"
    "ikvGet env i k = Inr (Some (copyFromIkv_prolog @ i @ '':'' @ k))"
  shows "getKeyValue nc env now i k ''latest'' ''exact'' True c = None"
proof (rule ccontr)
  let ?P = "\<lambda>(nc :: ('c, string option result) node_cache) env now i k version strategy follow c.
    node_cache_ok nc \<and> latest_fresh nc env now c \<and> plain_identity i \<and>
    ikvGet env i k = Inr (Some (copyFromIkv_prolog @ i @ '':'' @ k)) \<and>
    version = ''latest'' \<and> strategy = ''exact'' \<and> follow"
  assume "getKeyValue nc env now i k ''latest'' ''exact'' True c \<noteq> None"
  then obtain y where "getKeyValue nc env now i k ''latest'' ''exact'' True c = Some y" by blast
  then have "\<not> ?P nc env now i k ''latest'' ''exact'' True c"
  proof (rule getKeyValue.raw_induct [rotated,
      where P = "\<lambda>nc env now i k version strategy follow c y. \<not> ?P nc env now i k version strategy follow c"])
    fix get :: "('c, string option result) node_cache \<Rightarrow> kv_env \<Rightarrow> int \<Rightarrow> string \<Rightarrow> string \<Rightarrow> string \<Rightarrow> string \<Rightarrow> bool \<Rightarrow>
       'c \<Rightarrow> ('c \<times> string option result) option"
      and nc env now identity key version strategy follow c y
    assume ih: "\<And>nc env now i k version strategy follow c y. get nc env now i k version strategy follow c = Some y \<Longrightarrow>
        \<not> ?P nc env now i k version strategy follow c"
      and e: "(if ends_with ''.local'' identity then Some (kv_read nc env now (local_identity identity) key version strategy c)
      else case kv_read nc env now identity key version strategy c of
        (c1, Inl e) \<Rightarrow> Some (c1, Inl e)
      | (c1, Inr r) \<Rightarrow>
          if \<not> follow then Some (c1, Inr r)
          else case r of
            None \<Rightarrow> Some (c1, Inl TypeError)
          | Some v \<Rightarrow>
              if \<not> starts_with copyFromIkv_prolog v then Some (c1, Inr (Some v))
              else Option.bind
                (get nc env now (fst (copy_target v)) (snd (copy_target v)) ''latest'' ''exact'' True c1)
                (\<lambda>(c2, r2). Some (c2, case r2 of
                    Inl e \<Rightarrow> Inl e
                  | Inr None \<Rightarrow> Inl (PlainError ''Failed to obtain ikv value'')
                  | Inr (Some w) \<Rightarrow>
                      if w = [] then Inl (PlainError ''Failed to obtain ikv value'') else Inr (Some w)))) = Some y"
    show "\<not> ?P nc env now identity key version strategy follow c"
    proof
      assume p: "?P nc env now identity key version strategy follow c"
      then have q: "node_cache_ok nc" "latest_fresh nc env now c" "plain_identity identity" by simp_all
      from read_latest [OF q, of key "''exact''"] obtain c1 where
        r: "kv_read nc env now identity key ''latest'' ''exact'' c = (c1, ikvGet env identity key)"
        "latest_fresh nc env now c1" by blast
      have nl: "\<not> ends_with ''.local'' identity" and v: "version = ''latest''" "strategy = ''exact''" "follow = True"
        and g: "ikvGet env identity key = Inr (Some (copyFromIkv_prolog @ identity @ '':'' @ key))"
        and ct: "copy_target (copyFromIkv_prolog @ identity @ '':'' @ key) = (identity, key)"
        using p copy_target_prolog [of identity key] by (auto simp: plain_identity_def)
      from e have "Option.bind (get nc env now identity key ''latest'' ''exact'' True c1)
          (\<lambda>(c2, r2). Some (c2, case r2 of Inl e \<Rightarrow> Inl e
            | Inr None \<Rightarrow> Inl (PlainError ''Failed to obtain ikv value'')
            | Inr (Some w) \<Rightarrow> if w = [] then Inl (PlainError ''Failed to obtain ikv value'') else Inr (Some w))) = Some y"
        unfolding v r(1) g by (simp only: nl if_False if_True prod.case sum.case option.case ct fst_conv snd_conv
          not_True_eq_False starts_with_append)
      then obtain z where "get nc env now identity key ''latest'' ''exact'' True c1 = Some z"
        by (auto simp: bind_eq_Some_conv)
      from ih [OF this] p r(2) show False by simp
    qed
  qed
  with assms show False by simp
qed

text \<open>Both search strategies share the cache key of a version: after an exact search that found
  nothing, the search for that version or an earlier one finds nothing either.\<close>

lemma strategies_share_key:
  "snd (kv_read list_cache copy_env 0 ''c'' ''k'' ''1.1'' ''equalOrBefore'' []) = Inr (Some ''v'') \<and>
   snd (kv_read list_cache copy_env 0 ''c'' ''k'' ''1.1'' ''equalOrBefore''
     (fst (kv_read list_cache copy_env 0 ''c'' ''k'' ''1.1'' ''exact'' []))) = Inr None"
  by code_simp

text \<open>A failed lookup is cached like a value: the error is returned again when the contract answers.\<close>

lemma failure_is_cached:
  "snd (kv_read list_cache (toy_ikv ''v'') 0 ''c'' ''k'' ''latest'' ''exact''
     (fst (kv_read list_cache ((toy_ikv ''v'')\<lparr>ikvGet := \<lambda>_ _. Inl TypeError\<rparr>) 0 ''c'' ''k'' ''latest'' ''exact'' [])))
   = Inl TypeError"
  by code_simp

text \<open>The key of the latest value of one key is the key of a version of another.\<close>

lemma cache_keys_collide: "base_key i (k @ ''-'' @ v) = version_key i k v"
  by (simp add: base_key_def version_key_def)

end
