(* ===== verification/Blockchain.thy ===== *)
theory Blockchain
  imports KeyValue
begin

text \<open>
  The rest of the Ethereum client of \<open>src/network/providers/ethereum.js\<close>: retried
  calls, loading of contracts, conversion of storage ids in parameters, registration of
  identities, the cache of ENS domains and the gas price of relayed requests.  web3,
  ethers, the compiler and the storage layer are arguments; an error is its message.
\<close>

section \<open>Retried calls\<close>

definition isRetryableError :: "string \<Rightarrow> bool" where
  "isRetryableError m = includes_str ''ESOCKETTIMEDOUT'' m"

text \<open>The loop of \<open>web3send\<close> and \<open>callContract\<close>: \<open>f n\<close> is the outcome of
  attempt \<open>n\<close>; the result has the waits in milliseconds and the outcome.\<close>

function retry_loop :: "int \<Rightarrow> nat \<Rightarrow> (nat \<Rightarrow> string + 'a) \<Rightarrow> int list \<times> (string + 'a)" where
  "retry_loop retries attempt f =
     (case f attempt of
        Inr x \<Rightarrow> ([], Inr x)
      | Inl m \<Rightarrow>
          if isRetryableError m \<and> retries - (int attempt + 1) > 0
          then (let (ws, r) = retry_loop retries (attempt + 1) f in ((int attempt + 1) * 1000 # ws, r))
          else ([], Inl m))"
  by pat_completeness auto
termination
  by (relation "measure (\<lambda>(retries, attempt, f). nat (retries - int attempt))") auto

declare retry_loop.simps [simp del]

section \<open>Loading contracts\<close>

record abi_env =
  identity_id :: string
  identity_address :: string
  app_mode :: string
  storage_json :: "string \<Rightarrow> string + json"
  compile :: "string \<Rightarrow> string + string"
  clock :: int

text \<open>The ABIs in memory, the files of the build directory and the identity contract once loaded.\<close>

record 'contract abi_state =
  abis :: "(string, json) obj"
  build_dir :: "(string, string) obj"
  identity_contract :: "'contract option"

definition isIdentityAbiRelevant :: "abi_env \<Rightarrow> 'contract abi_state \<Rightarrow> bool" where
  "isIdentityAbiRelevant env st =
     (case obj_get (build_dir st) ''Identity'' of
        None \<Rightarrow> False
      | Some txt \<Rightarrow>
          (case jparse txt of
             None \<Rightarrow> False
           | Some j \<Rightarrow> jget ''abiFileHash'' j = Some (JStr (identity_id env))))"

definition fetchAndSaveIdentityAbiFromStorage :: "abi_env \<Rightarrow> 'contract abi_state \<Rightarrow> 'contract abi_state" where
  "fetchAndSaveIdentityAbiFromStorage env st =
     (case storage_json env (identity_id env) of
        Inr (JObj m) \<Rightarrow>
          (let j = JObj (obj_set ''updatedAt'' (JNum (clock env)) (obj_set ''abiFileHash'' (JStr (identity_id env)) m))
           in st\<lparr>build_dir := obj_set ''Identity'' (jprint j) (build_dir st),
                 abis := obj_set ''Identity'' j (abis st)\<rparr>)
      | _ \<Rightarrow> st)"

definition loadPointContract ::
  "(json option \<Rightarrow> string \<Rightarrow> string + 'contract) \<Rightarrow> abi_env \<Rightarrow> string \<Rightarrow> string \<Rightarrow> 'contract abi_state \<Rightarrow>
   'contract abi_state \<times> (string + 'contract)" where
  "loadPointContract new_contract env name addr st =
     (case obj_get (abis st) name of
        Some j \<Rightarrow> (st, new_contract (jget ''abi'' j) addr)
      | None \<Rightarrow>
          (let file = (case obj_get (build_dir st) name of Some t \<Rightarrow> Inr t | None \<Rightarrow> compile env name)
           in case file of
                Inl m \<Rightarrow> (st, Inl m)
              | Inr t \<Rightarrow>
                  (let st1 = st\<lparr>build_dir := obj_set name t (build_dir st)\<rparr>
                   in case jparse t of
                        None \<Rightarrow> (st1, Inl ''SyntaxError'')
                      | Some j \<Rightarrow> (st1\<lparr>abis := obj_set name j (abis st1)\<rparr>, new_contract (jget ''abi'' j) addr))))"

definition loadIdentityContract ::
  "(json option \<Rightarrow> string \<Rightarrow> string + 'contract) \<Rightarrow> abi_env \<Rightarrow> 'contract abi_state \<Rightarrow>
   'contract abi_state \<times> (string + 'contract)" where
  "loadIdentityContract new_contract env st =
     (case identity_contract st of
        Some ct \<Rightarrow> (st, Inr ct)
      | None \<Rightarrow>
          (let st1 = (if app_mode env \<noteq> ''e2e'' \<and> app_mode env \<noteq> ''zappdev'' \<and> \<not> isIdentityAbiRelevant env st
                      then fetchAndSaveIdentityAbiFromStorage env st else st)
           in case loadPointContract new_contract env ''Identity'' (identity_address env) st1 of
                (st2, Inl m) \<Rightarrow> (st2, Inl m)
              | (st2, Inr ct) \<Rightarrow> (st2\<lparr>identity_contract := Some ct\<rparr>, Inr ct)))"

text \<open>\<open>loadWebsiteContract\<close>: the identity contract, or the address and the ABI that the site's
  keys name for the version; the error of the storage layer is wrapped.  Without the copy
  flag \<open>getKeyValue\<close> is one read (\<open>read_without_copy\<close>).\<close>

datatype 'contract website_contract = IdentityContract | SiteContract 'contract

definition loadWebsiteContract ::
  "(json option \<Rightarrow> string option \<Rightarrow> string + 'contract) \<Rightarrow> (string option \<Rightarrow> string + json) \<Rightarrow>
   ('c, string option result) node_cache \<Rightarrow> kv_env \<Rightarrow> int \<Rightarrow> string \<Rightarrow> string \<Rightarrow> string \<Rightarrow> 'c \<Rightarrow>
   'c \<times> (exn + 'contract website_contract)" where
  "loadWebsiteContract new_contract getJSON nc env now target name version c =
     (if (target = ''@'' \<or> target = ''point'') \<and> name = ''Identity'' then (c, Inr IdentityContract)
      else
        let read = (\<lambda>key c. kv_read nc env now (local_identity target) key version ''equalOrBefore'' c)
        in case read (''zweb/contracts/address/'' @ name) c of
             (c1, Inl e) \<Rightarrow> (c1, Inl e)
           | (c1, Inr addr) \<Rightarrow>
               (case read (''zweb/contracts/abi/'' @ name) c1 of
                  (c2, Inl e) \<Rightarrow> (c2, Inl e)
                | (c2, Inr abi_id) \<Rightarrow>
                    (case getJSON abi_id of
                       Inl m \<Rightarrow> (c2, Inl (PlainError (''Could not read abi of the contract '' @ name @ ''. Reason: '' @ m)))
                     | Inr j \<Rightarrow>
                         (case new_contract (jget ''abi'' j) addr of
                            Inl m \<Rightarrow> (c2, Inl (PlainError (''Could not read abi of the contract '' @ name @ ''. Reason: '' @ m)))
                          | Inr ct \<Rightarrow> (c2, Inr (SiteContract ct))))))"

section \<open>Calls and transactions\<close>

text \<open>One attempt of \<open>callContract\<close>: the contract is loaded, the parameters and the method are
  checked, the method is called.\<close>

definition call_attempt ::
  "(nat \<Rightarrow> string + (string, nat \<Rightarrow> json list \<Rightarrow> string + json) obj) \<Rightarrow> string \<Rightarrow> string \<Rightarrow> json \<Rightarrow> nat \<Rightarrow> string + json" where
  "call_attempt load name meth params n =
     (case load n of
        Inl m \<Rightarrow> Inl m
      | Inr methods \<Rightarrow>
          (case params of
             JArr ps \<Rightarrow>
               (case obj_get methods meth of
                  None \<Rightarrow> Inl (''Method '' @ meth @ '' does not exist on contract '' @ name)
                | Some f \<Rightarrow> f n ps)
           | _ \<Rightarrow> Inl ''Params sent to callContract is not an array''))"

definition callContract ::
  "int \<Rightarrow> (nat \<Rightarrow> string + (string, nat \<Rightarrow> json list \<Rightarrow> string + json) obj) \<Rightarrow> string \<Rightarrow> string \<Rightarrow> json \<Rightarrow>
   int list \<times> (string + json)" where
  "callContract retries load name meth params = retry_loop retries 0 (call_attempt load name meth params)"

text \<open>One attempt of \<open>web3send\<close>: gas price, estimate, transaction.\<close>

record web3_method =
  estimateGas :: "nat \<Rightarrow> string + int"
  send_tx :: "nat \<Rightarrow> json \<Rightarrow> string + json"

definition send_attempt :: "(nat \<Rightarrow> string + int) \<Rightarrow> string \<Rightarrow> int option \<Rightarrow> web3_method \<Rightarrow> nat \<Rightarrow> string + json" where
  "send_attempt gas_price account amount meth n =
     (case gas_price n of Inl m \<Rightarrow> Inl m | Inr gp \<Rightarrow>
       (case estimateGas meth n of Inl m \<Rightarrow> Inl m | Inr gas \<Rightarrow>
          send_tx meth n (JObj ([(''from'', JStr account), (''gasPrice'', JNum gp), (''gas'', JNum gas)] @
            (case amount of None \<Rightarrow> [] | Some v \<Rightarrow> [(''value'', JNum v)])))))"

definition web3send :: "int \<Rightarrow> (nat \<Rightarrow> string + int) \<Rightarrow> string \<Rightarrow> int option \<Rightarrow> web3_method \<Rightarrow> int list \<times> (string + json)" where
  "web3send retries gas_price account amount meth = retry_loop retries 0 (send_attempt gas_price account amount meth)"

text \<open>The conversion of storage ids: a string of 64 digits at a position of type \<open>bytes32\<close>.\<close>

fun convert_param :: "json \<Rightarrow> json" where
  "convert_param (JStr s) =
     (if length (replace_first ''0x'' [] s) = 32 * 2 \<and> \<not> starts_with ''0x'' s then JStr (''0x'' @ s) else JStr s)"
| "convert_param v = v"

fun convert_types :: "string list \<Rightarrow> json list \<Rightarrow> json list" where
  "convert_types (t # ts) (v # vs) = (if t = ''bytes32'' then convert_param v else v) # convert_types ts vs"
| "convert_types _ vs = vs"

definition arg_types :: "string \<Rightarrow> string list" where
  "arg_types k = split_ch CHR '','' (replace_first '')'' [] (split_ch CHR ''('' k ! 1))"

definition convert_params :: "string list \<Rightarrow> string \<Rightarrow> json list \<Rightarrow> json list" where
  "convert_params methods methodName params =
     foldl (\<lambda>ps k. if hd (split_ch CHR ''('' k) = methodName \<and> CHR ''('' \<in> set k
              then convert_types (arg_types k) ps else ps) params methods"

definition sendToContract ::
  "int \<Rightarrow> (string + (string list \<times> (json list \<Rightarrow> web3_method))) \<Rightarrow> (nat \<Rightarrow> string + int) \<Rightarrow> string \<Rightarrow> int option \<Rightarrow>
   string \<Rightarrow> string \<Rightarrow> json \<Rightarrow> string \<Rightarrow> string + json" where
  "sendToContract retries loaded gas_price account amount name methodName params version =
     (if version \<noteq> ''latest''
      then Inl (''Forbidden, contract send does not allowed for versions different than latest. Contract: '' @ name)
      else case loaded of
        Inl m \<Rightarrow> Inl m
      | Inr (methods, meth) \<Rightarrow>
          (case params of
             JArr ps \<Rightarrow> snd (web3send retries gas_price account amount (meth (convert_params methods methodName ps)))
           | _ \<Rightarrow> Inl ''Params sent to callContract is not an array''))"

section \<open>Registration\<close>

text \<open>What \<open>registerIdentity\<close>, \<open>registerVerified\<close> and \<open>registerSubIdentity\<close> send: the key of
  64 bytes in two halves.\<close>

record registration =
  rg_identity :: string
  rg_parent :: "string option"
  rg_address :: string
  rg_part1 :: string
  rg_part2 :: string
  rg_verification :: "json list"

definition key_half :: "string \<Rightarrow> string" where
  "key_half b = ''0x'' @ hex_encode b"

definition registerIdentity :: "string \<Rightarrow> string \<Rightarrow> string \<Rightarrow> string + registration" where
  "registerIdentity identity address commPublicKey =
     (if length commPublicKey \<noteq> 64 then Inl ''registerIdentity: commPublicKey must be 64 bytes''
      else Inr \<lparr>rg_identity = strip_point identity, rg_parent = None, rg_address = address,
        rg_part1 = key_half (take 32 commPublicKey), rg_part2 = key_half (drop 32 commPublicKey),
        rg_verification = []\<rparr>)"

definition registerVerified ::
  "string \<Rightarrow> string \<Rightarrow> string \<Rightarrow> json \<Rightarrow> json \<Rightarrow> json \<Rightarrow> json \<Rightarrow> string + registration" where
  "registerVerified identity address commPublicKey hashedMessage s r v =
     (if length commPublicKey \<noteq> 64 then Inl ''registerIdentity: commPublicKey must be 64 bytes''
      else Inr \<lparr>rg_identity = strip_point identity, rg_parent = None, rg_address = address,
        rg_part1 = key_half (take 32 commPublicKey), rg_part2 = key_half (drop 32 commPublicKey),
        rg_verification = [hashedMessage, v, r, s]\<rparr>)"

definition registerSubIdentity :: "string \<Rightarrow> string \<Rightarrow> string \<Rightarrow> string \<Rightarrow> string + registration" where
  "registerSubIdentity subidentity parentIdentity address commPublicKey =
     (if length commPublicKey \<noteq> 64 then Inl ''registerIdentity: commPublicKey must be 64 bytes''
      else Inr \<lparr>rg_identity = subidentity, rg_parent = Some parentIdentity, rg_address = address,
        rg_part1 = key_half (take 32 commPublicKey), rg_part2 = key_half (drop 32 commPublicKey),
        rg_verification = []\<rparr>)"

text \<open>\<open>commPublicKeyByIdentity\<close> on the two parts of the contract; a failed call is logged and
  gives no key.\<close>

definition commPublicKeyByIdentity :: "(string \<Rightarrow> string + (string \<times> string)) \<Rightarrow> string \<Rightarrow> string option" where
  "commPublicKeyByIdentity keyParts identity =
     (case keyParts identity of
        Inl _ \<Rightarrow> None
      | Inr (p1, p2) \<Rightarrow> Some (''0x'' @ replace_first ''0x'' [] p1 @ replace_first ''0x'' [] p2))"

definition isCurrentIdentityRegistered :: "(string \<Rightarrow> string + string option) \<Rightarrow> string \<Rightarrow> string + bool" where
  "isCurrentIdentityRegistered identityByOwner address =
     (case identityByOwner address of
        Inl m \<Rightarrow> Inl m
      | Inr None \<Rightarrow> Inr False
      | Inr (Some i) \<Rightarrow> Inr (\<not> (i = [] \<or>
          to_lower (replace_first ''0x'' [] i) = to_lower (replace_first ''0x'' [] address))))"

section \<open>ENS domains\<close>

record domain_registry =
  dr_owner :: "string option"
  dr_content :: "string option"

record ens_record =
  en_owner :: "string option"
  en_text :: "string option"
  en_hash :: "string option"

record ens_env =
  ens_enabled :: bool
  tld_resolver :: "string \<Rightarrow> string option"
  ens_lookup :: "string \<Rightarrow> string \<Rightarrow> string + ens_record option"
  ens_reverse :: "string \<Rightarrow> string \<Rightarrow> string + string option"
  ens_setText :: "string \<Rightarrow> string \<Rightarrow> string \<Rightarrow> string + json"

type_synonym ens_cache = "(string, domain_registry) cache"

definition ens_expiration :: int where
  "ens_expiration = 2 * 60 * 1000"

definition ensDomainCache :: ens_cache where
  "ensDomainCache = new_cache ens_expiration None"

definition ens_key :: "string \<Rightarrow> string \<Rightarrow> string" where
  "ens_key network domainName = network @ '':'' @ domainName"

definition registry_of :: "ens_record \<Rightarrow> domain_registry" where
  "registry_of r = \<lparr>dr_owner = en_owner r,
     dr_content = (case en_text r of Some t \<Rightarrow> if t = [] then en_hash r else Some t | None \<Rightarrow> en_hash r)\<rparr>"

definition resolveDomain :: "ens_env \<Rightarrow> int \<Rightarrow> string \<Rightarrow> string \<Rightarrow> ens_cache \<Rightarrow> ens_cache \<times> (string + domain_registry)" where
  "resolveDomain env now domainName network c =
     (if \<not> ens_enabled env then (c, Inl ''ENS has been disabled in config'')
      else case get now (ens_key network domainName) c of
             (c1, Some r) \<Rightarrow> (c1, Inr r)
           | (c1, None) \<Rightarrow>
               (case ens_lookup env network domainName of
                  Inl m \<Rightarrow> (c1, Inl m)
                | Inr None \<Rightarrow> (c1, Inl (''Domain '' @ domainName @ '' not found in Ethereum's '' @ network))
                | Inr (Some r) \<Rightarrow> (add now (ens_key network domainName) (registry_of r) c1, Inr (registry_of r))))"

definition getDomain :: "ens_env \<Rightarrow> string \<Rightarrow> string \<Rightarrow> string + string option" where
  "getDomain env address network = (if \<not> ens_enabled env then Inr None else ens_reverse env network address)"

definition setDomainContent ::
  "ens_env \<Rightarrow> int \<Rightarrow> string \<Rightarrow> string \<Rightarrow> string \<Rightarrow> ens_cache \<Rightarrow> ens_cache \<times> (string + json)" where
  "setDomainContent env now domainName data network c =
     (if \<not> ens_enabled env then (c, Inr (JStr []))
      else case tld_resolver env network of
             None \<Rightarrow> (c, Inl (''Missing TLD public resolver contract address for network '' @ network))
           | Some _ \<Rightarrow>
               (case ens_setText env network domainName data of
                  Inl m \<Rightarrow> (c, Inl m)
                | Inr tx \<Rightarrow>
                    (let (c1, present) = has now (ens_key network domainName) c
                     in (if present then fst (rm (ens_key network domainName) c1) else c1, Inr tx))))"

section \<open>Relayed requests\<close>

text \<open>\<open>0x\<close> and the hexadecimal digits of a number.\<close>

fun show_hex :: "nat \<Rightarrow> string" where
  "show_hex n = (if n < 16 then [hex_digit n] else show_hex (n div 16) @ [hex_digit (n mod 16)])"

declare show_hex.simps [simp del]

text \<open>The parameters of \<open>ethereum.send\<close>: a configured gas price is written into the first one.\<close>

definition send_params :: "int option \<Rightarrow> json list \<Rightarrow> json list result" where
  "send_params gas_price_wei params =
     (case (params, gas_price_wei) of
        (p # ps, Some w) \<Rightarrow>
          (case p of
             JObj m \<Rightarrow> Inr (JObj (obj_set ''gasPrice'' (JStr (''0x'' @ show_hex (nat w))) m) # ps)
           | JArr xs \<Rightarrow> Inr (JArr xs # ps)
           | _ \<Rightarrow> Inl TypeError)
      | _ \<Rightarrow> Inr params)"

definition getGasPrice :: "int option \<Rightarrow> (unit \<Rightarrow> string + int) \<Rightarrow> string + int" where
  "getGasPrice configured fetch = (case configured of Some w \<Rightarrow> Inr w | None \<Rightarrow> fetch ())"

section \<open>Lemmas\<close>

lemma read_without_copy:
  "getKeyValue nc env now i k version strategy False c = Some (kv_read nc env now (local_identity i) k version strategy c)"
  by (cases "kv_read nc env now i k version strategy c")
    (auto simp: getKeyValue.simps [of nc env now i] local_identity.simps [of i] split: sum.splits)

text \<open>A retried call makes at most as many attempts as the limit, and at least one; it stops at
  the first attempt that is a success or an error that is not a timeout, and otherwise returns the
  last timeout; it waits one second longer each time.\<close>

theorem retried_call_bounded:
  assumes "retry_loop retries 0 f = (ws, r)"
  shows "int (length ws) < max 1 retries \<and> r = f (length ws) \<and>
    (\<forall>j < length ws. \<exists>m. f j = Inl m \<and> isRetryableError m) \<and>
    ws = map (\<lambda>j. (int j + 1) * 1000) [0..<length ws] \<and>
    (\<forall>m. r = Inl m \<longrightarrow> isRetryableError m \<longrightarrow> retries \<le> int (length ws) + 1)"
proof -
  have "int (length ws) + int n < max (int n + 1) retries \<and> r = f (n + length ws) \<and>
      (\<forall>j < length ws. \<exists>m. f (n + j) = Inl m \<and> isRetryableError m) \<and>
      ws = map (\<lambda>j. (int j + 1) * 1000) [n..<n + length ws] \<and>
      (\<forall>m. r = Inl m \<longrightarrow> isRetryableError m \<longrightarrow> retries \<le> int n + int (length ws) + 1)"
    if "retry_loop retries n f = (ws, r)" for n
    using that
  proof (induction "nat (retries - int n)" arbitrary: n ws rule: less_induct)
    case less
    note u = less.prems [unfolded retry_loop.simps [of retries n f]]
    show ?case
    proof (cases "f n")
      case (Inr x)
      with u show ?thesis by auto
    next
      case (Inl m)
      show ?thesis
      proof (cases "isRetryableError m \<and> retries - (int n + 1) > 0")
        case True
        obtain vs r' where v: "retry_loop retries (n + 1) f = (vs, r')" by (cases "retry_loop retries (n + 1) f")
        with u Inl True have w: "ws = (int n + 1) * 1000 # vs" "r' = r" by auto
        have "nat (retries - int (n + 1)) < nat (retries - int n)" using True by simp
        from less.hyps [OF this v [unfolded w(2)]] have ih:
          "int (length vs) + int (n + 1) < max (int (n + 1) + 1) retries" "r = f (n + 1 + length vs)"
          "\<forall>j < length vs. \<exists>m. f (n + 1 + j) = Inl m \<and> isRetryableError m"
          "vs = map (\<lambda>j. (int j + 1) * 1000) [n + 1..<n + 1 + length vs]"
          "\<forall>m. r = Inl m \<longrightarrow> isRetryableError m \<longrightarrow> retries \<le> int (n + 1) + int (length vs) + 1" by blast+
        have "\<exists>m. f (n + j) = Inl m \<and> isRetryableError m" if "j < length ws" for j
          using that ih(3) w(1) Inl True by (cases j) auto
        moreover have "ws = map (\<lambda>j. (int j + 1) * 1000) [n..<n + length ws]"
        proof -
          have e: "[n..<n + length ws] = n # [n + 1..<n + 1 + length vs]"
            using w(1) by (simp add: upt_conv_Cons del: upt_Suc)
          show ?thesis unfolding e by (simp only: list.map ih(4) [symmetric] w(1))
        qed
        ultimately show ?thesis using ih(1,2,5) w(1) True by auto
      next
        case False
        with u Inl have "ws = []" "r = Inl m" by (auto split: if_splits)
        with Inl False show ?thesis by auto
      qed
    qed
  qed
  from this [OF assms] show ?thesis by simp
qed

definition flaky :: "nat \<Rightarrow> string + nat" where
  "flaky n = (if n < 2 then Inl ''Error: ESOCKETTIMEDOUT'' else Inr n)"

lemma retried_call_bounded_witness:
  "retry_loop 4 0 flaky = ([1000, 2000], Inr 2) \<and> int (length [1000::int, 2000]) < max 1 4"
proof -
  have "retry_loop 4 0 flaky = ([1000, 2000], Inr 2)" by code_simp
  from retried_call_bounded [OF this] this show ?thesis by simp
qed

text \<open>Positions of type \<open>bytes32\<close>.\<close>

lemma length_convert_types [simp]: "length (convert_types ts vs) = length vs"
  by (induction ts vs rule: convert_types.induct) auto

lemma nth_convert_types:
  "j < length vs \<Longrightarrow> convert_types ts vs ! j =
     (if j < length ts \<and> ts ! j = ''bytes32'' then convert_param (vs ! j) else vs ! j)"
proof (induction ts vs arbitrary: j rule: convert_types.induct)
  case (1 t ts v vs)
  then show ?case by (cases j) auto
qed auto

lemma replace_first_hex: "list_all is_hex s \<Longrightarrow> replace_first ''0x'' [] s = s \<and> \<not> starts_with ''0x'' s"
proof (induction s)
  case (Cons c s)
  have "\<not> starts_with ''0x'' (c # s)"
    using Cons.prems by (cases s) (auto simp: is_hex_def is_hex_lower_def)
  with Cons show ?case by (auto simp add: replace_first.simps [of _ _ "c # s"])
qed (simp add: replace_first.simps)

lemma storage_id_converted:
  assumes "k \<in> set methods" "hd (split_ch CHR ''('' k) = methodName" "CHR ''('' \<in> set k"
    "j < length (arg_types k)" "arg_types k ! j = ''bytes32''" "j < length params" "params ! j = JStr s"
    "length s = 64" "list_all is_hex s"
  shows "convert_params methods methodName params ! j = JStr (''0x'' @ s)"
proof -
  let ?conv = "\<lambda>ps k. if hd (split_ch CHR ''('' k) = methodName \<and> CHR ''('' \<in> set k
      then convert_types (arg_types k) ps else ps"
  have c: "convert_param (JStr s) = JStr (''0x'' @ s)" "convert_param (JStr (''0x'' @ s)) = JStr (''0x'' @ s)"
    using replace_first_hex [OF assms(9)] assms(8) by auto
  have fin: "foldl ?conv ps ks ! j = JStr (''0x'' @ s)" if "ps ! j = JStr (''0x'' @ s)" "j < length ps" for ps ks
    using that
  proof (induction ks arbitrary: ps)
    case (Cons x ks)
    have "?conv ps x ! j = JStr (''0x'' @ s)" "j < length (?conv ps x)"
      using Cons.prems c by (auto simp: nth_convert_types simp del: append.simps)
    from Cons.IH [OF this] show ?case by simp
  qed simp
  have "foldl ?conv ps ks ! j = JStr (''0x'' @ s)"
    if "k \<in> set ks" "ps ! j = JStr s \<or> ps ! j = JStr (''0x'' @ s)" "j < length ps" for ps ks
    using that
  proof (induction ks arbitrary: ps)
    case (Cons x ks)
    have n: "?conv ps x ! j = JStr s \<or> ?conv ps x ! j = JStr (''0x'' @ s)" "j < length (?conv ps x)"
      using Cons.prems c by (auto simp: nth_convert_types simp del: append.simps)
    show ?case
    proof (cases "x = k")
      case True
      then have "?conv ps x ! j = JStr (''0x'' @ s)"
        using Cons.prems c assms(2-5) by (auto simp: nth_convert_types simp del: append.simps)
      from fin [OF this n(2)] show ?thesis by simp
    next
      case False
      with Cons.IH [OF _ n] Cons.prems(1) show ?thesis by simp
    qed
  qed simp
  from this [OF assms(1) _ assms(6)] assms(7) show ?thesis by (simp add: convert_params_def)
qed

lemma key_half_plain: "replace_first ''0x'' [] (key_half b) = hex_encode b"
  by (simp add: key_half_def replace_first.simps [of _ _ "_ # _"])

lemma hex_encode_append: "hex_encode (a @ b) = hex_encode a @ hex_encode b"
  by (induction a) auto

text \<open>Registering a key, plainly, verified or as a subidentity, fails exactly if it has not 64
  bytes; once the contract holds the two halves that were sent, the key of the identity reads back as
  the hexadecimal digits of the whole key.\<close>

theorem registered_key_reads_back:
  assumes "registerIdentity i a key = Inr r \<or> registerVerified i a key h s rr v = Inr r \<or>
      registerSubIdentity i p a key = Inr r"
    "keyParts name = Inr (rg_part1 r, rg_part2 r)"
  shows "length key = 64 \<and> commPublicKeyByIdentity keyParts name = Some (''0x'' @ hex_encode key)"
proof -
  have "rg_part1 r = key_half (take 32 key) \<and> rg_part2 r = key_half (drop 32 key) \<and> length key = 64"
    using assms(1) by (auto simp: registerIdentity_def registerVerified_def registerSubIdentity_def split: if_splits)
  with assms(2) show ?thesis
    using hex_encode_append [of "take 32 key" "drop 32 key"]
    by (simp add: commPublicKeyByIdentity_def key_half_plain)
qed

lemma registered_key_witness:
  "commPublicKeyByIdentity (\<lambda>_. Inr (key_half (replicate 32 CHR ''a''), key_half (replicate 32 CHR ''b''))) ''bob'' =
     Some (''0x'' @ hex_encode (replicate 32 CHR ''a'' @ replicate 32 CHR ''b''))"
proof -
  let ?k = "replicate 32 CHR ''a'' @ replicate 32 CHR ''b''"
  have "registerIdentity ''bob'' ''0xA'' ?k = Inr \<lparr>rg_identity = strip_point ''bob'', rg_parent = None,
      rg_address = ''0xA'', rg_part1 = key_half (replicate 32 CHR ''a''), rg_part2 = key_half (replicate 32 CHR ''b''),
      rg_verification = []\<rparr>" by (simp add: registerIdentity_def)
  from registered_key_reads_back [OF disjI1 [OF this], of "\<lambda>_. Inr (key_half (replicate 32 CHR ''a''), key_half (replicate 32 CHR ''b''))"]
  show ?thesis by simp
qed

text \<open>After setting the content of a domain the next resolution asks the chain again.\<close>

lemma has_absent: "snd (has now k c) = False \<Longrightarrow> live t (fst (has now k c)) k = None"
  by (auto simp: has_def live_def Let_def split: option.splits)

lemma resolved_after_set:
  assumes "ens_enabled env" "ens_enabled env'" "setDomainContent env now n data network c = (c', Inr tx)"
  shows "snd (resolveDomain env' now' n network c') =
    (case ens_lookup env' network n of
       Inl m \<Rightarrow> Inl m
     | Inr None \<Rightarrow> Inl (''Domain '' @ n @ '' not found in Ethereum's '' @ network)
     | Inr (Some r) \<Rightarrow> Inr (registry_of r))"
proof -
  let ?k = "ens_key network n"
  obtain c1 b where h: "has now ?k c = (c1, b)" by (cases "has now ?k c")
  have c': "c' = (if b then fst (rm ?k c1) else c1)"
    using assms(1,3) h by (auto simp: setDomainContent_def split: option.splits sum.splits)
  have "live now' c' ?k = None"
    using has_absent [of now ?k c now'] h by (auto simp: c' cf.view_remove)
  then have "snd (get now' ?k c') = None" by (simp add: cf.look_view)
  with assms(2) show ?thesis
    by (cases "get now' ?k c'") (auto simp: resolveDomain_def split: sum.splits option.splits)
qed

text \<open>A loaded identity contract is kept: nothing is read, fetched or compiled again.\<close>

lemma identity_contract_kept:
  "loadIdentityContract nc env st = (st', Inr ct) \<Longrightarrow> loadIdentityContract nc' env' st' = (st', Inr ct)"
  by (auto simp: loadIdentityContract_def Let_def split: option.splits sum.splits prod.splits if_splits)

end
