(* ===== verification/Proxy.thy ===== *)
theory Proxy
  imports Cookies Json Util
begin

text \<open>
  The web proxy: \<open>src/client/proxy/handlers/common.ts\<close>, \<open>mirror.ts\<close> and
  \<open>src/client/proxy/proxyUtils.ts\<close>.  The blockchain and storage clients, the file
  system, the renderer, node-match-path and mime-types are arguments; a request is what
  Fastify parsed of it.  The files \<open>routes.json\<close> and \<open>point.deploy.json\<close> are taken
  as objects of strings.  Web sockets are left out.
\<close>

section \<open>Routes\<close>

text \<open>The replacement patterns of \<open>s.replace(p, r)\<close> for a string \<open>p\<close>.\<close>

fun expand_repl :: "string \<Rightarrow> string \<Rightarrow> string \<Rightarrow> string \<Rightarrow> string" where
  "expand_repl before matched after (c # d # r) =
     (if c = CHR ''$'' \<and> d = CHR ''$'' then CHR ''$'' # expand_repl before matched after r
      else if c = CHR ''$'' \<and> d = CHR ''&'' then matched @ expand_repl before matched after r
      else if c = CHR ''$'' \<and> d = CHR 0x60 then before @ expand_repl before matched after r
      else if c = CHR ''$'' \<and> d = CHR 0x27 then after @ expand_repl before matched after r
      else c # expand_repl before matched after (d # r))"
| "expand_repl before matched after r = r"

fun find_first :: "string \<Rightarrow> string \<Rightarrow> string \<Rightarrow> (string \<times> string) option" where
  "find_first p acc s =
     (if starts_with p s then Some (rev acc, drop (length p) s)
      else case s of [] \<Rightarrow> None | c # cs \<Rightarrow> find_first p (c # acc) cs)"

declare find_first.simps [simp del]

definition js_replace :: "string \<Rightarrow> string \<Rightarrow> string \<Rightarrow> string" where
  "js_replace p r s =
     (case find_first p [] s of None \<Rightarrow> s | Some (b, a) \<Rightarrow> b @ expand_repl b p a r @ a)"

type_synonym params = "(string, string) obj"
type_synonym routes = "(string, string) obj"

fun first_route :: "(string \<Rightarrow> string \<Rightarrow> params option) \<Rightarrow> string \<Rightarrow> routes \<Rightarrow> (params \<times> string) option" where
  "first_route matchp path [] = None"
| "first_route matchp path ((k, v) # rs) =
     (case matchp k path of Some ps \<Rightarrow> Some (ps, v) | None \<Rightarrow> first_route matchp path rs)"

text \<open>The parameters of the route, the template to render and the path to serve.\<close>

definition matchRouteAndParams ::
  "(string \<Rightarrow> string \<Rightarrow> params option) \<Rightarrow> routes \<Rightarrow> string \<Rightarrow> params \<times> string option \<times> string" where
  "matchRouteAndParams matchp routes path =
     (case first_route matchp path routes of
        None \<Rightarrow> ([], None, path)
      | Some (ps, t) \<Rightarrow>
          if starts_with ''rewrite:'' t
          then (ps, None, foldl (\<lambda>p (k, v). js_replace ('':'' @ k) v p) (js_replace ''rewrite:'' [] t) ps)
          else (ps, Some t, path))"

definition getContentTypeFromExt :: "(string \<Rightarrow> string option) \<Rightarrow> string \<Rightarrow> string option" where
  "getContentTypeFromExt lookup ext = lookup (''.'' @ (if ext = ''zhtml'' then ''html'' else ext))"

definition isDirectoryJson :: "string \<Rightarrow> bool" where
  "isDirectoryJson text = (case jparse text of Some j \<Rightarrow> jget ''type'' j = Some (JStr ''dir'') | None \<Rightarrow> False)"

definition setAsAttachment :: "string \<Rightarrow> string \<Rightarrow> string \<Rightarrow> bool" where
  "setAsAttachment urlPathname contentType acceptHeaders \<longleftrightarrow>
     starts_with ''/_storage/'' urlPathname \<and> \<not> starts_with ''image'' contentType \<and>
     \<not> starts_with ''video'' contentType \<and>
     (includes_str ''text/html'' acceptHeaders \<or> includes_str ''application/xhtml+xml'' acceptHeaders \<or>
      includes_str ''application/xml'' acceptHeaders \<or> includes_str ''*/*'' acceptHeaders)"

section \<open>Requests and responses\<close>

record request =
  rq_host :: string
  rq_url :: string
  rq_path :: string
  rq_query :: "(string, string) obj"
  rq_query_text :: "string option"
  rq_protocol :: string
  rq_referer :: "string option"
  rq_accept :: "string option"
  rq_range :: "string option"
  rq_body :: "(string, string) obj"

datatype body =
    NoBody
  | Text string
  | Page string
  | LocalFile string
  | IpfsFile string
  | RemoteFile string "string option"
  | Web2Link string string string
  | ErrorPage nat string
  | IpfsPeers
  | IpfsPubsubPeers string

record response =
  status :: nat
  location :: "string option"
  content_type :: "string option"
  allow_origin :: "string option"
  rs_body :: body

definition ok_response :: "body \<Rightarrow> response" where
  "ok_response b = \<lparr>status = 200, location = None, content_type = None, allow_origin = None, rs_body = b\<rparr>"

definition redirect_to :: "nat \<Rightarrow> string \<Rightarrow> response" where
  "redirect_to code url = (ok_response NoBody)\<lparr>status := code, location := Some url\<rparr>"

datatype fs_entry = FsFile string | FsDir

record proxy_env =
  px_mode :: string
  px_cwd :: string
  px_source_root :: string
  px_zappsdir :: string
  zrecord :: "string \<Rightarrow> string \<Rightarrow> string option result"
  keyvalue :: "string \<Rightarrow> string \<Rightarrow> string \<Rightarrow> bool \<Rightarrow> string option result"
  json_file :: "string \<Rightarrow> routes option result"
  fileIdByPath :: "string \<Rightarrow> string \<Rightarrow> string option result"
  stored_file :: "string \<Rightarrow> string result"
  remote_stream :: "string \<Rightarrow> string option \<Rightarrow> unit result"
  ipfs_file :: "string \<Rightarrow> string result"
  fs_look :: "string \<Rightarrow> fs_entry option"
  render :: "bool \<Rightarrow> string \<Rightarrow> string option \<Rightarrow> string \<Rightarrow> string \<Rightarrow> params \<Rightarrow> string result"
  mime :: "string \<Rightarrow> string option"
  route_match :: "string \<Rightarrow> string \<Rightarrow> params option"
  domain_content :: "string \<Rightarrow> string option result"
  px_keccak :: "string \<Rightarrow> string"
  px_checksum :: "string \<Rightarrow> string"
  mirrors :: "((string \<times> string) list) result"
  csrf_fresh :: string
  sanitize :: "string \<Rightarrow> string"

text \<open>The last part of the path and its extension.\<close>

definition fileName :: "request \<Rightarrow> string" where
  "fileName rq = (case splitAndTakeLastPart (rq_path rq) CHR ''/'' (Some (rq_path rq)) of Some s \<Rightarrow> s | None \<Rightarrow> [])"

definition ext_of :: "request \<Rightarrow> string option" where
  "ext_of rq = splitAndTakeLastPart (fileName rq) CHR ''.'' None"

section \<open>Serving a site\<close>

record site =
  is_local :: bool
  site_routes :: routes
  site_path :: string
  root_dir :: string
  rewrite_host :: "string option"

definition fs_file :: "proxy_env \<Rightarrow> string \<Rightarrow> string option" where
  "fs_file env p = (case fs_look env p of Some (FsFile c) \<Rightarrow> Some c | _ \<Rightarrow> None)"

definition tryFulfillStaticRequest :: "proxy_env \<Rightarrow> request \<Rightarrow> site \<Rightarrow> string \<Rightarrow> response result" where
  "tryFulfillStaticRequest env rq cfg urlPath =
     (let file =
        (if is_local cfg then
           (if root_dir cfg = [] then Inl (PlainError ''localRootDirPath cannot be empty'')
            else case fs_look env (path_join (root_dir cfg) urlPath) of
                   None \<Rightarrow> Inl (HttpNotFoundError ''Not Found'')
                 | Some FsDir \<Rightarrow> Inl (HttpForbiddenError ''Directory listing not allowed'')
                 | Some (FsFile _) \<Rightarrow>
                     (case getFullPathFromLocalRoot (\<lambda>p. fs_look env p \<noteq> None) (root_dir cfg) urlPath of
                        Inl e \<Rightarrow> Inl e | Inr p \<Rightarrow> Inr (LocalFile p)))
         else if starts_with ''ipfs://'' (root_dir cfg) then
           (case ipfs_file env (root_dir cfg @ urlPath) of
              Inl e \<Rightarrow> Inl e | Inr _ \<Rightarrow> Inr (IpfsFile (root_dir cfg @ urlPath)))
         else
           (case fileIdByPath env (root_dir cfg) urlPath of
              Inl e \<Rightarrow> Inl e
            | Inr None \<Rightarrow> Inl (HttpNotFoundError ''File not found by this path'')
            | Inr (Some i) \<Rightarrow> if i = [] then Inl (HttpNotFoundError ''File not found by this path'')
                else (case remote_stream env i (rq_range rq) of
                        Inl e \<Rightarrow> Inl e | Inr _ \<Rightarrow> Inr (RemoteFile i (rq_range rq)))));
          ct = (case ext_of rq of
                  None \<Rightarrow> None
                | Some e \<Rightarrow> if e = [] then None else getContentTypeFromExt (mime env) e)
      in case file of
           Inl e \<Rightarrow> Inl e
         | Inr b \<Rightarrow> Inr ((ok_response b)\<lparr>content_type := Some (case ct of Some t \<Rightarrow> t
             | None \<Rightarrow> ''application/octet-stream'')\<rparr>))"

text \<open>The contents of a template and its id, where it has one.\<close>

definition template_contents :: "proxy_env \<Rightarrow> site \<Rightarrow> string \<Rightarrow> (string option \<times> string) result" where
  "template_contents env cfg templateFilename =
     (if is_local cfg then
        (if root_dir cfg = [] then Inl (PlainError ''localRootDirPath cannot be empty'')
         else case getFullPathFromLocalRoot (\<lambda>p. fs_look env p \<noteq> None) (root_dir cfg) templateFilename of
                Inl e \<Rightarrow> Inl e
              | Inr p \<Rightarrow> (case fs_file env p of None \<Rightarrow> Inl (PlainError ''EISDIR'') | Some c \<Rightarrow> Inr (Some templateFilename, c)))
      else if starts_with ''ipfs://'' (root_dir cfg) then
        (case ipfs_file env (root_dir cfg @ ''/'' @ templateFilename) of Inl e \<Rightarrow> Inl e | Inr c \<Rightarrow> Inr (None, c))
      else
        (case fileIdByPath env (root_dir cfg) templateFilename of
           Inl e \<Rightarrow> Inl e
         | Inr None \<Rightarrow> Inl (HttpNotFoundError (''Cannot getFileIdByPath: '' @ templateFilename))
         | Inr (Some i) \<Rightarrow>
             if i = [] then Inl (HttpNotFoundError (''Cannot getFileIdByPath: '' @ templateFilename))
             else (case stored_file env i of Inl e \<Rightarrow> Inl e | Inr c \<Rightarrow> Inr (Some i, c))))"

definition tryFulfillZhtmlRequest ::
  "proxy_env \<Rightarrow> request \<Rightarrow> site \<Rightarrow> string \<Rightarrow> params \<Rightarrow> string \<Rightarrow> response result" where
  "tryFulfillZhtmlRequest env rq cfg templateFilename routeParams host =
     (case template_contents env cfg templateFilename of
        Inl e \<Rightarrow> Inl e
      | Inr (templateId, contents) \<Rightarrow>
          (case render env (is_local cfg) (root_dir cfg) templateId contents host
                  (obj_merge (obj_merge routeParams (rq_query rq)) (rq_body rq)) of
             Inl e \<Rightarrow> Inl e
           | Inr page \<Rightarrow>
               Inr ((ok_response (Page page))\<lparr>content_type :=
                 Some (if ext_of rq = Some ''css'' then ''text/css''
                       else if ext_of rq = Some ''js'' then ''text/javascript'' else ''text/html'')\<rparr>)))"

definition fulfillRequest :: "proxy_env \<Rightarrow> request \<Rightarrow> site \<Rightarrow> response result" where
  "fulfillRequest env rq cfg =
     (let host = (case rewrite_host cfg of Some h \<Rightarrow> if h = [] then rq_host rq else h | None \<Rightarrow> rq_host rq);
          (routeParams, template, urlPath) = matchRouteAndParams (route_match env) (site_routes cfg) (site_path cfg)
      in case tryFulfillStaticRequest env rq cfg urlPath of
           Inr r \<Rightarrow> Inr r
         | Inl e \<Rightarrow>
             (case e of
                HttpNotFoundError _ \<Rightarrow>
                  (case template of Some t \<Rightarrow> if t = [] then Inl e else tryFulfillZhtmlRequest env rq cfg t routeParams host
                   | None \<Rightarrow> Inl e)
              | HttpForbiddenError _ \<Rightarrow>
                  (case template of Some t \<Rightarrow> if t = [] then Inl e else tryFulfillZhtmlRequest env rq cfg t routeParams host
                   | None \<Rightarrow> Inl e)
              | _ \<Rightarrow> Inl e))"

section \<open>Where a host is served from\<close>

text \<open>\<open>path.resolve(a, b)\<close>: absolute, normalised, without a slash at the end.\<close>

definition path_resolve :: "string \<Rightarrow> string \<Rightarrow> string \<Rightarrow> string" where
  "path_resolve cwd a b =
     (let p = path_normalize (if starts_with ''/'' b then b
                else if starts_with ''/'' a then a @ ''/'' @ b else cwd @ ''/'' @ a @ ''/'' @ b)
      in if length p > 1 then replace_suffix ''/'' [] p else p)"

definition zapp_name :: "string \<Rightarrow> string" where
  "zapp_name host =
     (if ends_with ''dev'' host
      then (case find_first ''dev'' [] host of Some (b, _) \<Rightarrow> b | None \<Rightarrow> host) @ ''.point'' else host)"

definition zapp_dir :: "proxy_env \<Rightarrow> string \<Rightarrow> string" where
  "zapp_dir env host =
     (let d = px_zappsdir env; name = zapp_name host
      in if d \<noteq> [] then
           (if starts_with ''/'' d \<or> starts_with ''~'' d then path_resolve (px_cwd env) d name
            else path_resolve (px_cwd env) (px_source_root env) (d @ ''/'' @ name))
         else path_resolve (px_cwd env) (px_source_root env) (''example/'' @ name))"

text \<open>The public directory and the routes of a site that is developed locally.\<close>

definition json_strings :: "string \<Rightarrow> (string, string) obj option" where
  "json_strings txt =
     (case jparse txt of
        Some (JObj m) \<Rightarrow> Some (List.map_filter (\<lambda>(k, v). case v of JStr s \<Rightarrow> Some (k, s) | _ \<Rightarrow> None) m)
      | _ \<Rightarrow> None)"

definition local_site :: "proxy_env \<Rightarrow> string \<Rightarrow> (string \<times> routes) result" where
  "local_site env host =
     (let dir = zapp_dir env host
      in case fs_file env (path_resolve (px_cwd env) dir ''point.deploy.json'') of
           None \<Rightarrow> Inl (PlainError ''ENOENT'')
         | Some txt \<Rightarrow>
             (case json_strings txt of
                None \<Rightarrow> Inl (PlainError ''SyntaxError'')
              | Some cfg \<Rightarrow>
                  (let rootDirPath = (case obj_get cfg ''rootDir'' of None \<Rightarrow> ''public''
                         | Some d \<Rightarrow> if d = [] then ''public'' else d);
                       publicPath = path_resolve (px_cwd env) dir rootDirPath;
                       routesPath = path_resolve (px_cwd env) dir ''routes.json''
                   in if fs_look env publicPath = None
                      then Inl (PlainError (''Public path '' @ publicPath @ '' doesn't exist''))
                      else if fs_look env routesPath = None
                      then Inl (PlainError (''Routes file '' @ routesPath @ '' doesn't exist''))
                      else case fs_file env routesPath of
                             None \<Rightarrow> Inl (PlainError ''EISDIR'')
                           | Some r \<Rightarrow> (case json_strings r of None \<Rightarrow> Inl (PlainError ''SyntaxError'')
                               | Some rs \<Rightarrow> Inr (publicPath, rs)))))"

definition some_text :: "string option \<Rightarrow> string option" where
  "some_text r = (case r of None \<Rightarrow> None | Some s \<Rightarrow> if s = [] then None else Some s)"

definition version_of :: "request \<Rightarrow> string" where
  "version_of rq = (case obj_get (rq_query rq) ''__point_version'' of None \<Rightarrow> ''latest'' | Some v \<Rightarrow> v)"

definition no_routes :: exn where
  "no_routes = HttpNotFoundError ''Domain not found (Route file not specified for this domain)''"

text \<open>Routes and root of a foreign domain, from its registry or from the Point identity it names.\<close>

record domain_pointers =
  dp_routesId :: string
  dp_rootDirId :: string
  dp_identity :: string

definition queryExtDomain :: "proxy_env \<Rightarrow> request \<Rightarrow> domain_pointers result" where
  "queryExtDomain env rq =
     (case domain_content env (rq_host rq) of
        Inl e \<Rightarrow> Inl e
      | Inr content \<Rightarrow>
          if trim (or_empty content) = []
          then Inl (HttpNotFoundError (''No Point data found in the domain registry for '' @ rq_host rq))
          else
            (let d = parseDomainRegistry (px_keccak env) (px_checksum env) content;
                 identity = (if pd_identity d \<noteq> [] then pd_identity d @ ''.point'' else rq_host rq)
             in if isAlias d then
                  (case zrecord env identity (version_of rq) of
                     Inl e \<Rightarrow> Inl e
                   | Inr z \<Rightarrow>
                       (case some_text z of
                          None \<Rightarrow> Inl no_routes
                        | Some routesId' \<Rightarrow>
                            (case keyvalue env identity ''::rootDir'' (version_of rq) False of
                               Inl e \<Rightarrow> Inl e
                             | Inr r \<Rightarrow>
                                 (case some_text r of
                                    None \<Rightarrow> Inl (HttpNotFoundError (''Root dir id not found for host '' @ identity))
                                  | Some root \<Rightarrow> Inr \<lparr>dp_routesId = routesId', dp_rootDirId = root, dp_identity = identity\<rparr>))))
                else if routesId d = [] \<or> rootDirId d = []
                then Inl (HttpNotFoundError (''Missing Point information in domain registry.''))
                else Inr \<lparr>dp_routesId = routesId d, dp_rootDirId = rootDirId d, dp_identity = identity\<rparr>))"

text \<open>A \<open>.point\<close> site: the routes and the root directory at the version asked for.\<close>

definition point_site :: "proxy_env \<Rightarrow> request \<Rightarrow> site result" where
  "point_site env rq =
     (case zrecord env (rq_host rq) (version_of rq) of
        Inl e \<Rightarrow> Inl e
      | Inr z \<Rightarrow>
          (case some_text z of
             None \<Rightarrow> Inl no_routes
           | Some zrouteId \<Rightarrow>
               (case json_file env zrouteId of
                  Inl e \<Rightarrow> Inl e
                | Inr None \<Rightarrow> Inl (HttpNotFoundError (''Cannot parse json of zrouteId '' @ zrouteId))
                | Inr (Some routes) \<Rightarrow>
                    (case keyvalue env (rq_host rq) ''::rootDir'' (version_of rq) True of
                       Inl e \<Rightarrow> Inl e
                     | Inr r \<Rightarrow>
                         (case some_text r of
                            None \<Rightarrow> Inl (HttpNotFoundError (''Root dir id not found for host '' @ rq_host rq))
                          | Some root \<Rightarrow> Inr \<lparr>is_local = False, site_routes = routes, site_path = rq_path rq,
                              root_dir = root, rewrite_host = None\<rparr>)))))"

definition foreign_site :: "proxy_env \<Rightarrow> request \<Rightarrow> site result" where
  "foreign_site env rq =
     (case queryExtDomain env rq of
        Inl e \<Rightarrow> Inl e
      | Inr d \<Rightarrow>
          (case (if dp_routesId d = ''ipfs://ignore'' then Inr (Some [(''/'', ''index.html'')])
                 else json_file env (dp_routesId d)) of
             Inl e \<Rightarrow> Inl e
           | Inr None \<Rightarrow> Inl (HttpNotFoundError (''Cannot parse json of zrouteId '' @ dp_routesId d))
           | Inr (Some routes) \<Rightarrow> Inr \<lparr>is_local = False, site_routes = routes, site_path = rq_path rq,
               root_dir = replace_suffix ''/'' [] (dp_rootDirId d), rewrite_host = Some (dp_identity d)\<rparr>))"

definition home_site :: "proxy_env \<Rightarrow> request \<Rightarrow> site" where
  "home_site env rq = \<lparr>is_local = True, site_routes = [(''*'', ''index.zhtml'')], site_path = rq_path rq,
     root_dir = path_resolve (px_cwd env) (px_source_root env) ''internal/explorer.point/public'', rewrite_host = None\<rparr>"

definition dev_site :: "proxy_env \<Rightarrow> request \<Rightarrow> site result" where
  "dev_site env rq =
     (case zrecord env (rq_host rq) (version_of rq) of
        Inl e \<Rightarrow> Inl e
      | Inr z \<Rightarrow>
          if some_text z = None \<and> \<not> ends_with ''.local'' (rq_host rq) then Inl no_routes
          else (case local_site env (rq_host rq) of
                  Inl e \<Rightarrow> Inl e
                | Inr (publicPath, routes) \<Rightarrow> Inr \<lparr>is_local = True, site_routes = routes, site_path = rq_path rq,
                    root_dir = publicPath, rewrite_host = None\<rparr>))"

section \<open>Web2 hosts\<close>

definition full_domain_redirects :: "(string \<times> string) list" where
  "full_domain_redirects = [(''fonts.googleapis.com'', ''gfonts.mirror.point''),
     (''fonts.gstatic.com'', ''gfontfiles.mirror.point'')]"

definition getMirrorWeb2Page :: "proxy_env \<Rightarrow> request \<Rightarrow> string option result" where
  "getMirrorWeb2Page env rq =
     (case obj_get full_domain_redirects (to_lower (rq_host rq)) of
        Some target \<Rightarrow>
          (let url = (if rq_host rq = ''fonts.googleapis.com''
                      then replace_first ''/css?'' ''/css.css?'' (replace_first ''/css2?'' ''/css2.css?'' (rq_url rq))
                      else rq_url rq)
           in Inr (Some (''https://'' @ target @ (if starts_with ''/'' url then [] else ''/'') @ url)))
      | None \<Rightarrow>
          if obj_get (rq_query rq) ''mirror'' = Some ''false'' then Inr None
          else (case mirrors env of
                  Inl e \<Rightarrow> Inl e
                | Inr ms \<Rightarrow>
                    (case find (\<lambda>(src, _). src = rq_protocol rq @ ''://'' @ rq_host rq @ rq_path rq) ms of
                       None \<Rightarrow> Inr None
                     | Some (_, i) \<Rightarrow> Inr (Some (''https://mirror.point/data/'' @ i @
                         (case some_text (rq_query_text rq) of None \<Rightarrow> [] | Some q \<Rightarrow> ''?'' @ q))))))"

definition alnum :: "char \<Rightarrow> bool" where
  "alnum c = (let n = of_char c :: nat in 48 \<le> n \<and> n \<le> 57 \<or> 65 \<le> n \<and> n \<le> 90 \<or> 97 \<le> n \<and> n \<le> 122)"

text \<open>The expression for a web2 host, searched anywhere in the host: a host character, a dot, up to
  six characters and a word boundary.\<close>

definition word_char :: "char \<Rightarrow> bool" where
  "word_char c = (alnum c \<or> c = CHR ''_'')"

definition boundary :: "string \<Rightarrow> nat \<Rightarrow> bool" where
  "boundary s i = ((0 < i \<and> word_char (s ! (i - 1))) \<noteq> (i < length s \<and> word_char (s ! i)))"

definition web2_host :: "string \<Rightarrow> bool" where
  "web2_host s = list_ex (\<lambda>i.
     0 < i \<and> s ! i = CHR ''.'' \<and> (alnum (s ! (i - 1)) \<or> s ! (i - 1) \<in> set ''-@:%._+~#='') \<and>
     list_ex (\<lambda>n. i + n < length s \<and> list_all (\<lambda>c. alnum c \<or> c \<in> set ''()'') (take n (drop (i + 1) s)) \<and>
        boundary s (i + 1 + n)) [1..<7]) [0..<length s]"

text \<open>\<open>/^https:\/\/(.*)\//\<close>: what stands between the scheme and the last slash.\<close>

definition referer_host :: "string \<Rightarrow> string" where
  "referer_host r =
     (if starts_with ''https://'' r \<and> CHR ''/'' \<in> set (drop 8 r)
      then rev (tl (dropWhile (\<lambda>c. c \<noteq> CHR ''/'') (rev (drop 8 r)))) else r)"

definition csrf_token :: "proxy_env \<Rightarrow> string option \<Rightarrow> string" where
  "csrf_token env csrf = (case some_text csrf of Some t \<Rightarrow> t | None \<Rightarrow> csrf_fresh env)"

definition web2_response :: "proxy_env \<Rightarrow> request \<Rightarrow> string option \<Rightarrow> string option \<times> response result" where
  "web2_response env rq csrf =
     (let mirror = (case getMirrorWeb2Page env rq of Inr m \<Rightarrow> some_text m | Inl _ \<Rightarrow> None); host = rq_host rq
      in case mirror of
           Some url \<Rightarrow> (csrf, Inr ((redirect_to 302 url)\<lparr>allow_origin :=
             (if host \<in> {''fonts.googleapis.com'', ''fonts.gstatic.com''} then Some ''*''
              else map_option (replace_suffix ''/'' []) (rq_referer rq))\<rparr>))
         | None \<Rightarrow>
             if starts_with ''www.google.com'' host \<or> starts_with ''google.com'' host
             then (let q = (case obj_get (rq_query rq) ''q'' of Some q \<Rightarrow> q | None \<Rightarrow> [])
                   in (csrf, Inr (redirect_to 302
                        (if ends_with ''.sol'' q \<or> ends_with ''.point'' q then ''https://'' @ q
                         else ''https://search.point/search?q='' @ q))))
             else if web2_host host
             then (Some (csrf_token env csrf), Inr ((ok_response (Web2Link (sanitize env (''https://'' @ host @ rq_url rq))
                     (csrf_token env csrf) (case rq_referer rq of None \<Rightarrow> [] | Some r \<Rightarrow> referer_host r)))
                     \<lparr>status := 421, content_type := Some ''text/html''\<rparr>))
             else (csrf, Inl (HttpNotFoundError ''Could not match requested tld with any programmed case'')))"

text \<open>The list of mirrors and the time of the last scan.\<close>

record 'm mirror_state =
  web2mirror :: "'m option"
  last_scan :: int

definition getWeb2MirrorContent ::
  "int \<Rightarrow> int \<Rightarrow> 'm option result \<Rightarrow> 'm mirror_state \<Rightarrow> 'm mirror_state \<times> 'm option result" where
  "getWeb2MirrorContent expiration now fetched st =
     (if web2mirror st \<noteq> None \<and> last_scan st + expiration > now then (st, Inr (web2mirror st))
      else case fetched of
             Inl e \<Rightarrow> (st\<lparr>last_scan := now\<rparr>, Inl e)
           | Inr m \<Rightarrow> (\<lparr>web2mirror = m, last_scan = now\<rparr>, Inr m))"

section \<open>The handler\<close>

definition serve :: "proxy_env \<Rightarrow> request \<Rightarrow> site result \<Rightarrow> response result" where
  "serve env rq s = (case s of Inl e \<Rightarrow> Inl e | Inr cfg \<Rightarrow> fulfillRequest env rq cfg)"

definition renderPointHomeWeb2RedirectPage :: "proxy_env \<Rightarrow> request \<Rightarrow> string option \<Rightarrow> string option \<times> response" where
  "renderPointHomeWeb2RedirectPage env rq csrf =
     (if rq_host rq \<noteq> ''point'' then (csrf, (ok_response (Text ''Forbidden''))\<lparr>status := 403\<rparr>)
      else (Some (csrf_token env csrf), (ok_response (Web2Link
              (case obj_get (rq_query rq) ''url'' of Some u \<Rightarrow> u | None \<Rightarrow> []) (csrf_token env csrf) ''point''))
              \<lparr>status := 421, content_type := Some ''text/html''\<rparr>))"

definition dispatch :: "proxy_env \<Rightarrow> request \<Rightarrow> string option \<Rightarrow> string option \<times> response result" where
  "dispatch env rq csrf =
     (let host = rq_host rq in
      if host = [] then (csrf, Inl (PlainError ''Host cannot be empty''))
      else if ends_with ''.z'' host
      then (csrf, Inr (redirect_to 301 (''https://'' @ replace_first ''.z'' ''.point'' host)))
      else if host = ''point'' then
        (if starts_with ''/web2redirect'' (rq_url rq)
         then (let (csrf', r) = renderPointHomeWeb2RedirectPage env rq csrf in (csrf', Inr r))
         else (csrf, fulfillRequest env rq (home_site env rq)))
      else if ends_with ''.local'' host \<or> px_mode env = ''zappdev'' \<and> ends_with ''.point'' host
      then (csrf, serve env rq (dev_site env rq))
      else if ends_with ''.point'' host then (csrf, serve env rq (point_site env rq))
      else if ends_with ''.sol'' host \<or> ends_with ''.eth'' host then (csrf, serve env rq (foreign_site env rq))
      else if host = ''ipfs'' then
        (csrf, if rq_url rq = ''/peers'' then Inr (ok_response IpfsPeers)
               else if starts_with ''/pubsub/peers'' (rq_url rq)
               then Inr (ok_response (IpfsPubsubPeers (replace_first ''/pubsub/peers'' [] (rq_url rq))))
               else (case ipfs_file env (rq_url rq) of Inl e \<Rightarrow> Inl e | Inr _ \<Rightarrow> Inr (ok_response (IpfsFile (rq_url rq)))))
      else web2_response env rq csrf)"

text \<open>The \<open>catch\<close> of the handler: the status of the error class, 500 for others.\<close>

fun error_message :: "exn \<Rightarrow> string" where
  "error_message (HttpNotFoundError m) = m"
| "error_message (HttpForbiddenError m) = m"
| "error_message (DisplayableError m) = m"
| "error_message (PlainError m) = m"
| "error_message TypeError = ''TypeError''"

definition unquoted :: "string \<Rightarrow> string" where
  "unquoted m = rev (dropWhile (\<lambda>c. c = CHR 0x22) (rev (dropWhile (\<lambda>c. c = CHR 0x22) (jprint_str m))))"

definition error_response :: "request \<Rightarrow> exn \<Rightarrow> response" where
  "error_response rq e =
     (let code = (case httpStatusCode e of Some n \<Rightarrow> n | None \<Rightarrow> 500);
          html = (case rq_accept rq of None \<Rightarrow> False | Some a \<Rightarrow> includes_str ''text/html'' a)
      in if html then (ok_response (ErrorPage code (unquoted (error_message e))))
                        \<lparr>status := code, content_type := Some ''text/html''\<rparr>
         else (ok_response (Text (''Error from Renderer: '' @ unquoted (error_message e))))\<lparr>status := code\<rparr>)"

definition handle_request :: "proxy_env \<Rightarrow> request \<Rightarrow> string option \<Rightarrow> string option \<times> response" where
  "handle_request env rq csrf =
     (case dispatch env rq csrf of
        (csrf', Inr r) \<Rightarrow> (csrf', r)
      | (csrf', Inl e) \<Rightarrow> (csrf', error_response rq e))"

section \<open>Properties\<close>

lemma full_path_below:
  assumes "getFullPathFromLocalRoot ex r p = Inr f" "clean_root r"
  shows "ex f \<and> starts_with r f \<and>
    (p \<noteq> [] \<longrightarrow> ''..'' \<notin> set (split_ch CHR ''/'' p) \<longrightarrow> f = r \<or> starts_with (r @ ''/'') f)"
proof -
  have f: "f = path_join r p" "ex f" "starts_with r f"
    using assms(1) by (auto simp: getFullPathFromLocalRoot_def Let_def split: if_splits)
  moreover have "f = r \<or> starts_with (r @ ''/'') f" if "p \<noteq> []" "''..'' \<notin> set (split_ch CHR ''/'' p)"
    using path_join_below [OF assms(2) that] starts_with_append [of "r @ ''/''"] f(1) by auto
  ultimately show ?thesis by blast
qed

lemma static_local:
  assumes "tryFulfillStaticRequest env rq cfg p = Inr r" "is_local cfg"
  shows "\<exists>f. rs_body r = LocalFile f \<and> getFullPathFromLocalRoot (\<lambda>p. fs_look env p \<noteq> None) (root_dir cfg) p = Inr f"
  using assms by (auto simp: tryFulfillStaticRequest_def ok_response_def Let_def
      split: if_splits option.splits sum.splits fs_entry.splits)

lemma zhtml_local:
  assumes "tryFulfillZhtmlRequest env rq cfg t ps host = Inr r" "is_local cfg"
  shows "\<exists>f c page. rs_body r = Page page \<and> fs_file env f = Some c \<and>
    getFullPathFromLocalRoot (\<lambda>p. fs_look env p \<noteq> None) (root_dir cfg) t = Inr f \<and>
    render env True (root_dir cfg) (Some t) c host (obj_merge (obj_merge ps (rq_query rq)) (rq_body rq)) = Inr page"
  using assms by (auto simp: tryFulfillZhtmlRequest_def template_contents_def ok_response_def
      split: if_splits option.splits sum.splits)

lemma first_route_mem: "first_route matchp path rs = Some (ps, t) \<Longrightarrow> t \<in> snd ` set rs"
  by (induction rs) (auto split: option.splits)

lemma matched_template:
  "matchRouteAndParams matchp rs path = (ps, Some t, p) \<Longrightarrow> t \<in> snd ` set rs \<and> p = path"
  by (auto simp: matchRouteAndParams_def split: option.splits if_splits dest: first_route_mem)

text \<open>What a locally served site may answer with: a file that exists below its root, or a page rendered
  from a template that one of its routes names and that is such a file.\<close>

definition from_root :: "proxy_env \<Rightarrow> string \<Rightarrow> string \<Rightarrow> string \<Rightarrow> bool" where
  "from_root env root p f \<longleftrightarrow> fs_look env f \<noteq> None \<and> starts_with root f \<and>
     (p \<noteq> [] \<longrightarrow> ''..'' \<notin> set (split_ch CHR ''/'' p) \<longrightarrow> f = root \<or> starts_with (root @ ''/'') f)"


definition toy_proxy :: proxy_env where
  "toy_proxy = \<lparr>px_mode = ''zappdev'', px_cwd = ''/srv'', px_source_root = ''/srv'', px_zappsdir = [],
     zrecord = (\<lambda>h v. Inr (Some ''z1'')),
     keyvalue = (\<lambda>h k v follow. Inr (Some (if follow then ''root1'' else ''@@copy_from_ikv=b:k''))),
     json_file = (\<lambda>i. Inr (Some [(''*'', ''index.zhtml'')])),
     fileIdByPath = (\<lambda>root p. if root = ''root1'' then Inr (Some ''f1'') else Inl (PlainError ''not an id'')),
     stored_file = (\<lambda>i. Inr ''page''), remote_stream = (\<lambda>i r. Inr ()), ipfs_file = (\<lambda>u. Inr []),
     fs_look = (\<lambda>p. if p = ''/srv/public/'' then Some FsDir else if p = ''/srv/public/index.zhtml'' then Some (FsFile ''hi'')
         else if p = ''/etc/passwd'' then Some (FsFile ''x'') else None),
     render = (\<lambda>l root i c h ps. Inr c), mime = (\<lambda>e. None), route_match = (\<lambda>k p. Some []),
     domain_content = (\<lambda>h. Inr (Some ''pn_alias=me'')), px_keccak = id, px_checksum = id, mirrors = Inr [],
     csrf_fresh = ''t'', sanitize = id\<rparr>"

definition toy_get :: "string \<Rightarrow> string \<Rightarrow> request" where
  "toy_get host path = \<lparr>rq_host = host, rq_url = path, rq_path = path, rq_query = [], rq_query_text = None,
     rq_protocol = ''https'', rq_referer = None, rq_accept = None, rq_range = None, rq_body = []\<rparr>"

definition toy_site :: "string \<Rightarrow> site" where
  "toy_site path = \<lparr>is_local = True, site_routes = [(''*'', ''index.zhtml'')], site_path = path,
     root_dir = ''/srv/public'', rewrite_host = None\<rparr>"

lemma toy_page: "fulfillRequest toy_proxy (toy_get ''me.local'' ''/'') (toy_site ''/'') =
    Inr ((ok_response (Page ''hi''))\<lparr>content_type := Some ''text/html''\<rparr>)"
  by code_simp


text \<open>The existence test comes before the traversal test, so the status tells whether a file outside
  the root exists.\<close>

lemma existence_outside_root:
  "tryFulfillStaticRequest toy_proxy (toy_get ''me.local'' ''/'') (toy_site ''/'') ''/../../etc/passwd'' =
     Inl (PlainError ''Directory traversal is not allowed'') \<and>
   tryFulfillStaticRequest toy_proxy (toy_get ''me.local'' ''/'') (toy_site ''/'') ''/../../etc/shadow'' =
     Inl (HttpNotFoundError ''Not Found'')"
  by code_simp

text \<open>The redirect of a \<open>.z\<close> host replaces the first \<open>.z\<close> of the name, not its end.\<close>

lemma z_redirect_first_occurrence:
  "location (snd (handle_request toy_proxy (toy_get ''my.zoo.z'' ''/'') None)) = Some ''https://my.pointoo.z''"
  by code_simp

text \<open>A domain that is an alias of a Point identity reads the root directory without following copy
  instructions: the site that the identity serves itself cannot be served through the alias.\<close>

lemma alias_root_not_followed:
  "status (snd (handle_request (toy_proxy\<lparr>px_mode := ''prod''\<rparr>) (toy_get ''me.point'' ''/a'') None)) = 200 \<and>
   status (snd (handle_request (toy_proxy\<lparr>px_mode := ''prod''\<rparr>) (toy_get ''me.sol'' ''/a'') None)) = 500"
  by code_simp

end
