(* ===== verification/ProxyApi.thy ===== *)
theory ProxyApi
  imports Proxy
begin

text \<open>
  The other handlers of the proxy: \<open>handlers/pointApi.ts\<close>, \<open>storage.ts\<close>,
  \<open>encryptedStorage.ts\<close>, the middleware \<open>auth.ts\<close> and \<open>cors.ts\<close>, the error
  transformation and \<open>util/sanitizeSVG.ts\<close>.  A handler is a function of the reply so
  far: Fastify keeps the first answer and ignores later ones, and sending does not end a
  handler.  Token verification, controllers, storage, encryption, content detection and
  HTML parsing are arguments.
\<close>

section \<open>Replies\<close>

text \<open>The answer sent, and what the handler did to the rest of the node.\<close>

datatype effect =
    WalletCall string
  | Deploy
  | DeployContracts "string list" string string
  | UploadFile string

datatype answer = Plain string | Data "(string \<times> json) list" | Bytes string | DirectoryPage string "(string \<times> json) list list"

record reply =
  sent :: "(nat \<times> answer) option"
  rp_type :: "string option"
  attachment :: bool
  effects :: "effect list"

definition no_reply :: reply where
  "no_reply = \<lparr>sent = None, rp_type = None, attachment = False, effects = []\<rparr>"

definition send :: "nat \<Rightarrow> answer \<Rightarrow> reply \<Rightarrow> reply" where
  "send code a r = (case sent r of None \<Rightarrow> r\<lparr>sent := Some (code, a)\<rparr> | Some _ \<Rightarrow> r)"

definition effect :: "effect \<Rightarrow> reply \<Rightarrow> reply" where
  "effect e r = r\<lparr>effects := effects r @ [e]\<rparr>"

text \<open>The value or the exception of an asynchronous handler, sent if nothing was.\<close>

definition finish :: "reply \<times> (answer option) result \<Rightarrow> reply" where
  "finish x = (case x of
     (r, Inr None) \<Rightarrow> r
   | (r, Inr (Some a)) \<Rightarrow> send 200 a r
   | (r, Inl e) \<Rightarrow> send 500 (Plain (error_message e)) r)"

section \<open>Authentication\<close>

record auth_env =
  test_mode :: bool
  token_valid :: "string \<Rightarrow> bool"

definition checkAuthToken :: "auth_env \<Rightarrow> string option \<Rightarrow> reply \<Rightarrow> reply" where
  "checkAuthToken env token r =
     (if test_mode env then r
      else case token of
             None \<Rightarrow> send 401 (Plain ''Unauthorized'') r
           | Some jwt \<Rightarrow>
               if jwt = [] then send 401 (Plain ''Unauthorized'') r
               else if token_valid env (if starts_with ''Bearer'' jwt \<and> length jwt > 6 \<and> is_space (jwt ! 6)
                                        then drop 7 jwt else jwt)
               then r else send 401 (Plain ''Unauthorized'') r)"

record api_request =
  ar_host :: "string option"
  ar_token :: "string option"
  ar_content_type :: "string option"
  ar_accept :: "string option"
  ar_router_path :: string

section \<open>The local API\<close>

text \<open>\<open>/point_api/wallet/:method\<close>: the controller's method runs unless the host is foreign.\<close>

definition wallet_handler ::
  "auth_env \<Rightarrow> (string \<Rightarrow> answer result) \<Rightarrow> string \<Rightarrow> api_request \<Rightarrow> reply" where
  "wallet_handler env controller meth rq =
     (let r = checkAuthToken env (ar_token rq) no_reply
      in if ar_host rq \<notin> {Some ''point'', Some ''confirmation-window''}
         then send 403 (Plain ''Forbidden'') r
         else finish (effect (WalletCall meth) r, map_sum id Some (controller meth)))"

text \<open>\<open>/point_api/deploy\<close> with the outcome of the controller.\<close>

record deploy_outcome =
  do_status :: string
  do_error :: "string option"

definition deploy_handler :: "deploy_outcome \<Rightarrow> api_request \<Rightarrow> reply" where
  "deploy_handler out rq =
     (let r = (if ar_host rq \<noteq> Some ''point'' then send 403 (Plain ''Forbidden'') no_reply else no_reply);
          code = (if do_status out = ''success'' then 200
                  else if do_error out = Some ''deploy path not specified'' then 400 else 500)
      in send code (Data ((''status'', JStr (do_status out)) #
           (case do_error out of None \<Rightarrow> [] | Some e \<Rightarrow> [(''error'', JStr e)]))) (effect Deploy r))"

definition multipart :: "api_request \<Rightarrow> bool" where
  "multipart rq = (case ar_content_type rq of None \<Rightarrow> False | Some t \<Rightarrow> includes_str ''multipart/form-data'' t)"

text \<open>\<open>/point_api/deploy_upgradable_contracts\<close>: the files and the fields of the form.\<close>

definition upgradable_handler ::
  "auth_env \<Rightarrow> (string list \<Rightarrow> string \<Rightarrow> string \<Rightarrow> unit result) \<Rightarrow> string list \<Rightarrow> (string, string) obj \<Rightarrow>
   api_request \<Rightarrow> reply" where
  "upgradable_handler env deploy files form rq =
     (let r0 = checkAuthToken env (ar_token rq) no_reply;
          r = (if ar_host rq \<noteq> Some ''point'' then send 403 (Plain ''Forbidden'') r0 else r0)
      in if \<not> multipart rq then send 415 (Plain ''Only multipart/form-data is supported'') r
         else if files = [] then send 400 (Plain ''No files in the body'') r
         else case (some_text (obj_get form ''contractNames''), some_text (obj_get form ''version''),
                    some_text (obj_get form ''target'')) of
                (Some names, Some version, Some target) \<Rightarrow>
                  (case (jparse names, jparse (case obj_get form ''dependencies'' of Some d \<Rightarrow> d | None \<Rightarrow> ''undefined'')) of
                     (Some _, Some _) \<Rightarrow>
                       (case deploy files version target of
                          Inl e \<Rightarrow> finish (effect (DeployContracts files version target) r, Inl e)
                        | Inr _ \<Rightarrow> send 200 (Plain ''Success'') (effect (DeployContracts files version target) r))
                   | _ \<Rightarrow> finish (r, Inl (PlainError ''SyntaxError'')))
              | _ \<Rightarrow> send 400 (Plain ''No required fields in the body'') r)"

section \<open>Storage\<close>

record storage_env =
  upload_data :: "string \<Rightarrow> string result"
  get_file :: "string \<Rightarrow> string result"
  detect_type :: "string \<Rightarrow> string"
  is_svg :: "string \<Rightarrow> bool"
  sanitize_svg :: "string \<Rightarrow> string result"

definition storage_post :: "auth_env \<Rightarrow> storage_env \<Rightarrow> string option \<Rightarrow> api_request \<Rightarrow> reply" where
  "storage_post env se file rq =
     (if \<not> multipart rq then send 415 (Plain ''Only multipart/form-data is supported'') no_reply
      else
        let r = checkAuthToken env (ar_token rq) no_reply
        in case file of
             None \<Rightarrow> send 400 (Plain ''No files in the body'') r
           | Some buf \<Rightarrow>
               finish (effect (UploadFile buf) r,
                 map_sum id (\<lambda>i. Some (Data [(''data'', JStr i)])) (upload_data se buf)))"

text \<open>The rows of the directory page.\<close>

definition file_icon :: "json \<Rightarrow> string" where
  "file_icon t = (if t = JStr ''fileptr'' then ''&#128196; '' else if t = JStr ''dirptr'' then ''&#128193; ''
     else ''&#10067; '')"

definition json_text :: "json option \<Rightarrow> string" where
  "json_text j = (case j of Some (JStr s) \<Rightarrow> s | Some v \<Rightarrow> jprint v | None \<Rightarrow> ''undefined'')"

definition file_info :: "json \<Rightarrow> (string \<times> json) list" where
  "file_info f = [(''icon'', JStr (file_icon (case jget ''type'' f of Some t \<Rightarrow> t | None \<Rightarrow> JNull)))] @
     (case jget ''id'' f of Some i \<Rightarrow> [(''fileId'', i)] | None \<Rightarrow> []) @
     [(''link'', JStr (''/_storage/'' @ json_text (jget ''id'' f)))] @
     (case jget ''name'' f of Some n \<Rightarrow> [(''name'', n)] | None \<Rightarrow> []) @
     (case jget ''size'' f of Some n \<Rightarrow> [(''size'', n)] | None \<Rightarrow> [])"

text \<open>The rows for encrypted files add the extension of the name to the link of a file.\<close>

definition encrypted_file_info :: "json \<Rightarrow> (string \<times> json) list" where
  "encrypted_file_info f =
     (let ext = (case jget ''name'' f of Some (JStr n) \<Rightarrow> last (split_ch CHR ''.'' n) | _ \<Rightarrow> [])
      in map (\<lambda>(k, v). (k, if k = ''link'' \<and> jget ''type'' f = Some (JStr ''fileptr'')
           then (case v of JStr l \<Rightarrow> JStr (l @ ''.'' @ ext) | _ \<Rightarrow> v) else v)) (file_info f))"

definition directory_page :: "(json \<Rightarrow> (string \<times> json) list) \<Rightarrow> string \<Rightarrow> string \<Rightarrow> answer result" where
  "directory_page info hash text =
     (case jparse text of
        Some j \<Rightarrow> (case jarr (jget ''files'' j) of
            Some fs \<Rightarrow> Inr (DirectoryPage hash (map info fs))
          | None \<Rightarrow> Inl TypeError)
      | None \<Rightarrow> Inl TypeError)"

definition accept_of :: "api_request \<Rightarrow> string" where
  "accept_of rq = (case ar_accept rq of None \<Rightarrow> [] | Some a \<Rightarrow> a)"

definition storage_get :: "storage_env \<Rightarrow> string \<Rightarrow> api_request \<Rightarrow> reply" where
  "storage_get se hash rq =
     (case get_file se hash of
        Inl _ \<Rightarrow> send 404 (Plain ''Not found'') no_reply
      | Inr file \<Rightarrow>
          if isDirectoryJson file
          then finish (no_reply\<lparr>rp_type := Some ''text/html''\<rparr>, map_sum id Some (directory_page file_info hash file))
          else
            (let svg = is_svg se file;
                 ct = (if svg then ''image/svg+xml'' else detect_type se file)
             in case (if svg then sanitize_svg se file else Inr file) of
                  Inl e \<Rightarrow> finish (no_reply, Inl e)
                | Inr body \<Rightarrow>
                    finish (no_reply\<lparr>rp_type := Some ct,
                       attachment := setAsAttachment (ar_router_path rq) ct (accept_of rq)\<rparr>, Inr (Some (Bytes body)))))"

section \<open>Encrypted storage\<close>

record encryption_env =
  comm_key :: "string \<Rightarrow> string option"
  encrypt_multiple :: "string \<Rightarrow> string list \<Rightarrow> string list \<Rightarrow> (string list \<times> json) result"
  decrypt_with :: "string \<Rightarrow> string \<Rightarrow> string \<Rightarrow> string result"
  decrypt_with_key :: "string \<Rightarrow> string \<Rightarrow> string \<Rightarrow> string result"

definition encrypted_post ::
  "auth_env \<Rightarrow> storage_env \<Rightarrow> encryption_env \<Rightarrow> string option \<Rightarrow> string option \<Rightarrow> string option \<Rightarrow> api_request \<Rightarrow> reply" where
  "encrypted_post env se ee file identities metadata rq =
     (if \<not> multipart rq then send 415 (Plain ''Only multipart/form-data is supported'') no_reply
      else
        let r = checkAuthToken env (ar_token rq) no_reply
        in case file of
             None \<Rightarrow> send 400 (Plain ''No files in the body'') r
           | Some buf \<Rightarrow>
               (case some_text identities of
                  None \<Rightarrow> send 400 (Plain ''No identity passed'') r
                | Some ids \<Rightarrow>
                    (case mapM_res (\<lambda>i. case comm_key ee i of
                         None \<Rightarrow> Inl (PlainError (''Public key not found for the identity '' @ i))
                       | Some k \<Rightarrow> Inr k) (split_ch CHR '','' ids) of
                       Inl e \<Rightarrow> finish (r, Inl e)
                     | Inr pks \<Rightarrow>
                         (case ar_host rq of
                            None \<Rightarrow> finish (r, Inl (PlainError ''Host header parameter is required for encryption''))
                          | Some host \<Rightarrow>
                              (case encrypt_multiple ee host
                                  (buf # split_ch CHR '','' (case metadata of None \<Rightarrow> [] | Some m \<Rightarrow> m)) pks of
                                 Inl e \<Rightarrow> finish (r, Inl e)
                               | Inr (messages, objs) \<Rightarrow>
                                   (let data = hex_decode (hd messages)
                                    in finish (effect (UploadFile data) r, map_sum id (\<lambda>i. Some (Data
                                         [(''data'', JStr i), (''metadata'', JArr (map JStr (tl messages))),
                                          (''encryptedMessagesSymmetricObjs'', objs)])) (upload_data se data)))))))) "

definition encrypted_get ::
  "auth_env \<Rightarrow> storage_env \<Rightarrow> encryption_env \<Rightarrow> string \<Rightarrow> string option \<Rightarrow> string option \<Rightarrow> api_request \<Rightarrow> reply" where
  "encrypted_get env se ee hash eSymmetricObj symmetricObj rq =
     (let r = checkAuthToken env (ar_token rq) no_reply
      in case get_file se hash of
           Inl _ \<Rightarrow> send 404 (Plain ''Not found'') r
         | Inr file \<Rightarrow>
             (case ar_host rq of
                None \<Rightarrow> finish (r, Inl (PlainError ''Host header parameter is required for encryption''))
              | Some host \<Rightarrow>
                  (case (case some_text eSymmetricObj of
                           Some o' \<Rightarrow> decrypt_with ee host file o'
                         | None \<Rightarrow> (case some_text symmetricObj of
                             Some k \<Rightarrow> decrypt_with_key ee host file k
                           | None \<Rightarrow> Inl (PlainError ''No symmetric obj passed''))) of
                     Inl e \<Rightarrow> finish (r, Inl e)
                   | Inr plain \<Rightarrow>
                       if isDirectoryJson plain
                       then finish (r\<lparr>rp_type := Some ''text/html''\<rparr>, map_sum id Some (directory_page encrypted_file_info hash plain))
                       else finish (r\<lparr>rp_type := Some (detect_type se plain),
                              attachment := setAsAttachment (ar_router_path rq) (detect_type se plain) (accept_of rq)\<rparr>,
                              Inr (Some (Bytes plain))))))"

section \<open>Hooks\<close>

definition cors_origin :: "string \<Rightarrow> string option" where
  "cors_origin host =
     (if to_lower host \<in> {''mirror.point'', ''gfontfiles.mirror.point'', ''gfonts.mirror.point''} then Some ''*'' else None)"

text \<open>\<open>payload.replace(/server/gi, 'engine')\<close> for answers of status 500 and above.\<close>

lemma starts_with_lower_shorter:
  "p \<noteq> [] \<and> starts_with p (to_lower s) \<Longrightarrow> length s - length p < length s"
  by (cases s) (auto simp: starts_with_def to_lower_def)

function replace_all_ci :: "string \<Rightarrow> string \<Rightarrow> string \<Rightarrow> string" where
  "replace_all_ci p r s =
     (if p \<noteq> [] \<and> starts_with p (to_lower s) then r @ replace_all_ci p r (drop (length p) s)
      else case s of [] \<Rightarrow> [] | c # cs \<Rightarrow> c # replace_all_ci p r cs)"
  by pat_completeness auto
termination
  by (relation "measure (\<lambda>(p, r, s). length s)") (simp_all add: starts_with_lower_shorter)

declare replace_all_ci.simps [simp del]

definition transformErrorResp :: "nat \<Rightarrow> string \<Rightarrow> string" where
  "transformErrorResp code payload = (if code \<ge> 500 then replace_all_ci ''server'' ''engine'' payload else payload)"

section \<open>Sanitising SVG\<close>

text \<open>The document tree; parsing and printing are the DOM's.\<close>

datatype dom = Elem string "(string \<times> string) list" "dom list" | TextNode string

fun nodeName :: "dom \<Rightarrow> string" where
  "nodeName (Elem n _ _) = n"
| "nodeName (TextNode _) = ''#text''"

text \<open>\<open>childNodes\<close> is live: removing a child while iterating moves the next one to its place, and the
  iteration goes on behind it.\<close>

fun remove_scripts :: "dom list \<Rightarrow> dom list" where
  "remove_scripts [] = []"
| "remove_scripts (x # xs) =
     (if nodeName x = ''script'' then (case xs of [] \<Rightarrow> [] | y # ys \<Rightarrow> y # remove_scripts ys)
      else x # remove_scripts xs)"

fun sanitize_svg_element :: "dom \<Rightarrow> dom" where
  "sanitize_svg_element (Elem n attrs children) =
     Elem n (filter (\<lambda>(k, _). \<not> starts_with ''on'' k) attrs) (remove_scripts children)"
| "sanitize_svg_element (TextNode t) = TextNode t"

text \<open>\<open>div.querySelector('svg')\<close>: the first \<open>svg\<close> in document order is sanitised in place.\<close>

fun sanitize_first :: "dom \<Rightarrow> dom option"
  and sanitize_first_in :: "dom list \<Rightarrow> dom list option" where
  "sanitize_first (TextNode t) = None"
| "sanitize_first (Elem n attrs children) =
     (if n = ''svg'' then Some (sanitize_svg_element (Elem n attrs children))
      else map_option (Elem n attrs) (sanitize_first_in children))"
| "sanitize_first_in [] = None"
| "sanitize_first_in (x # xs) =
     (case sanitize_first x of Some y \<Rightarrow> Some (y # xs) | None \<Rightarrow> map_option ((#) x) (sanitize_first_in xs))"

definition sanitizeSVG ::
  "(string \<Rightarrow> bool) \<Rightarrow> (string \<Rightarrow> dom list) \<Rightarrow> (dom list \<Rightarrow> string) \<Rightarrow> string \<Rightarrow> string result" where
  "sanitizeSVG isSVG parse print content =
     (if \<not> isSVG content then Inl (PlainError ''Not a valid SVG.'')
      else case sanitize_first_in (parse content) of
             None \<Rightarrow> Inl (PlainError ''Not a valid SVG.'')
           | Some ds \<Rightarrow> Inr (print ds))"

section \<open>Properties\<close>

lemma sent_send: "sent (send code a r) = (case sent r of None \<Rightarrow> Some (code, a) | Some x \<Rightarrow> Some x)"
  by (simp add: send_def split: option.splits)

lemma effects_send [simp]: "effects (send code a r) = effects r"
  by (simp add: send_def split: option.splits)

lemma send_sent [simp]: "sent r = Some x \<Longrightarrow> send code a r = r"
  by (simp add: send_def)

lemma effects_finish [simp]: "effects (finish (r, x)) = effects r"
  by (simp add: finish_def split: sum.splits option.splits)

lemma sent_finish: "sent r = Some x \<Longrightarrow> sent (finish (r, y)) = Some x"
  by (simp add: finish_def split: sum.splits option.splits)

lemma effects_check [simp]: "effects (checkAuthToken env t r) = effects r"
  by (simp add: checkAuthToken_def split: option.splits)

lemma effect_simps [simp]: "effects (effect e r) = effects r @ [e]" "sent (effect e r) = sent r"
  by (simp_all add: effect_def)

text \<open>The check answers, but does not stop the handler: without a token the wallet's method runs and the
  upload happens, and only the answer is 401.\<close>

lemma unauthorised_wallet_call_runs:
  assumes "\<not> test_mode env" "ar_token rq = None" "ar_host rq = Some ''point''"
  shows "sent (wallet_handler env controller m rq) = Some (401, Plain ''Unauthorized'') \<and>
    effects (wallet_handler env controller m rq) = [WalletCall m]"
  using assms by (simp add: wallet_handler_def checkAuthToken_def Let_def sent_finish sent_send no_reply_def)

lemma unauthorised_upload_happens:
  assumes "\<not> test_mode env" "ar_token rq = None" "multipart rq"
  shows "sent (storage_post env se (Some buf) rq) = Some (401, Plain ''Unauthorized'') \<and>
    effects (storage_post env se (Some buf) rq) = [UploadFile buf]"
  using assms by (simp add: storage_post_def checkAuthToken_def Let_def sent_finish sent_send no_reply_def)

text \<open>A deployment asked for by any other host runs too, and is answered 403.\<close>

lemma foreign_deploy_runs:
  assumes "ar_host rq \<noteq> Some ''point''"
  shows "sent (deploy_handler out rq) = Some (403, Plain ''Forbidden'') \<and> effects (deploy_handler out rq) = [Deploy]"
  using assms by (simp add: deploy_handler_def Let_def sent_send no_reply_def)

text \<open>What the sanitiser leaves: the second of two scripts, and everything below the first level.\<close>

lemma adjacent_script_survives:
  "remove_scripts [Elem ''script'' [] [], Elem ''script'' [] [TextNode ''alert(1)'']] = [Elem ''script'' [] [TextNode ''alert(1)'']]"
  by simp

lemma nested_handler_survives:
  "sanitize_first_in [Elem ''svg'' [(''onload'', ''a'')] [Elem ''g'' [(''onclick'', ''b'')] [Elem ''script'' [] []]]] =
     Some [Elem ''svg'' [] [Elem ''g'' [(''onclick'', ''b'')] [Elem ''script'' [] []]]]"
  by simp

text \<open>C29: a stored file that answers a request directly is either sent as an attachment, or is an image or
  a video, or the request does not accept HTML, XML or everything; one of type SVG was sanitised.\<close>

theorem stored_file_not_inline:
  assumes "sent (storage_get se hash rq) = Some (200, Bytes body)" "ar_router_path rq = ''/_storage/:hash''"
  shows "\<exists>doc ct. get_file se hash = Inr doc \<and> rp_type (storage_get se hash rq) = Some ct \<and>
    (attachment (storage_get se hash rq) \<or> starts_with ''image'' ct \<or> starts_with ''video'' ct \<or>
       \<not> (includes_str ''text/html'' (accept_of rq) \<or> includes_str ''*/*'' (accept_of rq))) \<and>
    (is_svg se doc \<longrightarrow> ct = ''image/svg+xml'' \<and> sanitize_svg se doc = Inr body)"
proof -
  have r: "sent no_reply = None" by (simp add: no_reply_def)
  from assms(1) obtain doc where f: "get_file se hash = Inr doc"
    by (cases "get_file se hash") (auto simp: storage_get_def sent_send r)
  have nd: "\<not> isDirectoryJson doc"
    using assms(1) f by (auto simp: storage_get_def directory_page_def finish_def sent_send no_reply_def
        split: option.splits)
  show ?thesis
    using assms f nd
    by (auto simp: storage_get_def finish_def sent_send send_def no_reply_def setAsAttachment_def Let_def
        split: if_splits sum.splits)
qed

definition toy_storage :: storage_env where
  "toy_storage = \<lparr>upload_data = Inr, get_file = (\<lambda>h. Inr ''<b>''), detect_type = (\<lambda>f. ''text/html''),
     is_svg = (\<lambda>f. False), sanitize_svg = Inr\<rparr>"

definition toy_download :: api_request where
  "toy_download = \<lparr>ar_host = None, ar_token = None, ar_content_type = None, ar_accept = Some ''text/html'',
     ar_router_path = ''/_storage/:hash''\<rparr>"

lemma stored_file_not_inline_witness: "attachment (storage_get toy_storage ''h'' toy_download)"
proof -
  have s: "sent (storage_get toy_storage ''h'' toy_download) = Some (200, Bytes ''<b>'')"
    "rp_type (storage_get toy_storage ''h'' toy_download) = Some ''text/html''" by code_simp+
  have "ar_router_path toy_download = ''/_storage/:hash''" "includes_str ''text/html'' (accept_of toy_download)"
    by code_simp+
  with stored_file_not_inline [OF s(1)] s(2) show ?thesis by auto
qed

text \<open>Files decrypted for the user are never sent as attachments: the path tested for is that of plain
  storage.\<close>

lemma encrypted_never_attached:
  "ar_router_path rq = ''/_encryptedStorage/:hash'' \<Longrightarrow> \<not> setAsAttachment (ar_router_path rq) ct a"
  by (simp add: setAsAttachment_def starts_with_def)

end
