(* ===== verification/Deployer.thy ===== *)
theory Deployer
  imports Async KeyValue Cookies "HOL-Library.Sublist"
begin

text \<open>
  Deployment of sites: \<open>src/client/zweb/deployer/index.js\<close> and the progress of
  \<open>api/controllers/DeployController.js\<close>.  Storage, the Identity contract, the name
  services, hardhat and git are arguments; what a deployment does to them is recorded in
  the order in which it is done.  The version of a deployment is the promise that
  \<open>deploy\<close> passes on without waiting for it.
\<close>

section \<open>Versions\<close>

record version_parts =
  vp_major :: string
  vp_minor :: string
  vp_patch :: "string option"

definition digits :: "string \<Rightarrow> string \<times> string" where
  "digits s = (takeWhile is_digit s, dropWhile is_digit s)"

text \<open>\<open>/^\\d+\\.\\d+$/\<close>\<close>

definition isVersionFormated :: "string \<Rightarrow> bool" where
  "isVersionFormated v =
     (case split_ch CHR ''.'' v of
        [a, b] \<Rightarrow> a \<noteq> [] \<and> b \<noteq> [] \<and> list_all is_digit a \<and> list_all is_digit b | _ \<Rightarrow> False)"

text \<open>A version in the configuration: a string, or a number as JavaScript prints it.\<close>

datatype cfg_version = VersionText string | VersionNumber string

definition getBaseVersion :: "cfg_version \<Rightarrow> string result" where
  "getBaseVersion v =
     (let base = (case v of VersionText s \<Rightarrow> s
            | VersionNumber s \<Rightarrow> if CHR ''.'' \<in> set s then s else s @ ''.0'')
      in if isVersionFormated base then Inr base
         else Inl (PlainError (''Incorrect format of Version number '' @ base @ ''. Should be MAJOR.MINOR.'')))"

text \<open>The unanchored expressions: the leftmost place where digits, a dot and digits stand, with a
  third number or without one.\<close>

definition parts_here :: "bool \<Rightarrow> string \<Rightarrow> version_parts option" where
  "parts_here patch s =
     (let (a, r) = digits s in
      case r of
        c # r1 \<Rightarrow>
          if a = [] \<or> c \<noteq> CHR ''.'' then None
          else (let (b, r2) = digits r1 in
            if b = [] then None
            else if \<not> patch then Some \<lparr>vp_major = a, vp_minor = b, vp_patch = None\<rparr>
            else case r2 of
                   d # r3 \<Rightarrow> if d \<noteq> CHR ''.'' \<or> fst (digits r3) = [] then None
                     else Some \<lparr>vp_major = a, vp_minor = b, vp_patch = Some (fst (digits r3))\<rparr>
                 | [] \<Rightarrow> None)
      | [] \<Rightarrow> None)"

fun find_parts :: "bool \<Rightarrow> string \<Rightarrow> version_parts option" where
  "find_parts patch [] = None"
| "find_parts patch (c # s) =
     (case parts_here patch (c # s) of Some p \<Rightarrow> Some p | None \<Rightarrow> find_parts patch s)"

definition getVersionParts :: "string \<Rightarrow> version_parts result" where
  "getVersionParts v =
     (case find_parts True v of
        Some p \<Rightarrow> Inr p
      | None \<Rightarrow> (case find_parts False v of
          Some p \<Rightarrow> Inr p | None \<Rightarrow> Inl (PlainError ''Version in wrong format '')))"

text \<open>\<open>new Number(a) <= new Number(b)\<close> for decimals \<open>major.minor\<close>, compared exactly.\<close>

definition decimal_le :: "string \<times> string \<Rightarrow> string \<times> string \<Rightarrow> bool" where
  "decimal_le v w = (case (v, w) of ((a, b), (c, d)) \<Rightarrow>
     (dec_val a * 10 ^ length b + dec_val b) * 10 ^ length d \<le> (dec_val c * 10 ^ length d + dec_val d) * 10 ^ length b)"

definition base_parts :: "string \<Rightarrow> string \<times> string" where
  "base_parts v = (case split_ch CHR ''.'' v of [a, b] \<Rightarrow> (a, b) | _ \<Rightarrow> ([], []))"

definition isNewBaseVersionValid :: "string option \<Rightarrow> string \<Rightarrow> bool result" where
  "isNewBaseVersionValid oldVersion newBaseVersion =
     (case oldVersion of
        None \<Rightarrow> Inr True
      | Some old \<Rightarrow>
          if old = [] then Inr True
          else (case getVersionParts old of
                  Inl e \<Rightarrow> Inl e
                | Inr p \<Rightarrow> Inr (decimal_le (vp_major p, vp_minor p) (base_parts newBaseVersion))))"

definition getNewPatchedVersion :: "string option \<Rightarrow> string \<Rightarrow> string result" where
  "getNewPatchedVersion oldVersion newBaseVersion =
     (case oldVersion of
        None \<Rightarrow> Inr (newBaseVersion @ ''.0'')
      | Some old \<Rightarrow>
          if old = [] then Inr (newBaseVersion @ ''.0'')
          else (case getVersionParts old of
                  Inl e \<Rightarrow> Inl e
                | Inr p \<Rightarrow>
                    if vp_major p @ ''.'' @ vp_minor p = newBaseVersion
                    then Inr (newBaseVersion @ ''.'' @ (case vp_patch p of
                           Some n \<Rightarrow> show_nat (dec_val n + 1) | None \<Rightarrow> ''NaN''))
                    else Inr (newBaseVersion @ ''.0'')))"

definition getVersion ::
  "(string \<Rightarrow> string \<Rightarrow> string option result) \<Rightarrow> cfg_version \<Rightarrow> string \<Rightarrow> bool \<Rightarrow> bool \<Rightarrow> string option result" where
  "getVersion ikVersion cfgVersion identity point aliased =
     (if \<not> point \<and> \<not> aliased then Inr None
      else case getBaseVersion cfgVersion of
             Inl e \<Rightarrow> Inl e
           | Inr base \<Rightarrow>
               (case ikVersion identity ''::rootDir'' of
                  Inl e \<Rightarrow> Inl e
                | Inr lst \<Rightarrow>
                    (case isNewBaseVersionValid lst base of
                       Inl e \<Rightarrow> Inl e
                     | Inr True \<Rightarrow> map_sum id Some (getNewPatchedVersion lst base)
                     | Inr False \<Rightarrow> Inl (PlainError (CHR 0x27 # ''Base version '' @ base @
                         '' should be greater or equal to MAJOR.MINOR of lastVersion '' @ or_empty lst @ ''.'' @ [CHR 0x27])))))"

section \<open>The target of a deployment\<close>

text \<open>A contract in the configuration: its name, or an object with the flags.\<close>

datatype contract_cfg = OldFormat string | NewFormat string bool bool

record ide_cfg =
  ide_name :: string
  ide_projectDir :: string
  ide_addresses :: "(string, string) obj"

record deploy_config =
  dc_version :: cfg_version
  dc_target :: string
  dc_alias :: "string option"
  dc_keyvalue :: json
  dc_contracts :: "contract_cfg list"
  dc_upgradable :: bool
  dc_ide :: "ide_cfg option"
  dc_rootDir :: "string option"
  dc_sdk :: "string option"
  dc_node :: "string option"

record deploy_target =
  dt_target :: string
  dt_point :: bool
  dt_identity :: string
  dt_alias :: bool

definition getTargetAndIdentity :: "deploy_config \<Rightarrow> bool \<Rightarrow> bool \<Rightarrow> deploy_target result" where
  "getTargetAndIdentity cfg contracts dev =
     (if ends_with ''.sol'' (dc_target cfg) \<or> ends_with ''.eth'' (dc_target cfg) then
        (if dev then Inl (PlainError ([CHR 0x22] @ ''dev'' @ [CHR 0x22] @ '' deployments are only supported for .point domains at the moment (trying to deploy '' @ dc_target cfg @ '')''))
         else if or_empty (dc_alias cfg) = [] \<and> contracts
         then Inl (PlainError (''Contracts is an advanced Point functionality only supported by .point domains at the moment. You need to specify a Point identity in the '' @
           [CHR 0x22] @ ''alias'' @ [CHR 0x22] @ '' key in your deployment config''))
         else Inr \<lparr>dt_target = to_lower (dc_target cfg), dt_point = False,
                dt_identity = (if or_empty (dc_alias cfg) \<noteq> []
                               then replace_suffix ''.point'' [] (or_empty (dc_alias cfg)) else dc_target cfg),
                dt_alias = (or_empty (dc_alias cfg) \<noteq> [])\<rparr>)
      else
        (let target = (if dev then replace_suffix ''.point'' ''dev'' (dc_target cfg) @ ''.point'' else dc_target cfg)
         in Inr \<lparr>dt_target = to_lower target, dt_point = True,
              dt_identity = replace_suffix ''.point'' [] target, dt_alias = False\<rparr>))"

section \<open>What a deployment does\<close>

text \<open>The version reaches the contract as the promise that was created for it.\<close>

datatype version_arg = PromiseOf "string option result"

datatype deploy_event =
    Uploaded string
  | UploadedDir string
  | PutKey string string "string option" version_arg
  | SentTo string string string "json option list"
  | Registered string string string
  | DomainContent string string string
  | FsRemoved string
  | Symlinked string string
  | HreCompiled
  | Unlinked string
  | Wrote string string
  | ProxyDeployed string "string list"
  | ProxyUpgraded string string
  | ForceImported string string
  | ContractDeployed string
  | EmptiedDir string

type_synonym history = "deploy_event list"
type_synonym 'a deploying = "(history, 'a) act"

text \<open>What the outside world answers, given what was done before.\<close>

record deploy_env =
  e_mode :: string
  e_datadir :: string
  e_uploadData :: "history \<Rightarrow> string \<Rightarrow> string result"
  e_uploadDir :: "history \<Rightarrow> string \<Rightarrow> string result"
  e_dirStatus :: "history \<Rightarrow> string \<Rightarrow> string result"
  e_put :: "history \<Rightarrow> deploy_event \<Rightarrow> unit result"
  e_getKey :: "history \<Rightarrow> string \<Rightarrow> string \<Rightarrow> string option result"
  e_getFile :: "history \<Rightarrow> string \<Rightarrow> string result"
  e_owner :: string
  e_signer :: "string result"
  e_publicKey :: string
  e_ownerByIdentity :: "string \<Rightarrow> string option result"
  e_isDeployer :: "string \<Rightarrow> string \<Rightarrow> bool result"
  e_ikVersion :: "string \<Rightarrow> string \<Rightarrow> string option result"
  e_solAccount :: "string result"
  e_solDomain :: "string \<Rightarrow> (string option \<times> json) result"
  e_ethAccounts :: "json result"
  e_ensDomain :: "string \<Rightarrow> (json \<times> json) result"
  e_exists :: "history \<Rightarrow> string \<Rightarrow> bool"
  e_readFile :: "history \<Rightarrow> string \<Rightarrow> string result"
  e_exec :: "string \<Rightarrow> string option"
  e_metadataPath :: "string \<Rightarrow> string result"
  e_identityContract :: string
  e_deployProxy :: "history \<Rightarrow> string \<Rightarrow> string list \<Rightarrow> string result"
  e_upgradeProxy :: "history \<Rightarrow> string \<Rightarrow> string \<Rightarrow> string result"
  e_artifact :: "string \<Rightarrow> json result"
  e_compile :: "string \<Rightarrow> json result"
  e_deployContract :: "history \<Rightarrow> string \<Rightarrow> json \<Rightarrow> string result"

text \<open>A call that fails, or whose effect is recorded; and a call without an effect.\<close>

definition doing :: "(history \<Rightarrow> 'a result) \<Rightarrow> deploy_event \<Rightarrow> 'a deploying" where
  "doing r ev h = (case r h of Inl e \<Rightarrow> (h, Throw e) | Inr x \<Rightarrow> (h @ [ev], Ret x))"

definition asking :: "(history \<Rightarrow> 'a result) \<Rightarrow> 'a deploying" where
  "asking r h = liftR (r h) h"

definition put :: "deploy_env \<Rightarrow> deploy_event \<Rightarrow> unit deploying" where
  "put E ev = doing (\<lambda>h. e_put E h ev) ev"

definition upload :: "deploy_env \<Rightarrow> string \<Rightarrow> string deploying" where
  "upload E d = doing (\<lambda>h. e_uploadData E h d) (Uploaded d)"

definition put_key :: "deploy_env \<Rightarrow> string \<Rightarrow> string \<Rightarrow> string option \<Rightarrow> version_arg \<Rightarrow> unit deploying" where
  "put_key E host k v ver = put E (PutKey (strip_point host) k v ver)"

section \<open>Values of the configuration\<close>

text \<open>\<open>String(value)\<close>; inside an array \<open>null\<close> prints as nothing.\<close>

fun js_string :: "json \<Rightarrow> string" where
  "js_string JNull = ''null''"
| "js_string (JBool b) = (if b then ''true'' else ''false'')"
| "js_string (JNum i) = show_int i"
| "js_string (JStr s) = s"
| "js_string (JArr xs) = join_ch '','' (map (\<lambda>x. if x = JNull then [] else js_string x) xs)"
| "js_string (JObj m) = ''[object Object]''"

text \<open>The key inside the last \<open>storage[...]\<close> of a key of that form.\<close>

fun last_storage :: "string \<Rightarrow> string option" where
  "last_storage [] = None"
| "last_storage (c # s) =
     (case last_storage s of
        Some k \<Rightarrow> Some k
      | None \<Rightarrow>
          (let inner = takeWhile (\<lambda>d. d \<noteq> CHR '']'') (drop 8 (c # s)) in
           if starts_with ''storage['' (c # s) \<and> inner \<noteq> [] \<and> CHR '']'' \<in> set (drop 8 (c # s))
           then Some inner else None))"

definition storage_key :: "string \<Rightarrow> string option" where
  "storage_key key =
     (if starts_with ''storage['' key \<and> ends_with '']'' key \<and> 9 < length key
         \<and> CHR '']'' \<notin> set (butlast key)
      then last_storage key else None)"

text \<open>\<open>value.file.replace(/.*\\.([a-zA-Z0-9]+)$/, '$1')\<close>\<close>

definition alnum_char :: "char \<Rightarrow> bool" where
  "alnum_char c = (let n = of_char c :: nat in
     is_digit c \<or> (65 \<le> n \<and> n \<le> 90) \<or> (97 \<le> n \<and> n \<le> 122))"

definition file_ext :: "string \<Rightarrow> string" where
  "file_ext f =
     (let e = last (split_ch CHR ''.'' f)
      in if CHR ''.'' \<in> set f \<and> e \<noteq> [] \<and> list_all alnum_char e then e else f)"

definition store_resource :: "deploy_env \<Rightarrow> string \<Rightarrow> json \<Rightarrow> json deploying" where
  "store_resource E deployPath value =
     (case value of
        JObj m \<Rightarrow>
          (case obj_get m ''blob'' of
             Some b \<Rightarrow> await (upload E (js_string b)) (\<lambda>uploaded. retA (JStr uploaded))
           | None \<Rightarrow>
               (case obj_get m ''file'' of
                  Some (JStr f) \<Rightarrow>
                    (let filePath = path_join (path_join deployPath ''public'') f in
                     await (asking (\<lambda>h. Inr (e_exists E h filePath))) (\<lambda>ex.
                     if \<not> ex then throwA (PlainError (''File not found: '' @ filePath))
                     else await (asking (\<lambda>h. e_readFile E h filePath)) (\<lambda>content.
                       await (upload E content) (\<lambda>cid.
                       retA (JStr (''/_storage/'' @ cid @ ''.'' @ file_ext f))))))
                | Some _ \<Rightarrow> throwA TypeError
                | None \<Rightarrow> throwA (PlainError (''Storage resource not specified: '' @ jprint value))))
      | JArr xs \<Rightarrow> throwA (PlainError (''Storage resource not specified: '' @ jprint value))
      | _ \<Rightarrow> throwA TypeError)"

text \<open>An array is an object too, so it is replaced by an object of its elements.\<close>

fun replace_value :: "deploy_env \<Rightarrow> string \<Rightarrow> json \<Rightarrow> json deploying"
  and replaceContentsWithCids ::
    "deploy_env \<Rightarrow> string \<Rightarrow> (string \<times> json) list \<Rightarrow> (string, json) obj \<Rightarrow> (string, json) obj deploying"
  and replace_elements ::
    "deploy_env \<Rightarrow> string \<Rightarrow> nat \<Rightarrow> json list \<Rightarrow> (string, json) obj \<Rightarrow> (string, json) obj deploying" where
  "replace_value E d (JObj m) = await (replaceContentsWithCids E d m []) (\<lambda>r. retA (JObj r))"
| "replace_value E d (JArr xs) = await (replace_elements E d 0 xs []) (\<lambda>r. retA (JObj r))"
| "replace_value E d JNull = retA JNull"
| "replace_value E d (JBool b) = retA (JBool b)"
| "replace_value E d (JNum i) = retA (JNum i)"
| "replace_value E d (JStr s) = retA (JStr s)"
| "replaceContentsWithCids E d [] result = retA result"
| "replaceContentsWithCids E d ((key, value) # es) result =
     (case storage_key key of
        Some k \<Rightarrow> await (store_resource E d value) (\<lambda>v. replaceContentsWithCids E d es (obj_set k v result))
      | None \<Rightarrow> await (replace_value E d value) (\<lambda>v. replaceContentsWithCids E d es (obj_set key v result)))"
| "replace_elements E d i [] result = retA result"
| "replace_elements E d i (x # xs) result =
     await (replace_value E d x) (\<lambda>v. replace_elements E d (Suc i) xs (obj_set (show_nat i) v result))"

definition or_null :: "json option \<Rightarrow> json" where
  "or_null j = (case j of Some v \<Rightarrow> v | None \<Rightarrow> JNull)"

text \<open>\<open>Contract.method(a,b)\<close>: the contract, the method and the names of the arguments.\<close>

definition parse_contract_send :: "json \<Rightarrow> (string \<times> string \<times> string list) result" where
  "parse_contract_send j =
     (case j of
        JStr s \<Rightarrow>
          (case split_ch CHR ''.'' s of
             contract # rest # _ \<Rightarrow>
               (case split_ch CHR ''('' rest of
                  method # params # _ \<Rightarrow>
                    Inr (contract, method, split_ch CHR '','' (replace_first '')'' [] params))
                | _ \<Rightarrow> Inl TypeError)
           | _ \<Rightarrow> Inl TypeError)
      | _ \<Rightarrow> Inl TypeError)"

definition truthy_value :: "json option \<Rightarrow> bool" where
  "truthy_value v = (case v of
     None \<Rightarrow> False | Some JNull \<Rightarrow> False | Some (JBool b) \<Rightarrow> b | Some (JNum i) \<Rightarrow> i \<noteq> 0
   | Some (JStr s) \<Rightarrow> s \<noteq> [] | Some _ \<Rightarrow> True)"

text \<open>The metadata are uploaded as they are and then extended by their own hash.\<close>

definition run_contract_send ::
  "deploy_env \<Rightarrow> string \<Rightarrow> (string, json) obj \<Rightarrow> (string, json) obj deploying" where
  "run_contract_send E target value =
     await (liftR (parse_contract_send (or_null (obj_get value ''contract_send'')))) (\<lambda>(contract, method, names).
       if truthy_value (obj_get value ''metadata'') then
         await (upload E (jprint (or_null (obj_get value ''metadata'')))) (\<lambda>hash.
           (case obj_get value ''metadata'' of
              Some (JObj m) \<Rightarrow>
                (let m' = obj_set ''metadataHash'' (JStr hash) m in
                 await (put E (SentTo target contract method (map (obj_get m') names))) (\<lambda>_.
                   retA (obj_set ''metadata'' (JObj m') value)))
            | _ \<Rightarrow> throwA TypeError))
       else await (put E (SentTo target contract method (map (obj_get value) names))) (\<lambda>_. retA value))"

definition put_value ::
  "deploy_env \<Rightarrow> string \<Rightarrow> bool \<Rightarrow> version_arg \<Rightarrow> string \<times> json \<Rightarrow> unit deploying" where
  "put_value E target contracts ver entry =
     (case entry of (key, value) \<Rightarrow>
        (case value of
           JObj m \<Rightarrow>
             await (if obj_get m ''contract_send'' \<noteq> None \<and> contracts
                    then run_contract_send E target m else retA m) (\<lambda>m'.
               put_key E target key (Some (jprint (JObj m'))) ver)
         | JArr xs \<Rightarrow> put_key E target key (Some (jprint (JArr xs))) ver
         | _ \<Rightarrow> put_key E target key (Some (js_string value)) ver))"

fun put_values ::
  "deploy_env \<Rightarrow> string \<Rightarrow> bool \<Rightarrow> version_arg \<Rightarrow> (string \<times> json) list \<Rightarrow> unit deploying" where
  "put_values E target contracts ver [] = retA ()"
| "put_values E target contracts ver (e # es) =
     await (put_value E target contracts ver e) (\<lambda>_. put_values E target contracts ver es)"

definition updateKeyValue ::
  "deploy_env \<Rightarrow> string \<Rightarrow> (string \<times> json) list \<Rightarrow> string \<Rightarrow> bool \<Rightarrow> version_arg \<Rightarrow> unit deploying" where
  "updateKeyValue E target values deployPath contracts ver =
     await (replaceContentsWithCids E deployPath values []) (put_values E target contracts ver)"

section \<open>Other records of a deployment\<close>

definition storeContractArtifacts ::
  "deploy_env \<Rightarrow> json option \<Rightarrow> string \<Rightarrow> version_arg \<Rightarrow> string option \<Rightarrow> string \<Rightarrow> string deploying" where
  "storeContractArtifacts E artifacts contractName ver address target =
     (case artifacts of
        None \<Rightarrow> throwA TypeError
      | Some a \<Rightarrow>
          await (upload E (jprint a)) (\<lambda>artifactsStorageId.
          await (put_key E target (''zweb/contracts/address/'' @ contractName) address ver) (\<lambda>_.
          await (put_key E target (''zweb/contracts/abi/'' @ contractName) (Some artifactsStorageId) ver) (\<lambda>_.
            retA artifactsStorageId))))"

definition updateZDNS :: "deploy_env \<Rightarrow> string \<Rightarrow> string \<Rightarrow> version_arg \<Rightarrow> unit deploying" where
  "updateZDNS E host i ver = put_key E (strip_point host) ZDNS_ROUTES_KEY (Some (''0x'' @ i)) ver"

definition PROXY_METADATA_KEY :: string where
  "PROXY_METADATA_KEY = ''zweb/contracts/proxy/metadata''"

definition COMMIT_SHA_KEY :: string where
  "COMMIT_SHA_KEY = ''zweb/git/commit/sha''"

definition POINT_SDK_VERSION :: string where
  "POINT_SDK_VERSION = ''zweb/point/sdk/version''"

definition POINT_NODE_VERSION :: string where
  "POINT_NODE_VERSION = ''zweb/point/node/version''"

definition updateProxyMetadata :: "deploy_env \<Rightarrow> string \<Rightarrow> string \<Rightarrow> version_arg \<Rightarrow> unit deploying" where
  "updateProxyMetadata E host i ver = put_key E (strip_point host) PROXY_METADATA_KEY (Some i) ver"

definition updateCommitSha :: "deploy_env \<Rightarrow> string \<Rightarrow> string \<Rightarrow> version_arg \<Rightarrow> unit deploying" where
  "updateCommitSha E host deployPath ver =
     (case or_empty (e_exec E (''cd '' @ deployPath @ '' && git rev-parse HEAD'')) of
        [] \<Rightarrow> retA ()
      | lastCommitSha \<Rightarrow> put_key E (strip_point host) COMMIT_SHA_KEY (Some lastCommitSha) ver)"

definition updatePointVersionTag ::
  "deploy_env \<Rightarrow> string \<Rightarrow> string \<Rightarrow> string \<Rightarrow> version_arg \<Rightarrow> unit deploying" where
  "updatePointVersionTag E host key value ver = put_key E (strip_point host) key (Some value) ver"

section \<open>Uploads and owners\<close>

definition uploadRootDir :: "deploy_env \<Rightarrow> string \<Rightarrow> string option \<Rightarrow> string deploying" where
  "uploadRootDir E deployPath rootDir =
     (let dir = path_join deployPath (case rootDir of Some d \<Rightarrow> d | None \<Rightarrow> ''public'') in
      await (doing (\<lambda>h. e_uploadDir E h dir) (UploadedDir dir)) (\<lambda>publicDirId.
      await (asking (\<lambda>h. e_dirStatus E h publicDirId)) (\<lambda>status.
        if status \<noteq> ''COMPLETED'' then throwA (PlainError (''Root dir upload status: '' @ status))
        else retA publicDirId)))"

definition uploadRoutes :: "deploy_env \<Rightarrow> string \<Rightarrow> string deploying" where
  "uploadRoutes E deployPath =
     await (asking (\<lambda>h. e_readFile E h (path_join deployPath ''routes.json''))) (\<lambda>routesFile.
       case jparse routesFile of
         None \<Rightarrow> throwA (PlainError ''SyntaxError'')
       | Some routes \<Rightarrow> upload E (jprint routes))"

definition ensureIsDeployerOrFail :: "deploy_env \<Rightarrow> string \<Rightarrow> string \<Rightarrow> unit deploying" where
  "ensureIsDeployerOrFail E identity owner =
     await (liftR (e_isDeployer E identity owner)) (\<lambda>ok.
       if ok then retA ()
       else throwA (PlainError (''The address '' @ owner @ '' is not allowed to deploy on '' @ identity @ '' identity'')))"

definition registerNewIdentity :: "deploy_env \<Rightarrow> string \<Rightarrow> string \<Rightarrow> unit deploying" where
  "registerNewIdentity E identity owner = put E (Registered identity owner (hex_decode (e_publicKey E)))"

definition getNameService :: "string \<Rightarrow> string" where
  "getNameService domain = (if ends_with ''.sol'' domain then ''SNS'' else ''ENS'')"

definition not_owned :: "string \<Rightarrow> string \<Rightarrow> string \<Rightarrow> string \<Rightarrow> exn" where
  "not_owned target owner address coin = PlainError
     ([CHR 0x22] @ target @ [CHR 0x22] @ '' is owned by '' @ owner @
      '', you need to transfer it to your Point Wallet ('' @ address @
      ''). Also, please make sure you have some '' @ coin @
      '' in your Point Wallet to cover transaction fees.'')"

definition ensureIsDomainOwner :: "deploy_env \<Rightarrow> string \<Rightarrow> json deploying" where
  "ensureIsDomainOwner E target =
     (if getNameService target = ''SNS'' then
        await (liftR (e_solAccount E)) (\<lambda>solanaAddress.
        await (liftR (e_solDomain E target)) (\<lambda>(domainOwner, content).
          if Some solanaAddress \<noteq> domainOwner
          then throwA (not_owned target (case domainOwner of Some d \<Rightarrow> d | None \<Rightarrow> ''undefined'') solanaAddress ''SOL'')
          else retA content))
      else
        await (liftR (e_ethAccounts E)) (\<lambda>result.
        case result of
          JArr (JStr a # _) \<Rightarrow>
            if a = [] then throwA (PlainError ''Could not find any ethereum addresses.'')
            else await (liftR (e_ensDomain E target)) (\<lambda>(owner, content).
              (case owner of
                 JStr d \<Rightarrow> if a \<noteq> to_lower d then throwA (not_owned target (to_lower d) a ''ETH'') else retA content
               | _ \<Rightarrow> throwA (not_owned target ''false'' a ''ETH'')))
        | _ \<Rightarrow> throwA (PlainError ''Could not find any ethereum addresses.'')))"

definition editDomainRegistry ::
  "deploy_env \<Rightarrow> string \<Rightarrow> (string, string) obj \<Rightarrow> string \<Rightarrow> unit deploying" where
  "editDomainRegistry E domain data preExistingData =
     (if getNameService domain = ''SNS''
      then put E (DomainContent ''SNS'' domain (encodeCookieString (mergeAndResolveConflicts preExistingData data)))
      else put E (DomainContent ''ENS'' domain (encodeCookieString data)))"

section \<open>Contracts\<close>

definition contract_name :: "contract_cfg \<Rightarrow> string" where
  "contract_name c = (case c of OldFormat n \<Rightarrow> n | NewFormat n _ _ \<Rightarrow> n)"

text \<open>\<open>contractMap\<close>: for a name, the flags \<open>upgradable\<close> and \<open>exclude\<close> of its last entry.\<close>

definition contractMap :: "deploy_config \<Rightarrow> (string, bool \<times> bool) obj" where
  "contractMap cfg = fold (\<lambda>c. obj_set (contract_name c)
     (case c of OldFormat _ \<Rightarrow> (dc_upgradable cfg, False) | NewFormat _ u x \<Rightarrow> (u, x))) (dc_contracts cfg) []"

text \<open>Before upgradable contracts hardhat compiles the sources behind two symbolic links.\<close>

definition prepare_hardhat :: "deploy_env \<Rightarrow> string \<Rightarrow> string deploying" where
  "prepare_hardhat E deployPath =
     await (liftR (e_metadataPath E deployPath)) (\<lambda>metadataPath.
     let modules = path_join (e_datadir E) ''hardhat/node_modules'';
         sources = path_join (e_datadir E) ''hardhat/contracts'';
         remove_old = (\<lambda>p. await (asking (\<lambda>h. Inr (e_exists E h p)))
           (\<lambda>ex. if ex then put E (FsRemoved p) else retA ()))
     in await (remove_old modules) (\<lambda>_.
        await (remove_old sources) (\<lambda>_.
        await (put E (Symlinked (path_join deployPath ''node_modules'') modules)) (\<lambda>_.
        await (put E (Symlinked (path_join deployPath ''contracts'') sources)) (\<lambda>_.
        await (put E HreCompiled) (\<lambda>_.
        await (put E (Unlinked modules)) (\<lambda>_.
        await (put E (Unlinked sources)) (\<lambda>_. retA metadataPath))))))))"

text \<open>Contracts built by truffle or hardhat: the build file, if it exists, and the given address.\<close>

definition abi_path :: "ide_cfg \<Rightarrow> string \<Rightarrow> string \<Rightarrow> string" where
  "abi_path ide deployPath name =
     (if ide_name ide = ''truffle''
      then path_join (path_join (path_join deployPath (ide_projectDir ide)) ''build/contracts'') (name @ ''.json'')
      else if ide_name ide = ''hardhat''
      then path_join (path_join (path_join deployPath (ide_projectDir ide)) ''build/contracts'') (name @ ''.sol/'' @ name @ ''.json'')
      else [])"

definition ide_contract ::
  "deploy_env \<Rightarrow> ide_cfg \<Rightarrow> string \<Rightarrow> string \<Rightarrow> (string option \<times> json option) deploying" where
  "ide_contract E ide deployPath name =
     (let abiPath = abi_path ide deployPath name in
      await (asking (\<lambda>h. Inr (abiPath \<noteq> [] \<and> e_exists E h abiPath))) (\<lambda>ex.
      await (if \<not> ex then retA None
             else await (asking (\<lambda>h. e_readFile E h abiPath)) (\<lambda>abiFile.
               case jparse abiFile of None \<Rightarrow> throwA (PlainError ''SyntaxError'') | Some a \<Rightarrow> retA (Some a)))
        (\<lambda>artifacts. retA (obj_get (ide_addresses ide) name, artifacts))))"

text \<open>An upgradable contract: a new proxy bound to the identity, or without arguments where that
  fails; or the old proxy upgraded, after a new import of it where that fails.\<close>

definition upgradable_contract ::
  "deploy_env \<Rightarrow> string \<Rightarrow> string \<Rightarrow> string \<Rightarrow> bool \<Rightarrow> (string option \<times> json option) deploying" where
  "upgradable_contract E metadataPath target name force =
     await (asking (\<lambda>h. e_getKey E h target (''zweb/contracts/address/'' @ name))) (\<lambda>proxyAddress.
     await (asking (\<lambda>h. e_getKey E h target PROXY_METADATA_KEY)) (\<lambda>description.
     let new_proxy = (\<lambda>args. doing (\<lambda>h. e_deployProxy E h name args) (ProxyDeployed name args));
         upgrade = (\<lambda>a. doing (\<lambda>h. e_upgradeProxy E h a name) (ProxyUpgraded a name))
     in await
       (if \<not> truthy proxyAddress \<or> \<not> truthy description \<or> force
        then catchA (new_proxy [e_identityContract E, strip_point target]) (\<lambda>_. new_proxy [])
        else await (asking (\<lambda>h. e_getFile E h (or_empty description))) (\<lambda>metadata.
             await (put E (Wrote metadataPath metadata)) (\<lambda>_.
               catchA (upgrade (or_empty proxyAddress)) (\<lambda>_.
                 await (put E (FsRemoved metadataPath)) (\<lambda>_.
                 await (put E (ForceImported (or_empty proxyAddress) name)) (\<lambda>_.
                   upgrade (or_empty proxyAddress)))))))
       (\<lambda>address.
        await (liftR (e_artifact E name)) (\<lambda>artifacts. retA (Some address, Some artifacts)))))"

text \<open>\<open>compileContract\<close>: errors that are not warnings stop it; the artifacts are those of the file
  that is named like the contract.\<close>

definition compile_errors :: "json \<Rightarrow> json list" where
  "compile_errors sources = filter (\<lambda>e. jstr (jget ''severity'' e) \<noteq> Some ''warning'')
     (case jarr (jget ''errors'' sources) of Some es \<Rightarrow> es | None \<Rightarrow> [])"

definition file_base :: "string \<Rightarrow> string" where
  "file_base p = last (split_ch CHR ''/'' (last (split_ch (CHR 0x5C) p)))"

definition artifacts_of :: "string \<Rightarrow> json \<Rightarrow> json option" where
  "artifacts_of name sources = fold (\<lambda>(f, cs) a.
       if replace_suffix ''.sol'' [] (file_base f) = name then jget name cs else a)
     (case jget ''contracts'' sources of Some (JObj fs) \<Rightarrow> fs | _ \<Rightarrow> []) None"

definition compile_banner :: string where
  "compile_banner = ''>>>>>>>>>>>>>>>>>>>>>>>> SOLIDITY COMPILATION ERRORS <<<<<<<<<<<<<<<<<<<<<<<<'' @ [CHR 0x0A]"

definition compileContract :: "deploy_env \<Rightarrow> string \<Rightarrow> json result" where
  "compileContract E name =
     (case e_compile E name of
        Inl e \<Rightarrow> Inl e
      | Inr sources \<Rightarrow>
          if \<not> truthy_value (Some sources) then Inl (PlainError (compile_banner @ ''NO OUTPUT''))
          else if compile_errors sources \<noteq> [] then
            Inl (PlainError (compile_banner @ concat (map (\<lambda>e.
              (case jget ''formattedMessage'' e of Some m \<Rightarrow> js_string m | None \<Rightarrow> ''undefined'') @ [CHR 0x0A])
              (compile_errors sources))))
          else (case artifacts_of name sources of None \<Rightarrow> Inl TypeError | Some a \<Rightarrow> Inr a))"

definition plain_contract :: "deploy_env \<Rightarrow> string \<Rightarrow> (string option \<times> json option) deploying" where
  "plain_contract E name =
     await (liftR (compileContract E name)) (\<lambda>artifacts.
     await (doing (\<lambda>h. e_deployContract E h name artifacts) (ContractDeployed name)) (\<lambda>address.
       retA (Some address, Some artifacts)))"

definition deploy_contract ::
  "deploy_env \<Rightarrow> deploy_config \<Rightarrow> string \<Rightarrow> string \<Rightarrow> version_arg \<Rightarrow> string \<Rightarrow> bool \<Rightarrow> string \<Rightarrow> unit deploying" where
  "deploy_contract E cfg metadataPath deployPath ver target force name =
     (case obj_get (contractMap cfg) name of
        Some (upgradable, exclude) \<Rightarrow>
          if exclude then retA ()
          else await
            (case dc_ide cfg of
               Some ide \<Rightarrow> ide_contract E ide deployPath name
             | None \<Rightarrow>
                 if dc_upgradable cfg \<and> upgradable
                 then upgradable_contract E metadataPath target name force
                 else plain_contract E name)
            (\<lambda>(address, artifacts). await (storeContractArtifacts E artifacts name ver address target) (\<lambda>_. retA ()))
      | None \<Rightarrow> throwA TypeError)"

fun deploy_each :: "(string \<Rightarrow> unit deploying) \<Rightarrow> string list \<Rightarrow> unit deploying" where
  "deploy_each f [] = retA ()"
| "deploy_each f (n # ns) = await (f n) (\<lambda>_. deploy_each f ns)"

text \<open>With upgradable contracts the metadata of the proxies are stored at the end.\<close>

definition store_proxy_metadata :: "deploy_env \<Rightarrow> string \<Rightarrow> string \<Rightarrow> version_arg \<Rightarrow> unit deploying" where
  "store_proxy_metadata E metadataPath target ver =
     await (asking (\<lambda>h. e_readFile E h metadataPath)) (\<lambda>metadataFile.
       case jparse metadataFile of
         None \<Rightarrow> throwA (PlainError ''SyntaxError'')
       | Some metadata \<Rightarrow>
           await (upload E (jprint metadata)) (\<lambda>i.
           await (updateProxyMetadata E target i ver) (\<lambda>_.
           await (put E (EmptiedDir (path_join (e_datadir E) ''hardhat/build''))) (\<lambda>_.
           await (put E (EmptiedDir (path_join (e_datadir E) ''hardhat/cache''))) (\<lambda>_.
           put E (EmptiedDir (path_join (e_datadir E) ''.openzeppelin'')))))))"

definition deployContracts ::
  "deploy_env \<Rightarrow> deploy_config \<Rightarrow> string \<Rightarrow> version_arg \<Rightarrow> string \<Rightarrow> bool \<Rightarrow> unit deploying" where
  "deployContracts E cfg deployPath ver target force =
     await (if dc_upgradable cfg then prepare_hardhat E deployPath else retA []) (\<lambda>metadataPath.
     await (deploy_each (deploy_contract E cfg metadataPath deployPath ver target force)
              (map contract_name (dc_contracts cfg))) (\<lambda>_.
       if dc_upgradable cfg then store_proxy_metadata E metadataPath target ver else retA ()))"

section \<open>Deployment\<close>

definition ZERO_ADDRESS :: string where
  "ZERO_ADDRESS = ''0x0000000000000000000000000000000000000000''"

text \<open>Who may deploy to an identity of Point.\<close>

definition authorize_point :: "deploy_env \<Rightarrow> string \<Rightarrow> unit deploying" where
  "authorize_point E identity =
     await (liftR (e_signer E)) (\<lambda>sigAddr.
     if e_owner E \<noteq> sigAddr
     then throwA (PlainError (''Invalid config, aborting. The wallet address '' @ e_owner E @
            '' is different than ethers default signer '' @ sigAddr @ ''.''))
     else await (liftR (e_ownerByIdentity E identity)) (\<lambda>registeredOwner.
       if truthy registeredOwner \<and> registeredOwner \<noteq> Some ZERO_ADDRESS
       then ensureIsDeployerOrFail E identity (e_owner E)
       else if e_mode E = ''zappdev'' then registerNewIdentity E identity (e_owner E)
       else throwA (PlainError (''You must register '' @ identity @ '' before you can make a deployment. Start Point, head over to https://point in Point Browser, register '' @ identity @ '' and then retry the deploy command.''))))"

text \<open>The content of the domain's record before, which later records keep.\<close>

definition authorize :: "deploy_env \<Rightarrow> deploy_target \<Rightarrow> string deploying" where
  "authorize E t =
     (if dt_point t then await (authorize_point E (dt_identity t)) (\<lambda>_. retA [])
      else await (ensureIsDomainOwner E (dt_target t)) (\<lambda>content.
        retA (case content of JStr c \<Rightarrow> if trim c \<noteq> [] then c else [] | _ \<Rightarrow> [])))"

text \<open>\<open>Object.entries\<close> of the configured values.\<close>

definition object_entries :: "json \<Rightarrow> (string \<times> json) list result" where
  "object_entries j = (case j of
     JNull \<Rightarrow> Inl TypeError | JObj m \<Rightarrow> Inr m | JArr xs \<Rightarrow> Inr (index_entries 0 xs)
   | JStr s \<Rightarrow> Inr (index_entries 0 (map (\<lambda>c. JStr [c]) s)) | _ \<Rightarrow> Inr [])"

definition publish_records ::
  "deploy_env \<Rightarrow> deploy_config \<Rightarrow> string \<Rightarrow> bool \<Rightarrow> version_arg \<Rightarrow> string \<Rightarrow> unit deploying" where
  "publish_records E cfg deployPath contracts ver pointIdentity =
     await (liftR (object_entries (dc_keyvalue cfg))) (\<lambda>values.
     await (updateKeyValue E pointIdentity values deployPath contracts ver) (\<lambda>_.
     await (updateCommitSha E pointIdentity deployPath ver) (\<lambda>_.
     await (case dc_sdk cfg of Some v \<Rightarrow> updatePointVersionTag E pointIdentity POINT_SDK_VERSION v ver | None \<Rightarrow> retA ()) (\<lambda>_.
     (case dc_node cfg of Some v \<Rightarrow> updatePointVersionTag E pointIdentity POINT_NODE_VERSION v ver | None \<Rightarrow> retA ())))))"

definition publish ::
  "deploy_env \<Rightarrow> deploy_config \<Rightarrow> string \<Rightarrow> bool \<Rightarrow> bool \<Rightarrow> version_arg \<Rightarrow> string \<Rightarrow> string \<Rightarrow> string \<Rightarrow> unit deploying" where
  "publish E cfg deployPath contracts force ver pointIdentity routes dir =
     await (if contracts then deployContracts E cfg deployPath ver pointIdentity force else retA ()) (\<lambda>_.
     await (updateKeyValue E pointIdentity [(''::rootDir'', JStr dir)] deployPath contracts ver) (\<lambda>_.
     await (updateZDNS E pointIdentity routes ver) (\<lambda>_.
       publish_records E cfg deployPath contracts ver pointIdentity)))"

definition deploy :: "deploy_env \<Rightarrow> deploy_config \<Rightarrow> string \<Rightarrow> bool \<Rightarrow> bool \<Rightarrow> bool \<Rightarrow> unit deploying" where
  "deploy E cfg deployPath contracts dev force =
     await (liftR (getTargetAndIdentity cfg contracts dev)) (\<lambda>t.
     let ver = PromiseOf (getVersion (e_ikVersion E) (dc_version cfg) (dt_identity t) (dt_point t) (dt_alias t)) in
     await (authorize E t) (\<lambda>preExisting.
     await (uploadRoutes E deployPath) (\<lambda>routes.
     await (uploadRootDir E deployPath (dc_rootDir cfg)) (\<lambda>dir.
     await (if dt_point t \<or> dt_alias t
            then publish E cfg deployPath contracts force ver
                   (if dt_alias t then dt_identity t else dt_target t) routes dir
            else retA ()) (\<lambda>_.
       if dt_point t then retA ()
       else editDomainRegistry E (dt_target t)
         (if dt_alias t then [(''pn_alias'', dt_identity t)] else [(''pn_routes'', routes), (''pn_root'', dir)])
         preExisting)))))"

section \<open>A deployment only appends\<close>

definition grows :: "'a deploying \<Rightarrow> bool" where
  "grows m \<longleftrightarrow> (\<forall>h0. inv_act (prefix h0) m (\<lambda>_. True))"

named_theorems grows_intros

lemma growsD: "grows m \<Longrightarrow> prefix h (fst (m h))"
  by (simp add: grows_def inv_act_def)

lemma growsI: "(\<And>h. prefix h (fst (m h))) \<Longrightarrow> grows m"
  by (auto simp: grows_def inv_act_def intro: prefix_order.trans)

lemma grows_ret [grows_intros]: "grows (retA x)" "grows (throwA e)" "grows (liftR r)"
  by (auto simp: retA_def throwA_def liftR_def split: sum.splits intro!: growsI)

lemma grows_asking [grows_intros]: "grows (asking r)"
  by (auto simp: asking_def liftR_def split: sum.splits intro!: growsI)

lemma grows_doing [grows_intros]: "grows (doing r ev)"
  by (auto simp: doing_def split: sum.splits intro!: growsI)

lemma grows_await [grows_intros]: "grows m \<Longrightarrow> (\<And>x. grows (f x)) \<Longrightarrow> grows (await m f)"
  unfolding grows_def using inv_act_await by blast

lemma grows_catch [grows_intros]:
  assumes "grows m" "\<And>e. grows (f e)" shows "grows (catchA m f)"
proof (rule growsI)
  fix h
  obtain h1 r where m: "m h = (h1, r)" by (cases "m h")
  show "prefix h (fst (catchA m f h))"
    using growsD [OF assms(1), of h] growsD [OF assms(2), of h1] m
    by (cases r) (auto simp: catchA_def intro: prefix_order.trans)
qed

lemma grows_if [grows_intros]: "grows a \<Longrightarrow> grows b \<Longrightarrow> grows (if c then a else b)"
  by simp

lemma grows_option [grows_intros]:
  "grows a \<Longrightarrow> (\<And>x. grows (f x)) \<Longrightarrow> grows (case v of None \<Rightarrow> a | Some x \<Rightarrow> f x)"
  by (cases v) auto

lemma grows_put [grows_intros]: "grows (put E ev)" "grows (upload E d)" "grows (put_key E host k v ver)"
  by (simp_all add: put_def upload_def put_key_def grows_intros)

lemma grows_store_resource [grows_intros]: "grows (store_resource E d v)"
  by (auto simp: store_resource_def Let_def split: json.splits option.splits intro!: grows_intros)

lemma grows_replace [grows_intros]:
  "grows (replace_value E d v)" "grows (replaceContentsWithCids E d es r)" "grows (replace_elements E d i xs r)"
  by (induction E d v and E d es r and E d i xs r
    rule: replace_value_replaceContentsWithCids_replace_elements.induct)
    (auto intro!: grows_intros split: option.splits)

lemma grows_contract_send [grows_intros]: "grows (run_contract_send E target v)"
  by (auto simp: run_contract_send_def Let_def split: json.splits option.splits intro!: grows_intros)

lemma grows_put_value [grows_intros]: "grows (put_value E target contracts ver e)"
  by (cases e) (auto simp: put_value_def split: json.splits intro!: grows_intros)

lemma grows_put_values [grows_intros]: "grows (put_values E target contracts ver es)"
  by (induction es) (auto intro!: grows_intros)

lemma grows_records [grows_intros]:
  "grows (updateKeyValue E target vs d contracts ver)"
  "grows (storeContractArtifacts E a n ver addr target)"
  "grows (updateZDNS E host i ver)" "grows (updateProxyMetadata E host i ver)"
  "grows (updateCommitSha E host d ver)" "grows (updatePointVersionTag E host k v ver)"
  by (auto simp: updateKeyValue_def storeContractArtifacts_def updateZDNS_def updateProxyMetadata_def
    updateCommitSha_def updatePointVersionTag_def split: option.splits list.splits intro!: grows_intros)

lemma grows_hardhat [grows_intros]:
  "grows (prepare_hardhat E d)" "grows (ide_contract E ide d n)" "grows (plain_contract E n)"
  by (auto simp: prepare_hardhat_def ide_contract_def plain_contract_def Let_def
    split: option.splits intro!: grows_intros)

lemma grows_upgradable [grows_intros]: "grows (upgradable_contract E mp target n force)"
  by (auto simp: upgradable_contract_def Let_def intro!: grows_intros)

lemma grows_deploy_contract [grows_intros]: "grows (deploy_contract E cfg mp d ver target force n)"
  by (auto simp: deploy_contract_def split: option.splits intro!: grows_intros)

lemma grows_deploy_each: "(\<And>n. grows (f n)) \<Longrightarrow> grows (deploy_each f ns)"
  by (induction ns) (auto intro!: grows_intros)

lemma grows_contracts [grows_intros]: "grows (deployContracts E cfg d ver target force)"
  by (auto simp: deployContracts_def store_proxy_metadata_def intro!: grows_intros grows_deploy_each
    split: option.splits)

lemma grows_publish [grows_intros]:
  "grows (publish_records E cfg d contracts ver i)" "grows (publish E cfg d contracts force ver i routes dir)"
  by (auto simp: publish_def publish_records_def intro!: grows_intros split: option.splits)

section \<open>Who may deploy\<close>

definition registered :: "deploy_env \<Rightarrow> string \<Rightarrow> bool" where
  "registered E i \<longleftrightarrow> (\<exists>a. e_ownerByIdentity E i = Inr (Some a) \<and> a \<noteq> [] \<and> a \<noteq> ZERO_ADDRESS)"

definition authorized :: "deploy_env \<Rightarrow> deploy_target \<Rightarrow> bool" where
  "authorized E t \<longleftrightarrow>
     (if dt_point t then
        e_signer E = Inr (e_owner E) \<and>
        (if registered E (dt_identity t) then e_isDeployer E (dt_identity t) (e_owner E) = Inr True
         else e_mode E = ''zappdev'')
      else if ends_with ''.sol'' (dt_target t) then
        (\<exists>a c. e_solAccount E = Inr a \<and> e_solDomain E (dt_target t) = Inr (Some a, c))
      else (\<exists>d as c. e_ethAccounts E = Inr (JArr (JStr (to_lower d) # as)) \<and>
              e_ensDomain E (dt_target t) = Inr (JStr d, c)))"

lemma authorize_point_cases:
  assumes "authorize_point E i h = (h', r)"
  shows "(case r of
     Ret _ \<Rightarrow> e_signer E = Inr (e_owner E) \<and>
       (if registered E i then e_isDeployer E i (e_owner E) = Inr True \<and> h' = h
        else e_mode E = ''zappdev'' \<and> h' = h @ [Registered i (e_owner E) (hex_decode (e_publicKey E))])
   | _ \<Rightarrow> h' = h)"
  using assms
  by (auto simp: authorize_point_def registered_def ensureIsDeployerOrFail_def registerNewIdentity_def
    put_def doing_def await_def liftR_def retA_def throwA_def truthy_def
    split: sum.splits if_splits option.splits)

lemma domain_owner_cases:
  assumes "ensureIsDomainOwner E target h = (h', r)"
  shows "h' = h \<and> (\<forall>c. r = Ret c \<longrightarrow>
    (if ends_with ''.sol'' target
     then \<exists>a. e_solAccount E = Inr a \<and> e_solDomain E target = Inr (Some a, c)
     else \<exists>d as. e_ethAccounts E = Inr (JArr (JStr (to_lower d) # as)) \<and>
       e_ensDomain E target = Inr (JStr d, c)))"
  using assms
  by (auto simp: ensureIsDomainOwner_def getNameService_def await_def liftR_def retA_def throwA_def
    split: sum.splits if_splits option.splits json.splits list.splits prod.splits)

lemma authorize_cases:
  assumes "authorize E t h = (h', r)"
  shows "(case r of
     Ret _ \<Rightarrow> authorized E t \<and>
       (h' = h \<or> h' = h @ [Registered (dt_identity t) (e_owner E) (hex_decode (e_publicKey E))])
   | _ \<Rightarrow> h' = h)"
proof (cases "dt_point t")
  case True
  obtain h1 q where q: "authorize_point E (dt_identity t) h = (h1, q)" by fastforce
  from authorize_point_cases [OF q] q assms True show ?thesis
    by (auto simp: authorize_def authorized_def await_def retA_def split: async.splits if_splits)
next
  case False
  obtain h1 q where q: "ensureIsDomainOwner E (dt_target t) h = (h1, q)" by fastforce
  from domain_owner_cases [OF q] q assms False show ?thesis
    by (auto simp: authorize_def authorized_def await_def retA_def split: async.splits if_splits json.splits)
qed

text \<open>C10: whatever the outside world answers, a deployment does nothing at all unless the wallet may
  deploy to the target: for a .point identity it is the signer's and a deployer of the identity, or the
  identity is free and the node runs for development; another domain belongs to it.\<close>

theorem deployment_authorized:
  assumes "fst (deploy E cfg deployPath contracts dev force []) \<noteq> []"
  shows "\<exists>t. getTargetAndIdentity cfg contracts dev = Inr t \<and> authorized E t"
proof (cases "getTargetAndIdentity cfg contracts dev")
  case (Inl e)
  with assms show ?thesis by (simp add: deploy_def)
next
  case (Inr t)
  obtain h1 r where r: "authorize E t [] = (h1, r)" by fastforce
  from authorize_cases [OF r] r assms Inr show ?thesis
    by (cases r) (auto simp: deploy_def)
qed

section \<open>What a deployment publishes\<close>

lemma put_key_Ret:
  "put_key E host k v ver h = (h', Ret u) \<Longrightarrow> h' = h @ [PutKey (strip_point host) k v ver]"
  by (auto simp: put_key_def put_def doing_def split: sum.splits)

lemma updateZDNS_Ret:
  "updateZDNS E host i ver h = (h', Ret u) \<Longrightarrow>
     h' = h @ [PutKey (strip_point (strip_point host)) ZDNS_ROUTES_KEY (Some (''0x'' @ i)) ver]"
  by (auto simp: updateZDNS_def dest: put_key_Ret)

lemma rootDir_plain: "storage_key ''::rootDir'' = None"
  by (simp add: storage_key_def starts_with_def)

lemma await_ret_id: "await m retA = m"
  by (auto simp: fun_eq_iff await_def retA_def split: prod.splits async.splits)

lemma rootDir_put:
  "updateKeyValue E i [(''::rootDir'', JStr dir)] d contracts ver =
     put_key E i ''::rootDir'' (Some dir) ver"
  by (simp add: updateKeyValue_def rootDir_plain put_value_def await_ret_id)

lemma uploadRoutes_Ret:
  "uploadRoutes E d h = (h', Ret routes) \<Longrightarrow>
     \<exists>file j. e_readFile E h (path_join d ''routes.json'') = Inr file \<and> jparse file = Some j \<and>
       e_uploadData E h (jprint j) = Inr routes \<and> h' = h @ [Uploaded (jprint j)]"
  by (auto simp: uploadRoutes_def asking_def upload_def doing_def await_def liftR_def throwA_def
    split: sum.splits option.splits)

lemma uploadRootDir_Ret:
  "uploadRootDir E d rd h = (h', Ret dir) \<Longrightarrow>
     (let path = path_join d (case rd of Some p \<Rightarrow> p | None \<Rightarrow> ''public'')
      in h' = h @ [UploadedDir path] \<and> e_uploadDir E h path = Inr dir \<and>
        e_dirStatus E h' dir = Inr ''COMPLETED'')"
  by (auto simp: uploadRootDir_def Let_def asking_def doing_def await_def liftR_def throwA_def retA_def
    split: sum.splits if_splits)

lemma publish_Ret:
  assumes "publish E cfg d contracts force ver i routes dir h = (h', Ret ())"
  shows "\<exists>h2. h' = h @ h2 \<and>
    subseq [PutKey (strip_point i) ''::rootDir'' (Some dir) ver,
            PutKey (strip_point (strip_point i)) ZDNS_ROUTES_KEY (Some (''0x'' @ routes)) ver] h2"
proof -
  let ?c = "if contracts then deployContracts E cfg d ver i force else retA ()"
  from await_RetD [OF assms [unfolded publish_def]] obtain a u where
    a: "?c h = (a, Ret u)" and
    a2: "await (put_key E i ''::rootDir'' (Some dir) ver) (\<lambda>_. await (updateZDNS E i routes ver) (\<lambda>_.
       publish_records E cfg d contracts ver i)) a = (h', Ret ())"
    by (auto simp: rootDir_put)
  from await_RetD [OF a2] obtain b v where
    b: "put_key E i ''::rootDir'' (Some dir) ver a = (b, Ret v)" and
    b2: "await (updateZDNS E i routes ver) (\<lambda>_. publish_records E cfg d contracts ver i) b = (h', Ret ())"
    by auto
  from await_RetD [OF b2] obtain c w where
    c: "updateZDNS E i routes ver b = (c, Ret w)" and
    c2: "publish_records E cfg d contracts ver i c = (h', Ret ())"
    by auto
  have "grows ?c" by (intro grows_intros)
  from growsD [OF this, of h] a obtain h1 where h1: "a = h @ h1" by (auto simp: prefix_def)
  from growsD [OF grows_publish(1), of c E cfg d contracts ver i] c2 obtain h3 where
    h3: "h' = c @ h3" by (auto simp: prefix_def)
  let ?two = "[PutKey (strip_point i) ''::rootDir'' (Some dir) ver,
            PutKey (strip_point (strip_point i)) ZDNS_ROUTES_KEY (Some (''0x'' @ routes)) ver]"
  from h1 h3 put_key_Ret [OF b] updateZDNS_Ret [OF c] have "h' = h @ (h1 @ ?two @ h3)" by simp
  moreover have "subseq ?two (h1 @ ?two @ h3)"
    by (intro list_emb_append2 list_emb_prefix subseq_order.refl)
  ultimately show ?thesis by blast
qed


section \<open>Versions of deployments\<close>

definition version_text :: "nat \<Rightarrow> nat \<Rightarrow> nat \<Rightarrow> string" where
  "version_text a b c = show_nat a @ ''.'' @ show_nat b @ ''.'' @ show_nat c"

definition base_text :: "nat \<Rightarrow> nat \<Rightarrow> string" where
  "base_text a b = show_nat a @ ''.'' @ show_nat b"

lemma digits_show: "r = [] \<or> \<not> is_digit (hd r) \<Longrightarrow> digits (show_nat n @ r) = (show_nat n, r)"
  using show_nat_digits [of n]
  by (cases r) (auto simp: digits_def list_all_iff)

lemma dot_no_digit [simp]: "\<not> is_digit CHR ''.''"
  by (simp add: is_digit_def)

lemma parts_version [simp]:
  "getVersionParts (version_text a b c) =
     Inr \<lparr>vp_major = show_nat a, vp_minor = show_nat b, vp_patch = Some (show_nat c)\<rparr>"
proof -
  have "parts_here True (version_text a b c) =
     Some \<lparr>vp_major = show_nat a, vp_minor = show_nat b, vp_patch = Some (show_nat c)\<rparr>"
    using digits_show [of "[]" c]
    by (simp add: parts_here_def version_text_def digits_show)
  then have "find_parts True (version_text a b c) =
     Some \<lparr>vp_major = show_nat a, vp_minor = show_nat b, vp_patch = Some (show_nat c)\<rparr>"
    by (cases "version_text a b c") (auto simp: parts_here_def digits_def)
  then show ?thesis by (simp add: getVersionParts_def)
qed

lemma show_nat_no_dot [simp]: "CHR ''.'' \<notin> set (show_nat n)"
  using show_nat_digits [of n] by (auto simp: list_all_iff)

lemma dec_val_bound: "list_all is_digit s \<Longrightarrow> dec_val s < 10 ^ length s"
proof (induction s rule: rev_induct)
  case (snoc c s)
  then have "digit_val c \<le> 9" "dec_val s + 1 \<le> 10 ^ length s"
    by (auto simp: is_digit_def digit_val_def Let_def)
  then show ?case by (simp add: dec_val_def)
qed (simp add: dec_val_def)

lemma show_nat_bound: "n < 10 ^ length (show_nat n)"
  using dec_val_bound [OF show_nat_digits [of n]] by simp

lemma split_base_text: "split_ch CHR ''.'' (base_text a b) = [show_nat a, show_nat b]"
  by (simp add: base_text_def split_ch_append split_ch_absent)

lemma base_parts_text [simp]: "base_parts (base_text a b) = (show_nat a, show_nat b)"
  by (simp add: base_parts_def split_base_text)

lemma base_text_eq [simp]: "base_text a b = base_text c d \<longleftrightarrow> a = c \<and> b = d"
  by (metis Pair_inject base_parts_text show_nat_inj)

lemma new_version_cases:
  "getNewPatchedVersion (Some (version_text a b c)) (base_text A B) =
     Inr (if a = A \<and> b = B then version_text A B (c + 1) else version_text A B 0)"
proof -
  have "show_nat 0 = ''0''" by code_simp
  then have joined: "base_text A B @ ''.'' @ show_nat n = version_text A B n"
    "base_text A B @ ''.0'' = version_text A B 0" for n
    by (simp_all add: base_text_def version_text_def)
  have "version_text a b c \<noteq> []" by (simp add: version_text_def)
  moreover have "show_nat a @ ''.'' @ show_nat b = base_text a b" by (simp add: base_text_def)
  ultimately show ?thesis
    unfolding getNewPatchedVersion_def
    by (simp only: option.case sum.case parts_version version_parts.simps base_text_eq joined dec_val_show if_False)
      simp
qed

lemma decimal_order:
  assumes "decimal_le (show_nat a, show_nat b) (show_nat A, show_nat B)"
    "length (show_nat b) = length (show_nat B)"
  shows "a < A \<or> a = A \<and> b \<le> B"
proof -
  let ?m = "10 ^ length (show_nat B) :: nat"
  have le: "a * ?m + b \<le> A * ?m + B"
    using assms by (simp add: decimal_le_def)
  have "b < ?m" "B < ?m" using show_nat_bound [of b] show_nat_bound [of B] assms(2) by simp_all
  have "\<not> A < a"
  proof
    assume "A < a"
    then have "(A + 1) * ?m \<le> a * ?m" by (intro mult_le_mono1) simp
    with le \<open>B < ?m\<close> show False by simp
  qed
  with le show ?thesis by (cases "a = A") auto
qed

text \<open>Where the minor numbers have as many digits, the version of a deployment has the
  configured major and minor number and is later than the version deployed before: the next patch
  of the same base, or patch zero of a later base.\<close>

theorem deployed_version_increases:
  assumes "getVersion ik cfgVersion identity point aliased = Inr (Some v)"
    "ik identity ''::rootDir'' = Inr (Some (version_text a b c))"
    "getBaseVersion cfgVersion = Inr (base_text A B)"
    "length (show_nat b) = length (show_nat B)"
  shows "\<exists>C. v = version_text A B C \<and> (a < A \<and> C = 0 \<or> a = A \<and> b < B \<and> C = 0 \<or> a = A \<and> b = B \<and> C = c + 1)"
proof -
  have ne: "version_text a b c \<noteq> []" by (simp add: version_text_def)
  from assms(1-3) have "isNewBaseVersionValid (Some (version_text a b c)) (base_text A B) = Inr True"
    and v: "Inr v = getNewPatchedVersion (Some (version_text a b c)) (base_text A B)"
    by (auto simp: getVersion_def map_sum_def split: if_splits sum.splits bool.splits)
  then have "a < A \<or> a = A \<and> b \<le> B"
    using decimal_order [OF _ assms(4)] ne by (simp add: isNewBaseVersionValid_def)
  then show ?thesis
    using v by (auto simp: new_version_cases split: if_splits)
qed

text \<open>Numbers of different lengths are compared as decimals: 1.10 is refused after 1.9, and 1.9
  accepted after 1.10.\<close>

theorem minor_order_decimal:
  "isNewBaseVersionValid (Some (version_text 1 9 0)) (base_text 1 10) = Inr False"
  "isNewBaseVersionValid (Some (version_text 1 10 0)) (base_text 1 9) = Inr True"
  by code_simp+

text \<open>A stored version without a patch number makes the next one end in \<open>NaN\<close>.\<close>

theorem patch_missing_is_NaN:
  "getNewPatchedVersion (Some ''1.2'') ''1.2'' = Inr ''1.2.NaN''"
  by code_simp

section \<open>Example\<close>

definition toy_deploy :: "string \<Rightarrow> deploy_env" where
  "toy_deploy deployed = \<lparr>e_mode = ''zappdev'', e_datadir = ''/data'',
     e_uploadData = (\<lambda>_ _. Inr ''11''), e_uploadDir = (\<lambda>_ _. Inr ''22''), e_dirStatus = (\<lambda>_ _. Inr ''COMPLETED''),
     e_put = (\<lambda>_ _. Inr ()), e_getKey = (\<lambda>_ _ _. Inr None), e_getFile = (\<lambda>_ _. Inr []),
     e_owner = ''0xa'', e_signer = Inr ''0xa'', e_publicKey = ''0102'',
     e_ownerByIdentity = (\<lambda>_. Inr None), e_isDeployer = (\<lambda>_ _. Inr False), e_ikVersion = (\<lambda>_ _. Inr (Some deployed)),
     e_solAccount = Inl TypeError, e_solDomain = (\<lambda>_. Inl TypeError),
     e_ethAccounts = Inl TypeError, e_ensDomain = (\<lambda>_. Inl TypeError),
     e_exists = (\<lambda>_ _. False), e_readFile = (\<lambda>_ _. Inr ''{}''), e_exec = (\<lambda>_. None),
     e_metadataPath = (\<lambda>_. Inr []), e_identityContract = [], e_deployProxy = (\<lambda>_ _ _. Inr []),
     e_upgradeProxy = (\<lambda>_ _ _. Inr []), e_artifact = (\<lambda>_. Inl TypeError), e_compile = (\<lambda>_. Inl TypeError),
     e_deployContract = (\<lambda>_ _ _. Inr [])\<rparr>"

definition toy_app :: "cfg_version \<Rightarrow> deploy_config" where
  "toy_app v = \<lparr>dc_version = v, dc_target = ''blog.point'', dc_alias = None, dc_keyvalue = JObj [],
     dc_contracts = [], dc_upgradable = False, dc_ide = None, dc_rootDir = None, dc_sdk = None, dc_node = None\<rparr>"

lemma toy_simps [simp]:
  "dc_version (toy_app v) = v" "dc_keyvalue (toy_app v) = JObj []" "dc_rootDir (toy_app v) = None"
  "dc_sdk (toy_app v) = None" "dc_node (toy_app v) = None" "dc_contracts (toy_app v) = []"
  "e_mode (toy_deploy d) = ''zappdev''" "e_uploadData (toy_deploy d) h x = Inr ''11''"
  "e_uploadDir (toy_deploy d) h x = Inr ''22''" "e_dirStatus (toy_deploy d) h x = Inr ''COMPLETED''"
  "e_put (toy_deploy d) h ev = Inr ()" "e_owner (toy_deploy d) = ''0xa''" "e_signer (toy_deploy d) = Inr ''0xa''"
  "e_publicKey (toy_deploy d) = ''0102''" "e_ownerByIdentity (toy_deploy d) i = Inr None"
  "e_readFile (toy_deploy d) h x = Inr ''{}''" "e_exec (toy_deploy d) x = None"
  "e_ikVersion (toy_deploy d) = (\<lambda>_ _. Inr (Some d))"
  by (simp_all add: toy_app_def toy_deploy_def)

lemma toy_target:
  "getTargetAndIdentity (toy_app v) False False =
     Inr \<lparr>dt_target = ''blog.point'', dt_point = True, dt_identity = ''blog'', dt_alias = False\<rparr>"
proof -
  have "\<not> ends_with ''.sol'' ''blog.point''" "\<not> ends_with ''.eth'' ''blog.point''"
    "to_lower ''blog.point'' = ''blog.point''" "replace_suffix ''.point'' [] ''blog.point'' = ''blog''"
    by code_simp+
  then show ?thesis by (simp add: getTargetAndIdentity_def toy_app_def)
qed

lemma toy_deployed:
  "deploy (toy_deploy deployed) (toy_app v) ''/app'' False False False [] =
    ([Registered ''blog'' ''0xa'' (hex_decode ''0102''), Uploaded ''{}'', UploadedDir ''/app/public'',
      PutKey ''blog'' ''::rootDir'' (Some ''22'') (PromiseOf (getVersion (\<lambda>_ _. Inr (Some deployed)) v ''blog'' True False)),
      PutKey ''blog'' ZDNS_ROUTES_KEY (Some ''0x11'') (PromiseOf (getVersion (\<lambda>_ _. Inr (Some deployed)) v ''blog'' True False))],
     Ret ())"
proof -
  have e: "strip_point ''blog.point'' = ''blog''" "strip_point ''blog'' = ''blog''"
    "path_join ''/app'' ''routes.json'' = ''/app/routes.json''" "path_join ''/app'' ''public'' = ''/app/public''"
    "jparse ''{}'' = Some (JObj [])" "jprint (JObj []) = ''{}''"
    by code_simp+
  show ?thesis
    by (simp add: deploy_def toy_target authorize_def authorize_point_def registerNewIdentity_def
      uploadRoutes_def uploadRootDir_def publish_def publish_records_def rootDir_put updateZDNS_def
      updateCommitSha_def updateKeyValue_def object_entries_def put_key_def put_def upload_def doing_def asking_def
      await_def liftR_def retA_def throwA_def truthy_def or_empty_def e Let_def rootDir_plain put_value_def)
qed

text \<open>The version is not waited for: a version that is not accepted does not stop the deployment, and
  its promise is what the keys are written with.\<close>

theorem refused_version_deploys:
  "getVersion (e_ikVersion (toy_deploy ''2.0.0'')) (VersionText ''1.0'') ''blog'' True False =
     Inl (PlainError (CHR 0x27 # ''Base version 1.0 should be greater or equal to MAJOR.MINOR of lastVersion 2.0.0.'' @ [CHR 0x27]))"
  "snd (deploy (toy_deploy ''2.0.0'') (toy_app (VersionText ''1.0'')) ''/app'' False False False []) = Ret ()"
proof -
  show "getVersion (e_ikVersion (toy_deploy ''2.0.0'')) (VersionText ''1.0'') ''blog'' True False =
     Inl (PlainError (CHR 0x27 # ''Base version 1.0 should be greater or equal to MAJOR.MINOR of lastVersion 2.0.0.'' @ [CHR 0x27]))"
    unfolding toy_deploy_def by code_simp
  show "snd (deploy (toy_deploy ''2.0.0'') (toy_app (VersionText ''1.0'')) ''/app'' False False False []) = Ret ()"
    by (simp add: toy_deployed)
qed

theorem deployment_authorized_witness:
  "\<exists>t. getTargetAndIdentity (toy_app (VersionText ''1.0'')) False False = Inr t \<and>
     authorized (toy_deploy ''1.0.0'') t"
  by (rule deployment_authorized [of _ _ "''/app''" False False False])
    (simp add: toy_deployed)


theorem deployed_version_witness:
  "\<exists>C. ''1.3.0'' = version_text 1 3 C \<and> (1 < (1::nat) \<and> C = 0 \<or> (1::nat) = 1 \<and> 2 < (3::nat) \<and> C = 0 \<or>
     (1::nat) = 1 \<and> 2 = (3::nat) \<and> C = 7 + 1)"
  by (rule deployed_version_increases [where ik = "\<lambda>_ _. Inr (Some ''1.2.7'')" and
      cfgVersion = "VersionText ''1.3''" and identity = "''blog''" and point = True and aliased = False]) code_simp+

text \<open>An array in the configured values is stored as an object with its indexes.\<close>

theorem array_value_becomes_object:
  "fst (updateKeyValue (toy_deploy ''1.0.0'') ''blog'' [(''tags'', JArr [JStr ''a'', JStr ''b''])] ''/app'' False ver []) =
     [PutKey ''blog'' ''tags'' (Some (jprint (JObj [(''0'', JStr ''a''), (''1'', JStr ''b'')]))) ver]"
proof -
  have e: "storage_key ''tags'' = None" "strip_point ''blog'' = ''blog''" "show_nat 0 = ''0''" "show_nat (Suc 0) = ''1''"
    by code_simp+
  show ?thesis
    by (simp add: updateKeyValue_def e put_value_def put_key_def put_def doing_def await_def retA_def toy_deploy_def)
qed

section \<open>The form of stored values\<close>

text \<open>Values without arrays and without keys that ask for an upload.\<close>

fun stored_form :: "json \<Rightarrow> bool" where
  "stored_form (JArr xs) = False"
| "stored_form (JObj m) = list_all (\<lambda>(k, v). storage_key k = None \<and> stored_form v) m"
| "stored_form _ = True"

definition stored_obj :: "(string, json) obj \<Rightarrow> bool" where
  "stored_obj m \<longleftrightarrow> list_all (\<lambda>(k, v). storage_key k = None \<and> stored_form v) m"

lemma stored_obj_set:
  "stored_obj m \<Longrightarrow> storage_key k = None \<Longrightarrow> stored_form v \<Longrightarrow> stored_obj (obj_set k v m)"
  unfolding stored_obj_def list_all_iff by (auto dest!: set_obj_set_mem)

lemma storage_key_plain: "CHR '']'' \<notin> set k \<Longrightarrow> storage_key k = None"
  by (auto simp: storage_key_def ends_with_iff)

lemma last_storage_plain: "last_storage s = Some k \<Longrightarrow> CHR '']'' \<notin> set k"
proof (induction s arbitrary: k)
  case (Cons c s)
  then show ?case
    by (auto simp: Let_def split: option.splits if_splits dest: set_takeWhileD)
qed simp

lemma extracted_key: "storage_key key = Some k \<Longrightarrow> storage_key k = None"
proof -
  assume "storage_key key = Some k"
  then have "last_storage key = Some k" unfolding storage_key_def by (simp split: if_splits)
  then show ?thesis by (intro storage_key_plain last_storage_plain)
qed

lemma index_key: "storage_key (show_nat i) = None"
proof (rule storage_key_plain)
  have "\<not> is_digit (CHR '']'')" by code_simp
  then show "CHR '']'' \<notin> set (show_nat i)"
    using show_nat_digits [of i] by (auto simp: list_all_iff)
qed

lemma resource_form: "inv_act (\<lambda>_. True) (store_resource E d v) stored_form"
proof -
  have any: "inv_act (\<lambda>_. True) m (\<lambda>_. True)" for m :: "'a deploying" by (simp add: inv_act_def)
  have str: "inv_act (\<lambda>_. True) (retA (JStr s)) stored_form" for s by (simp add: inv_act_def)
  have stored: "inv_act (\<lambda>_. True) (await m (\<lambda>x. f x)) stored_form"
    if "\<And>x. inv_act (\<lambda>_. True) (f x) stored_form" for m :: "'a deploying" and f
    by (rule inv_act_await [OF any that])
  have branch: "inv_act (\<lambda>_. True) (store_resource E d (JObj m)) stored_form" for m
  proof (cases "obj_get m ''blob''")
    case None
    then show ?thesis
      by (cases "obj_get m ''file''" rule: option.exhaust; simp add: store_resource_def inv_act_throw)
        (simp add: Let_def inv_act_throw stored str inv_act_if split: json.split)
  next
    case (Some b)
    then show ?thesis by (simp add: store_resource_def stored str)
  qed
  show ?thesis
    by (cases v) (simp_all add: branch, simp_all add: store_resource_def inv_act_throw)
qed

lemma replaced_form:
  "inv_act (\<lambda>_. True) (replace_value E d v) stored_form"
  "stored_obj r \<Longrightarrow> inv_act (\<lambda>_. True) (replaceContentsWithCids E d es r) stored_obj"
  "stored_obj r \<Longrightarrow> inv_act (\<lambda>_. True) (replace_elements E d i xs r) stored_obj"
proof (induction E d v and E d es r and E d i xs r
    rule: replace_value_replaceContentsWithCids_replace_elements.induct)
  case (8 E d key v es result)
  show ?case
  proof (cases "storage_key key")
    case None
    with 8 show ?thesis by (auto intro!: inv_act_await [where R = stored_form] stored_obj_set)
  next
    case (Some k)
    with 8 show ?thesis
      by (auto intro!: inv_act_await [OF resource_form] stored_obj_set extracted_key [OF Some])
  qed
next
  case (10 E d i x xs result)
  then show ?case by (auto intro!: inv_act_await [where R = stored_form] stored_obj_set index_key)
qed (auto intro!: inv_act_await inv_act_ret simp: stored_obj_def)

text \<open>C40: whatever values a deployment is configured with, at any depth, what is left to be stored after
  the uploads has no array and no resource that was to be uploaded.\<close>

theorem replaced_values_stored_form:
  assumes "replaceContentsWithCids E deployPath vs [] h = (h', Ret r)"
  shows "stored_form (JObj r)"
  using replaced_form(2) [of "[]" E deployPath vs] assms
  by (auto simp: inv_act_def stored_obj_def dest: spec [of _ h])

theorem replaced_values_witness:
  "stored_form (JObj [(''a'', JStr ''11''), (''t'', JObj [(''0'', JNum 1)])])"
proof -
  have "replaceContentsWithCids (toy_deploy ''1.0.0'') ''/app''
      [(''storage[a]'', JObj [(''blob'', JStr ''x'')]), (''t'', JArr [JNum 1])] [] [] =
    ([Uploaded ''x''], Ret [(''a'', JStr ''11''), (''t'', JObj [(''0'', JNum 1)])])"
  proof -
    have "storage_key ''storage[a]'' = Some ''a''" "storage_key ''t'' = None" "show_nat 0 = ''0''"
      by code_simp+
    then show ?thesis
      by (simp add: store_resource_def upload_def doing_def await_def retA_def)
  qed
  from replaced_values_stored_form [OF this] show ?thesis .
qed

section \<open>Progress of deployments\<close>

text \<open>A line of the progress: its text, the object with it, and what its callback reports.\<close>

record progress_line =
  pl_msg :: string
  pl_obj :: "json option"
  pl_cb :: "json option"

definition to_upper :: "string \<Rightarrow> string" where
  "to_upper s = map (\<lambda>c. if 97 \<le> (of_char c :: nat) \<and> (of_char c :: nat) \<le> 122
     then char_of ((of_char c :: nat) - 32) else c) s"

text \<open>\<open>log._message\<close>: an optional callback, an optional object and the text.\<close>

definition log_message ::
  "string \<Rightarrow> json option \<Rightarrow> json option \<Rightarrow> string \<Rightarrow> progress_line list \<Rightarrow> progress_line list" where
  "log_message level cb obj msg lines = lines @
     [\<lparr>pl_msg = ''['' @ to_upper level @ ''] '' @ msg, pl_obj = obj, pl_cb = cb\<rparr>]"

type_synonym deploy_params = "string option \<times> string option \<times> string option \<times> string option \<times> string option"

definition progressKey :: "deploy_params \<Rightarrow> string" where
  "progressKey ps = (case ps of (a, b, c, d, e) \<Rightarrow> join_ch ''|||'' (map or_empty [a, b, c, d, e]))"

type_synonym deploys = "(string, progress_line list) obj"

datatype controller_answer =
    StatusError string
  | StatusSuccess
  | ProgressAnswer "(string \<times> progress_line) list" "json option"

text \<open>The lines of a deployment that ran to its end are those of its \<open>Deployer\<close>, a new one for each.\<close>

definition controller_deploy ::
  "deploy_params \<Rightarrow> (progress_line list \<times> unit result) \<Rightarrow> deploys \<Rightarrow> deploys \<times> controller_answer" where
  "controller_deploy ps run ds =
     (if \<not> truthy (fst ps) then (ds, StatusError ''deploy path not specified'')
      else (obj_set (progressKey ps) (fst run) ds,
            case snd run of Inr _ \<Rightarrow> StatusSuccess
            | Inl e \<Rightarrow> StatusError (case e of PlainError m \<Rightarrow> m | HttpNotFoundError m \<Rightarrow> m
                | HttpForbiddenError m \<Rightarrow> m | DisplayableError m \<Rightarrow> m | TypeError \<Rightarrow> ''TypeError'')))"

text \<open>Index and last index are both strings, so they are compared as strings.\<close>

definition new_lines :: "string option \<Rightarrow> progress_line list \<Rightarrow> (string \<times> progress_line) list" where
  "new_lines lst lines = filter (\<lambda>(idx, l). case lst of Some s \<Rightarrow> \<not> idx \<le> s | None \<Rightarrow> True) (index_entries 0 lines)"

definition deployProgress :: "deploy_params \<Rightarrow> string option \<Rightarrow> deploys \<Rightarrow> controller_answer" where
  "deployProgress ps lst ds =
     (if \<not> truthy (fst ps) then StatusError ''deploy path not specified''
      else case obj_get ds (progressKey ps) of
             None \<Rightarrow> StatusError ''deployer not found''
           | Some lines \<Rightarrow>
               (let fresh = new_lines lst lines;
                    cb = (if fresh \<noteq> [] then pl_cb (snd (last fresh))
                          else case lst of None \<Rightarrow> None
                               | Some s \<Rightarrow> Option.bind (obj_get (index_entries 0 lines) s) pl_cb)
                in ProgressAnswer fresh cb))"

text \<open>Up to ten lines a poll with the last index gets exactly the lines behind it; the eleventh
  line is not reported after the tenth.\<close>

lemma tenth_line_lost: "new_lines (Some ''9'') (replicate 11 l) = []"
  "map fst (new_lines (Some ''8'') (replicate 10 l)) = [''9'']"
  by code_simp+

end
