(* ===== verification/Solana.thy ===== *)
theory Solana
  imports Complex_Main Async Blockchain Cookies
begin

text \<open>
  The Solana provider, \<open>src/network/providers/solana.ts\<close>: the account, transactions made
  from their JSON form, and the Solana Name Service with its cache and its POINT record.
  The state holds the chain, the cache and the clock; reading and writing the chain are the
  operations of the libraries \<open>@solana/web3.js\<close> and \<open>spl-name-service\<close>, fields of
  the environment whose documented laws are stated in \<open>sns_laws\<close>.
\<close>

section \<open>State and libraries\<close>

record 'ch sol_state =
  sol_chain :: 'ch
  sns_cache :: "(string, domain_registry) cache"
  sol_clock :: int

record 'ch sns_env =
  sns_enabled :: bool
  sns_get_all :: bool
  web3_networks :: "(string, string \<times> string) obj"
  sol_wallet :: string
  net_public_key :: string
  pubkey_ok :: "string \<Rightarrow> bool"
  on_curve :: "string \<Rightarrow> bool result"
  registry_owner :: "string \<Rightarrow> 'ch \<Rightarrow> string \<Rightarrow> string result"
  point_record :: "string \<Rightarrow> 'ch \<Rightarrow> string \<Rightarrow> string option result"
  record_exists :: "string \<Rightarrow> 'ch \<Rightarrow> string \<Rightarrow> bool result"
  rent_exemption :: "string \<Rightarrow> int \<Rightarrow> int result"
  create_record :: "string \<Rightarrow> 'ch \<Rightarrow> string \<Rightarrow> int \<Rightarrow> 'ch \<times> string result"
  write_record :: "string \<Rightarrow> 'ch \<Rightarrow> string \<Rightarrow> string \<Rightarrow> 'ch \<times> string result"
  favourite_domain :: "string \<Rightarrow> 'ch \<Rightarrow> string \<Rightarrow> string result"
  all_domains :: "string \<Rightarrow> 'ch \<Rightarrow> string \<Rightarrow> string list result"
  reverse_lookup :: "string \<Rightarrow> 'ch \<Rightarrow> string \<Rightarrow> string result"
  show_number :: "rat \<Rightarrow> string"

type_synonym ('ch, 'a) sol = "('ch sol_state, 'a) act"

definition cacheExpiration :: int where
  "cacheExpiration = 2 * 60 * 1000"

definition solDomainCache :: "(string, domain_registry) cache" where
  "solDomainCache = new_cache cacheExpiration None"

text \<open>Lamports as SOL with the fees of some transactions; exact, so rounding up to nine decimals
  changes nothing.\<close>

definition toSOL :: "int \<Rightarrow> nat \<Rightarrow> rat" where
  "toSOL lamports n =
     (let fee = (if n > 0 then Fract 5 1000000 * of_nat n else 0);
          sol = of_int lamports / of_int 1000000000 + fee
      in of_int (ceiling (sol * 1000000000)) / 1000000000)"

text \<open>A provider exists for the networks of type \<open>solana\<close>.\<close>

definition has_provider :: "'ch sns_env \<Rightarrow> string \<Rightarrow> bool" where
  "has_provider env network =
     (case obj_get (web3_networks env) network of Some (t, _) \<Rightarrow> t = ''solana'' | None \<Rightarrow> False)"

definition sns_unknown :: "string \<Rightarrow> exn" where
  "sns_unknown network = PlainError (''Unknown network '' @ quoted network @ ''.'')"

definition sol_unknown :: "string \<Rightarrow> exn" where
  "sol_unknown network = PlainError (''Unknown network '' @ network)"

section \<open>Account and transactions\<close>

definition requestAccount :: "'ch sns_env \<Rightarrow> string \<Rightarrow> string result" where
  "requestAccount env network = (if has_provider env network then Inr (sol_wallet env) else Inl (sol_unknown network))"

record instruction =
  in_keys :: "(string \<times> bool \<times> bool) list"
  in_programId :: string
  in_data :: "nat list"

record transaction_json =
  tj_blockhash :: "string option"
  tj_feePayer :: "string option"
  tj_nonce :: "(string \<times> instruction) option"
  tj_instructions :: "instruction list"
  tj_signers :: "string list"

record transaction =
  tr_blockhash :: "string option"
  tr_feePayer :: "string option"
  tr_nonce :: "(string \<times> instruction) option"
  tr_instructions :: "instruction list"
  tr_signatures :: "(string option \<times> string) list"

definition pubkey :: "'ch sns_env \<Rightarrow> string \<Rightarrow> string result" where
  "pubkey env k = (if pubkey_ok env k then Inr k else Inl (PlainError ''Invalid public key input''))"

text \<open>A byte of \<open>Buffer.from(data)\<close> is taken modulo 256.\<close>

definition instructionFromJson :: "'ch sns_env \<Rightarrow> instruction \<Rightarrow> instruction result" where
  "instructionFromJson env j =
     (case mapM_res (\<lambda>(k, s, w). map_sum id (\<lambda>p. (p, s, w)) (pubkey env k)) (in_keys j) of
        Inl e \<Rightarrow> Inl e
      | Inr ks \<Rightarrow>
          (case pubkey env (in_programId j) of
             Inl e \<Rightarrow> Inl e
           | Inr p \<Rightarrow> Inr \<lparr>in_keys = ks, in_programId = p, in_data = map (\<lambda>b. b mod 256) (in_data j)\<rparr>))"

definition some_text :: "string option \<Rightarrow> string option" where
  "some_text v = (if truthy v then v else None)"

definition transaction_of :: "'ch sns_env \<Rightarrow> transaction_json \<Rightarrow> transaction result" where
  "transaction_of env j =
     (case (case some_text (tj_feePayer j) of None \<Rightarrow> Inr None | Some p \<Rightarrow> map_sum id Some (pubkey env p)) of
        Inl e \<Rightarrow> Inl e
      | Inr payer \<Rightarrow>
     (case (case tj_nonce j of None \<Rightarrow> Inr None
            | Some (n, i) \<Rightarrow> map_sum id (\<lambda>i'. Some (n, i')) (instructionFromJson env i)) of
        Inl e \<Rightarrow> Inl e
      | Inr nonce \<Rightarrow>
     (case mapM_res (instructionFromJson env) (tj_instructions j) of
        Inl e \<Rightarrow> Inl e
      | Inr is \<Rightarrow>
     (case mapM_res (pubkey env) (tj_signers j) of
        Inl e \<Rightarrow> Inl e
      | Inr ss \<Rightarrow> Inr \<lparr>tr_blockhash = some_text (tj_blockhash j), tr_feePayer = payer, tr_nonce = nonce,
           tr_instructions = is, tr_signatures = map (\<lambda>s. (None, s)) ss\<rparr>))))"

text \<open>\<open>signAndSendTransaction\<close>: confirming is the library's.\<close>

definition signAndSendTransaction ::
  "'ch sns_env \<Rightarrow> (transaction \<Rightarrow> string \<Rightarrow> string result) \<Rightarrow> transaction_json \<Rightarrow> string \<Rightarrow> string result" where
  "signAndSendTransaction env send j network =
     (if \<not> has_provider env network then Inl (sol_unknown network)
      else case transaction_of env j of Inl e \<Rightarrow> Inl e | Inr t \<Rightarrow> send t (sol_wallet env))"

definition sol_send ::
  "'ch sns_env \<Rightarrow> (string \<Rightarrow> string \<Rightarrow> json \<Rightarrow> (nat \<times> json) result) \<Rightarrow> string \<Rightarrow> json \<Rightarrow> string \<Rightarrow> json result" where
  "sol_send env post meth params network =
     (case obj_get (web3_networks env) network of
        None \<Rightarrow> Inl (sol_unknown network)
      | Some (t, address) \<Rightarrow>
          if t \<noteq> ''solana'' then Inl (PlainError (''Wrong network type for '' @ network @ '', solana expected''))
          else (case post address meth params of
                  Inl e \<Rightarrow> Inl e
                | Inr (status, body) \<Rightarrow>
                    if status \<noteq> 200
                    then Inl (PlainError (''RPC call failed with status '' @ show_nat status @ '': '' @ jprint body))
                    else Inr body))"

text \<open>A transfer from the wallet, to be confirmed by the library.\<close>

definition sendFunds ::
  "'ch sns_env \<Rightarrow> (string \<times> string \<times> int \<Rightarrow> string result) \<Rightarrow> string \<Rightarrow> int \<Rightarrow> string \<Rightarrow> string result" where
  "sendFunds env transfer to lamports network =
     (if \<not> has_provider env network then Inl (sol_unknown network)
      else case pubkey env to of Inl e \<Rightarrow> Inl e | Inr t \<Rightarrow> transfer (sol_wallet env, t, lamports))"

definition sol_getBalance :: "'ch sns_env \<Rightarrow> (string \<Rightarrow> int result) \<Rightarrow> string \<Rightarrow> int result" where
  "sol_getBalance env balance network =
     (if \<not> has_provider env network then Inl (sol_unknown network) else balance (sol_wallet env))"

definition getSignaturesForAddress ::
  "'ch sns_env \<Rightarrow> (string \<Rightarrow> string option \<Rightarrow> string option \<Rightarrow> nat \<Rightarrow> 'l result) \<Rightarrow> string \<Rightarrow> string \<Rightarrow>
     string option \<Rightarrow> string option \<Rightarrow> nat option \<Rightarrow> 'l result" where
  "getSignaturesForAddress env signatures address network before until howmany =
     (if \<not> has_provider env network then Inl (sol_unknown network)
      else case pubkey env address of
             Inl e \<Rightarrow> Inl e
           | Inr k \<Rightarrow> signatures k before until (case howmany of Some n \<Rightarrow> n | None \<Rightarrow> 1))"

definition isAddress :: "'ch sns_env \<Rightarrow> string \<Rightarrow> bool" where
  "isAddress env a = (case on_curve env a of Inr b \<Rightarrow> b | Inl _ \<Rightarrow> False)"

section \<open>Domains\<close>

definition bare_sol :: "string \<Rightarrow> string" where
  "bare_sol d = replace_suffix ''.sol'' [] d"

definition sns_key :: "string \<Rightarrow> string \<Rightarrow> string" where
  "sns_key network domainName = network @ '':'' @ domainName"

text \<open>Null bytes are dropped; a record that cannot be read counts as absent.\<close>

definition record_content :: "string option result \<Rightarrow> string option" where
  "record_content r =
     (case r of
        Inr (Some data) \<Rightarrow> (let s = filter (\<lambda>c. c \<noteq> CHR 0x00) data in if s = [] then None else Some s)
      | _ \<Rightarrow> None)"

definition sns_lookup :: "'ch sns_env \<Rightarrow> 'ch \<Rightarrow> string \<Rightarrow> string \<Rightarrow> domain_registry result" where
  "sns_lookup env ch domainName network =
     (case registry_owner env network ch (bare_sol domainName) of
        Inl e \<Rightarrow> Inl e
      | Inr owner \<Rightarrow> Inr \<lparr>dr_owner = Some owner,
          dr_content = record_content (point_record env network ch (bare_sol domainName))\<rparr>)"

definition sns_resolveDomain :: "'ch sns_env \<Rightarrow> string \<Rightarrow> string \<Rightarrow> ('ch, domain_registry) sol" where
  "sns_resolveDomain env domainName network st =
     (if \<not> sns_enabled env then (st, Ret \<lparr>dr_owner = Some [], dr_content = None\<rparr>)
      else if \<not> has_provider env network then (st, Throw (sns_unknown network))
      else case get (sol_clock st) (sns_key network domainName) (sns_cache st) of
             (c, Some r) \<Rightarrow> (st\<lparr>sns_cache := c\<rparr>, Ret r)
           | (c, None) \<Rightarrow>
               (case sns_lookup env (sol_chain st) domainName network of
                  Inl e \<Rightarrow> (st\<lparr>sns_cache := c\<rparr>, Throw e)
                | Inr r \<Rightarrow> (st\<lparr>sns_cache := add (sol_clock st) (sns_key network domainName) r c\<rparr>, Ret r)))"

definition sns_getDomain :: "'ch sns_env \<Rightarrow> string \<Rightarrow> string \<Rightarrow> ('ch, string option) sol" where
  "sns_getDomain env owner network st =
     (if \<not> sns_enabled env then (st, Ret None)
      else if \<not> has_provider env network then (st, Throw (sns_unknown network))
      else (st, Ret
        (case favourite_domain env network (sol_chain st) owner of
           Inr d \<Rightarrow> Some (d @ ''.sol'')
         | Inl _ \<Rightarrow>
             if \<not> sns_get_all env then None
             else (case all_domains env network (sol_chain st) owner of
                     Inr (d # _) \<Rightarrow>
                       (case reverse_lookup env network (sol_chain st) d of
                          Inr n \<Rightarrow> Some (n @ ''.sol'') | Inl _ \<Rightarrow> None)
                   | _ \<Rightarrow> None))))"

text \<open>Writing on the chain, which changes it even when it fails.\<close>

definition on_chain :: "('ch \<Rightarrow> 'ch \<times> 'a result) \<Rightarrow> ('ch, 'a) sol" where
  "on_chain f st = (case f (sol_chain st) of
     (ch, Inl e) \<Rightarrow> (st\<lparr>sol_chain := ch\<rparr>, Throw e) | (ch, Inr x) \<Rightarrow> (st\<lparr>sol_chain := ch\<rparr>, Ret x))"

definition sol_sleep :: "int \<Rightarrow> ('ch, unit) sol" where
  "sol_sleep ms st = (st\<lparr>sol_clock := sol_clock st + ms\<rparr>, Ret ())"

definition record_space :: int where
  "record_space = 2000"

definition createPointRecord :: "'ch sns_env \<Rightarrow> string \<Rightarrow> string \<Rightarrow> ('ch, string) sol" where
  "createPointRecord env domain network =
     (if \<not> sns_enabled env then retA []
      else if \<not> has_provider env network then throwA (sns_unknown network)
      else await (liftR (rent_exemption env network (record_space + 96))) (\<lambda>lamports.
        catchA (on_chain (\<lambda>ch. create_record env network ch domain lamports)) (\<lambda>_.
          throwA (PlainError (''Error creating POINT record, please make sure to have at least '' @
            show_number env (toSOL lamports 2) @ '' SOL in your account.'')))))"

definition forget_domain :: "string \<Rightarrow> string \<Rightarrow> ('ch, unit) sol" where
  "forget_domain network domainName st =
     (let (c, present) = has (sol_clock st) (sns_key network domainName) (sns_cache st)
      in (st\<lparr>sns_cache := (if present then fst (rm (sns_key network domainName) c) else c)\<rparr>, Ret ()))"

definition padded :: "string \<Rightarrow> string" where
  "padded data = data @ replicate (1000 - length data) (CHR 0x00)"

definition updatePointRecord :: "'ch sns_env \<Rightarrow> string \<Rightarrow> string \<Rightarrow> string \<Rightarrow> ('ch, string) sol" where
  "updatePointRecord env domainName data network =
     (if \<not> sns_enabled env then retA []
      else if \<not> has_provider env network then throwA (sns_unknown network)
      else if 1000 < length data
      then throwA (PlainError (''Data to be writen to POINT record is too large: '' @ show_nat (length data) @
             '', max allowed is 1000 bytes.''))
      else await (on_chain (\<lambda>ch. write_record env network ch (bare_sol domainName) (padded data))) (\<lambda>txId.
        await (forget_domain network domainName) (\<lambda>_. retA txId)))"

definition setting_failed :: exn where
  "setting_failed = PlainError ''Setting content of POINT record failed. Please try again and if the problem persists contact support.''"

definition sns_setDomainContent :: "'ch sns_env \<Rightarrow> string \<Rightarrow> string \<Rightarrow> string \<Rightarrow> ('ch, string) sol" where
  "sns_setDomainContent env domainName data network =
     (if \<not> sns_enabled env then retA []
      else if \<not> has_provider env network then throwA (sns_unknown network)
      else await (\<lambda>st. liftR (record_exists env network (sol_chain st) (bare_sol domainName)) st) (\<lambda>present.
        await (if present then retA ()
               else await (createPointRecord env (bare_sol domainName) network) (\<lambda>_. sol_sleep 5000)) (\<lambda>_.
          catchA (updatePointRecord env domainName data network) (\<lambda>_.
            catchA (await (sol_sleep 5000) (\<lambda>_. updatePointRecord env domainName data network))
              (\<lambda>_. throwA setting_failed)))))"

definition old_content :: "domain_registry \<Rightarrow> string" where
  "old_content r = (case dr_content r of Some c \<Rightarrow> if trim c \<noteq> [] then c else [] | None \<Rightarrow> [])"

definition setPointReference :: "'ch sns_env \<Rightarrow> string \<Rightarrow> string \<Rightarrow> ('ch, string) sol" where
  "setPointReference env solDomain network =
     (if \<not> sns_enabled env then retA []
      else await (liftR (requestAccount env network)) (\<lambda>solanaAddress.
        await (sns_resolveDomain env solDomain network) (\<lambda>domainRegistry.
          if Some solanaAddress \<noteq> dr_owner domainRegistry
          then throwA (PlainError (quoted solDomain @ '' is owned by '' @ or_empty (dr_owner domainRegistry) @
                 '', you need to transfer it to your Point Wallet ('' @ solanaAddress @
                 ''). Also, please make sure you have some SOL in your Point Wallet to cover transaction fees.''))
          else sns_setDomainContent env solDomain
                 (encodeCookieString (mergeAndResolveConflicts (old_content domainRegistry)
                    [(''pn_key'', net_public_key env)])) network)))"

section \<open>What a domain's record holds after writing\<close>

text \<open>Documented behaviour of the libraries: a confirmed write puts the bytes at the start of the
  record, and the rest of the record holds zeros.\<close>

definition sns_laws :: "'ch sns_env \<Rightarrow> string \<Rightarrow> bool" where
  "sns_laws env network \<longleftrightarrow>
     (\<forall>ch d data ch' tx. write_record env network ch d data = (ch', Inr tx) \<longrightarrow>
        (\<exists>n. point_record env network ch' d = Inr (Some (data @ replicate n (CHR 0x00)))))"

lemma forget_live: "live t (sns_cache (fst (forget_domain network d st))) (sns_key network d) = None"
proof -
  obtain c b where h: "has (sol_clock st) (sns_key network d) (sns_cache st) = (c, b)" by fastforce
  with has_absent [of "sol_clock st" "sns_key network d" "sns_cache st" t] show ?thesis
    by (cases b) (simp_all add: forget_domain_def live_rm)
qed

lemma filter_padded:
  "CHR 0x00 \<notin> set data \<Longrightarrow> filter (\<lambda>c. c \<noteq> CHR 0x00) (padded data @ replicate n (CHR 0x00)) = data"
proof -
  assume a: "CHR 0x00 \<notin> set data"
  have "filter (\<lambda>c. c \<noteq> CHR 0x00) (replicate k (CHR 0x00)) = []" for k by (induction k) auto
  moreover have "filter (\<lambda>c. c \<noteq> CHR 0x00) data = data" using a by (induction data) auto
  ultimately show ?thesis by (simp add: padded_def)
qed

lemma update_Ret:
  assumes "sns_laws env network" "sns_enabled env" "CHR 0x00 \<notin> set data" "data \<noteq> []"
    "updatePointRecord env d data network st = (st', Ret tx)"
  shows "record_content (point_record env network (sol_chain st') (bare_sol d)) = Some data \<and>
    live t (sns_cache st') (sns_key network d) = None \<and> has_provider env network"
proof -
  from assms(2,5) have p: "has_provider env network" and "length data \<le> 1000"
    by (auto simp: updatePointRecord_def throwA_def split: if_splits)
  with assms(2,5) have "await (on_chain (\<lambda>ch. write_record env network ch (bare_sol d) (padded data)))
      (\<lambda>txId. await (forget_domain network d) (\<lambda>_. retA txId)) st = (st', Ret tx)"
    by (simp add: updatePointRecord_def)
  from await_RetD [OF this] obtain st1 where
    w: "on_chain (\<lambda>ch. write_record env network ch (bare_sol d) (padded data)) st = (st1, Ret tx)" and
    f: "forget_domain network d st1 = (st', Ret ())"
    by (force simp: retA_def dest!: await_RetD)
  obtain ch' where ch: "write_record env network (sol_chain st) (bare_sol d) (padded data) = (ch', Inr tx)"
    and st1: "st1 = st\<lparr>sol_chain := ch'\<rparr>"
    using w by (auto simp: on_chain_def split: prod.splits sum.splits)
  from assms(1) ch obtain n where "point_record env network ch' (bare_sol d) = Inr (Some (padded data @ replicate n (CHR 0x00)))"
    unfolding sns_laws_def by blast
  moreover have "sol_chain st' = ch'"
    using f st1 by (auto simp: forget_domain_def split: prod.splits)
  ultimately show ?thesis
    using filter_padded [OF assms(3), of n] assms(4) forget_live [of t network d st1] f p
    by (simp add: record_content_def Let_def)
qed

lemma set_Ret:
  assumes "sns_enabled env" "sns_setDomainContent env d data network st = (st', Ret tx)"
  shows "\<exists>st1. updatePointRecord env d data network st1 = (st', Ret tx)"
proof -
  let ?upd = "catchA (updatePointRecord env d data network) (\<lambda>_.
      catchA (await (sol_sleep 5000) (\<lambda>_. updatePointRecord env d data network)) (\<lambda>_. throwA setting_failed))"
  have "\<exists>st1. ?upd st1 = (st', Ret tx)"
    using assms
    by (auto simp: sns_setDomainContent_def throwA_def split: if_splits dest!: await_RetD)
  then obtain st1 where st1: "?upd st1 = (st', Ret tx)" by blast
  obtain st2 r where u: "updatePointRecord env d data network st1 = (st2, r)" by fastforce
  show ?thesis
  proof (cases "\<exists>e. r = Throw e")
    case True
    with st1 u have "catchA (await (sol_sleep 5000) (\<lambda>_. updatePointRecord env d data network))
        (\<lambda>_. throwA setting_failed) st2 = (st', Ret tx)"
      by (auto simp: catchA_def)
    then show ?thesis
      by (auto simp: catchA_def await_def sol_sleep_def throwA_def split: prod.splits async.splits)
  next
    case False
    with st1 u have "updatePointRecord env d data network st1 = (st', Ret tx)"
      by (cases r) (auto simp: catchA_def)
    then show ?thesis by blast
  qed
qed

lemma resolve_fresh:
  assumes "sns_enabled env" "has_provider env network" "live (sol_clock st) (sns_cache st) (sns_key network d) = None"
  shows "snd (sns_resolveDomain env d network st) =
    (case sns_lookup env (sol_chain st) d network of Inl e \<Rightarrow> Throw e | Inr r \<Rightarrow> Ret r)"
proof -
  have "snd (get (sol_clock st) (sns_key network d) (sns_cache st)) = None"
    using assms(3) by (simp add: snd_get)
  with assms(1,2) show ?thesis
    by (cases "get (sol_clock st) (sns_key network d) (sns_cache st)")
      (auto simp: sns_resolveDomain_def split: sum.splits)
qed

text \<open>What was written is read back from the chain, whatever was cached before.\<close>

lemma set_then_resolve:
  assumes "sns_laws env network" "sns_enabled env" "CHR 0x00 \<notin> set data" "data \<noteq> []"
    "sns_setDomainContent env d data network st = (st', Ret tx)"
  shows "snd (sns_resolveDomain env d network st') =
    (case registry_owner env network (sol_chain st') (bare_sol d) of
       Inl e \<Rightarrow> Throw e | Inr owner \<Rightarrow> Ret \<lparr>dr_owner = Some owner, dr_content = Some data\<rparr>)"
proof -
  from set_Ret [OF assms(2,5)] obtain st1 where "updatePointRecord env d data network st1 = (st', Ret tx)" by blast
  note u = update_Ret [OF assms(1-4) this, of "sol_clock st'"]
  show ?thesis
    using resolve_fresh [of env network st' d] u assms(2)
    by (auto simp: sns_lookup_def split: sum.splits)
qed


definition toy_sns :: "bool \<Rightarrow> (string \<Rightarrow> string option) sns_env" where
  "toy_sns readable = \<lparr>sns_enabled = True, sns_get_all = False, web3_networks = [(''solana'', ''solana'', ''rpc'')],
     sol_wallet = ''w1'', net_public_key = ''ab'', pubkey_ok = (\<lambda>_. True), on_curve = (\<lambda>_. Inr True),
     registry_owner = (\<lambda>_ _ _. Inr ''w1''),
     point_record = (\<lambda>_ ch d. if readable then Inr (ch d) else Inl (PlainError ''timeout'')),
     record_exists = (\<lambda>_ ch d. Inr (ch d \<noteq> None)), rent_exemption = (\<lambda>_ n. Inr n),
     create_record = (\<lambda>_ ch d _. (ch(d := Some []), Inr ''t0'')),
     write_record = (\<lambda>_ ch d data. (ch(d := Some data), Inr ''t1'')),
     favourite_domain = (\<lambda>_ _ _. Inl TypeError), all_domains = (\<lambda>_ _ _. Inr []), reverse_lookup = (\<lambda>_ _ _. Inl TypeError),
     show_number = (\<lambda>_. [])\<rparr>"

definition toy_record :: "(string \<Rightarrow> string option) sol_state" where
  "toy_record = \<lparr>sol_chain = (\<lambda>_. None)(''me'' := Some ''pn_root=22''), sns_cache = solDomainCache, sol_clock = 1\<rparr>"

lemma toy_laws: "sns_laws (toy_sns True) ''solana''"
proof -
  have "\<exists>n. Some d = Some (d @ replicate n (CHR 0x00))" for d :: string
    by (rule exI [of _ 0]) simp
  then show ?thesis by (simp add: sns_laws_def toy_sns_def)
qed


text \<open>A record that cannot be read for the moment counts as empty, and is written over: the fields
  stored before are lost.\<close>

theorem lookup_failure_erases_record:
  "sol_chain (fst (setPointReference (toy_sns False) ''me.sol'' ''solana'' toy_record)) ''me'' =
     Some (padded ''pn_key=ab'')"
  by code_simp

end
