(* ===== verification/Renderer.thy ===== *)
theory Renderer
  imports Blockchain Proxy
begin

text \<open>
  Rendering of pages: the class \<open>Renderer\<close> of \<open>src/client/zweb/renderer/index.js\<close>, the
  tokens of \<open>csrfTokens.ts\<close> and the local store of \<open>src/network/keyvalue.js\<close>.  Twig is
  an argument: its evaluation of templates is not modelled, but which \<open>Twig\<close> object a host gets,
  what happens to the page afterwards, the tags the program adds and the functions it offers to
  templates are.
\<close>

section \<open>Twig objects per host\<close>

text \<open>Counters of uses and the hosts with a \<open>Twig\<close> object.\<close>

record renderer =
  use_counter :: "(string, int) obj"
  twigs :: "string set"

definition new_renderer :: renderer where
  "new_renderer = \<lparr>use_counter = [], twigs = {}\<rparr>"

text \<open>\<open>counter + 1 || 0\<close>: a missing counter and a counter of \<open>-1\<close> become 0.\<close>

definition getTwigForHost :: "string \<Rightarrow> renderer \<Rightarrow> renderer" where
  "getTwigForHost host r =
     r\<lparr>use_counter := obj_set host (case obj_get (use_counter r) host of Some n \<Rightarrow> n + 1 | None \<Rightarrow> 0) (use_counter r),
       twigs := insert host (twigs r)\<rparr>"

definition removeTwigForHost :: "string \<Rightarrow> renderer \<Rightarrow> renderer" where
  "removeTwigForHost host r =
     (case obj_get (use_counter r) host of
        None \<Rightarrow> r
      | Some n \<Rightarrow> r\<lparr>use_counter := obj_set host (n - 1) (use_counter r),
                    twigs := (if n - 1 = 0 then twigs r - {host} else twigs r)\<rparr>)"

section \<open>Pages in gateway mode\<close>

definition token_script :: "string \<Rightarrow> string" where
  "token_script jwt = ''<script>'' @ [CHR 0x0A] @ ''                        window.IS_GATEWAY = true;'' @ [CHR 0x0A] @
     ''                        window.POINT_JWT = '' @ [CHR 0x22] @ jwt @ [CHR 0x22, CHR '';'', CHR 0x0A] @
     ''                    </script>''"

definition sdk_script :: "string \<Rightarrow> string" where
  "sdk_script sdk = ''<script defer>'' @ sdk @ ''</script>''"

text \<open>\<open>page.indexOf(s)\<close> as a condition holds unless the page begins with \<open>s\<close>.\<close>

definition inject_sdk :: "string \<Rightarrow> string \<Rightarrow> string \<Rightarrow> string" where
  "inject_sdk jwt sdk page =
     (if sdk = [] then page
      else if \<not> starts_with ''</head>'' page
      then js_replace ''</head>'' (token_script jwt @ sdk_script sdk @ ''</head>'') page
      else if \<not> starts_with ''</body>'' page
      then js_replace ''<body>'' (''<body>'' @ token_script jwt @ sdk_script sdk) page
      else page @ sdk_script sdk)"

record render_env =
  rd_mode :: string
  rd_sdkFile :: "string result option"
  rd_jwt :: string
  rd_template :: "string \<Rightarrow> string \<Rightarrow> string \<Rightarrow> params \<Rightarrow> string result"

text \<open>\<open>render\<close>: the host's \<open>Twig\<close> is taken, the page rendered, and the use ended in every case.\<close>

definition render_page ::
  "render_env \<Rightarrow> string \<Rightarrow> string \<Rightarrow> string \<Rightarrow> params \<Rightarrow> renderer \<Rightarrow> renderer \<times> string result" where
  "render_page E template_id contents host request_params r =
     (let r1 = getTwigForHost host r in
      case rd_template E (host @ ''/'' @ template_id) contents host request_params of
        Inl e \<Rightarrow> (removeTwigForHost host r1, Inl e)
      | Inr page \<Rightarrow>
          (let r2 = removeTwigForHost host r1 in
           case rd_sdkFile E of
             None \<Rightarrow> (r2, Inr page)
           | Some file \<Rightarrow>
               if rd_mode E \<noteq> ''gateway'' then (r2, Inr page)
               else (case file of
                       Inl e \<Rightarrow> (removeTwigForHost host r2, Inl e)
                     | Inr sdk \<Rightarrow> (r2, Inr (inject_sdk (rd_jwt E) sdk page)))))"

section \<open>Tags\<close>

text \<open>The \<open>include\<close> tag: the first of the files that renders; otherwise the last error, unless
  missing files are ignored.  A template that is given as such is not tried but rendered.\<close>

datatype include_file = GivenTemplate "string result" | ImportedFile "string result"

fun include_files :: "include_file list \<Rightarrow> string option \<times> exn option \<Rightarrow> (string option \<times> exn option) result" where
  "include_files [] acc = Inr acc"
| "include_files (f # fs) acc =
     (if fst acc \<noteq> None then include_files fs acc
      else case f of
             GivenTemplate (Inl e) \<Rightarrow> Inl e
           | GivenTemplate (Inr page) \<Rightarrow> include_files fs (Some page, None)
           | ImportedFile (Inl e) \<Rightarrow> include_files fs (None, Some e)
           | ImportedFile (Inr page) \<Rightarrow> include_files fs (Some page, None))"

text \<open>With no file at all \<open>null\<close> is thrown.\<close>

definition include_tag :: "bool \<Rightarrow> include_file list \<Rightarrow> (exn option + string)" where
  "include_tag ignoreMissing fs =
     (case include_files fs (None, None) of
        Inl e \<Rightarrow> Inl (Some e)
      | Inr (Some page, _) \<Rightarrow> Inr page
      | Inr (None, e) \<Rightarrow> if ignoreMissing then Inr [] else Inl e)"

text \<open>The context of an included template.\<close>

definition include_context :: "bool \<Rightarrow> (string, json) obj \<Rightarrow> (string, json) obj option \<Rightarrow> (string, json) obj" where
  "include_context only context withContext =
     (let inner = (if only then [] else context)
      in case withContext of None \<Rightarrow> inner | Some w \<Rightarrow> obj_merge inner w)"

text \<open>The \<open>extends\<close> tag: what the parent leaves in its copy of the context overrides it.\<close>

definition extends_context :: "(string, json) obj \<Rightarrow> (string, json) obj \<Rightarrow> (string, json) obj" where
  "extends_context context innerContext = obj_merge context innerContext"

definition throw_tag :: "string \<Rightarrow> string result" where
  "throw_tag errorMsg = Inl (PlainError errorMsg)"

section \<open>Functions for templates\<close>

definition isHash :: "string \<Rightarrow> bool" where
  "isHash str =
     (let s = (if starts_with ''0x'' str then drop 2 str else str)
      in length s = 64 \<and> list_all is_hex s)"

text \<open>A list in a contract: results for index 0, 1, ... until a call fails, at most 50000.\<close>

function contract_list_from :: "(int \<Rightarrow> string + json) \<Rightarrow> int \<Rightarrow> json list \<Rightarrow> json list result" where
  "contract_list_from call i results =
     (case call i of
        Inl _ \<Rightarrow> Inr results
      | Inr x \<Rightarrow>
          if i + 1 > 50000 then Inl (PlainError ''Something went wrong, more than 50000 iterations'')
          else contract_list_from call (i + 1) (results @ [x]))"
  by pat_completeness auto

termination by (relation "measure (\<lambda>(_, i, _). nat (50000 - i))") auto

definition contract_list :: "(int \<Rightarrow> string + json) \<Rightarrow> json list result" where
  "contract_list call = contract_list_from call 0 []"

definition identity_check_availability :: "string option \<Rightarrow> bool" where
  "identity_check_availability owner =
     (\<not> truthy owner \<or> owner = Some ''0x0000000000000000000000000000000000000000'')"

definition is_authenticated :: "string option \<Rightarrow> bool" where
  "is_authenticated walletid = (walletid \<noteq> None)"

text \<open>Reads of the storage that hide their errors.\<close>

definition storage_get_fn :: "string result \<Rightarrow> string" where
  "storage_get_fn r = (case r of Inr s \<Rightarrow> s | Inl _ \<Rightarrow> ''Invalid Content'')"

definition storage_get_by_ikv ::
  "(string \<Rightarrow> string \<Rightarrow> string option result) \<Rightarrow> (string option \<Rightarrow> string result) \<Rightarrow> string \<Rightarrow> string \<Rightarrow> string" where
  "storage_get_by_ikv getKey file identity key =
     (case getKey identity key of Inl _ \<Rightarrow> ''Invalid Content'' | Inr k \<Rightarrow> storage_get_fn (file k))"

text \<open>The events of a contract with the times of their blocks; Twig's own key is taken out.\<close>

definition event_filter :: "(string, json) obj \<Rightarrow> (string, json) obj" where
  "event_filter flt = obj_del ''_keys'' flt"

fun event_data :: "(int \<Rightarrow> string + int) \<Rightarrow> (int \<times> json) list \<Rightarrow> string + (json \<times> int) list" where
  "event_data time [] = Inr []"
| "event_data time ((b, v) # es) =
     (case time b of Inl m \<Rightarrow> Inl m
      | Inr t \<Rightarrow> (case event_data time es of Inl m \<Rightarrow> Inl m | Inr r \<Rightarrow> Inr ((v, t) # r)))"

section \<open>Tokens against request forgery\<close>

type_synonym csrf_tokens = "(string, string) obj"

text \<open>The token of a host, made from 64 random bytes at its first use.\<close>

definition csrf_value :: "string \<Rightarrow> string \<Rightarrow> csrf_tokens \<Rightarrow> csrf_tokens \<times> string" where
  "csrf_value random host ts =
     (case obj_get ts host of
        Some t \<Rightarrow> if t = [] then (obj_set host (hex_encode random) ts, hex_encode random) else (ts, t)
      | None \<Rightarrow> (obj_set host (hex_encode random) ts, hex_encode random))"

definition csrf_field :: "string \<Rightarrow> string \<Rightarrow> csrf_tokens \<Rightarrow> csrf_tokens \<times> string" where
  "csrf_field random host ts =
     (case csrf_value random host ts of
        (ts', t) \<Rightarrow> (ts', ''<input name='' @ quoted ''_csrf'' @ '' value='' @ quoted t @ '' />''))"

definition csrf_guard :: "string \<Rightarrow> string \<Rightarrow> csrf_tokens \<Rightarrow> string result" where
  "csrf_guard submitted host ts =
     (if \<not> truthy (obj_get ts host) then Inl (PlainError ''No csrf token generated for this host'')
      else if obj_get ts host \<noteq> Some submitted then Inl (PlainError ''Invalid csrf token submitted'')
      else Inr [])"

section \<open>Local key-value store\<close>

text \<open>\<open>network/keyvalue.js\<close>: values once read are kept for good.\<close>

type_synonym kv_data = "(string, string) obj"

definition kv_update :: "string \<Rightarrow> string \<Rightarrow> string \<Rightarrow> kv_data \<Rightarrow> kv_data" where
  "kv_update identity key v d = obj_set (identity @ ''/'' @ key) v d"

definition kv_get ::
  "(string \<Rightarrow> string \<Rightarrow> string option result) \<Rightarrow> bool \<Rightarrow> bool \<Rightarrow> string \<Rightarrow> string \<Rightarrow> kv_data \<Rightarrow> kv_data \<times> string option result" where
  "kv_get ask recursive alwaysUpdate identity key d =
     (case obj_get d (identity @ ''/'' @ key) of
        Some v \<Rightarrow>
          if \<not> alwaysUpdate then (d, Inr (Some v))
          else if \<not> recursive then (d, Inr None)
          else (case ask identity key of
                  Inl e \<Rightarrow> (d, Inl e)
                | Inr r \<Rightarrow> if truthy r then (kv_update identity key (or_empty r) d, Inr r) else (d, Inr None))
      | None \<Rightarrow>
          if \<not> recursive then (d, Inr None)
          else (case ask identity key of
                  Inl e \<Rightarrow> (d, Inl e)
                | Inr r \<Rightarrow> if truthy r then (kv_update identity key (or_empty r) d, Inr r) else (d, Inr None)))"

text \<open>\<open>list\<close> reads numbered keys until one has no value, so it may not end.\<close>

partial_function (option) kv_list_from ::
  "(string \<Rightarrow> string \<Rightarrow> string option result) \<Rightarrow> string \<Rightarrow> string \<Rightarrow> nat \<Rightarrow> string list \<Rightarrow> kv_data \<Rightarrow>
     (kv_data \<times> string list result) option" where
  "kv_list_from ask identity key i acc d =
     (case kv_get ask True False identity (key @ show_nat i) d of
        (d1, Inl e) \<Rightarrow> Some (d1, Inl e)
      | (d1, Inr v) \<Rightarrow>
          if truthy v then kv_list_from ask identity key (Suc i) (acc @ [or_empty v]) d1 else Some (d1, Inr acc))"

definition kv_list where
  "kv_list ask identity key d = kv_list_from ask identity key 0 [] d"

definition kv_propagate ::
  "(string \<Rightarrow> string \<Rightarrow> string \<Rightarrow> string \<Rightarrow> unit result) \<Rightarrow> string \<Rightarrow> string \<Rightarrow> string \<Rightarrow> string \<Rightarrow> kv_data \<Rightarrow> kv_data \<times> unit result" where
  "kv_propagate putk identity key v version d = (kv_update identity key v d, putk identity key v version)"

section \<open>Use counters\<close>

text \<open>Renders of one host begin and end, among those of other hosts; the number counts those of the
  host that are running.\<close>

inductive renders :: "string \<Rightarrow> nat \<Rightarrow> renderer \<Rightarrow> bool" for host where
  start: "renders host 0 new_renderer"
| begins: "renders host n r \<Longrightarrow> renders host (Suc n) (getTwigForHost host r)"
| ends: "renders host (Suc n) r \<Longrightarrow> renders host n (removeTwigForHost host r)"
| begins_other: "renders host n r \<Longrightarrow> h \<noteq> host \<Longrightarrow> renders host n (getTwigForHost h r)"
| ends_other: "renders host n r \<Longrightarrow> h \<noteq> host \<Longrightarrow> renders host n (removeTwigForHost h r)"

lemma counter_get:
  "obj_get (use_counter (getTwigForHost h r)) host =
     (if host = h then Some (case obj_get (use_counter r) h of Some n \<Rightarrow> n + 1 | None \<Rightarrow> 0)
      else obj_get (use_counter r) host)"
  by (simp add: getTwigForHost_def)

lemma counter_remove:
  "obj_get (use_counter (removeTwigForHost h r)) host =
     (if host = h then map_option (\<lambda>n. n - 1) (obj_get (use_counter r) h) else obj_get (use_counter r) host)"
  by (auto simp: removeTwigForHost_def split: option.splits)

lemma renders_counter:
  "renders host n r \<Longrightarrow> obj_get (use_counter r) host = (if obj_get (use_counter r) host = None \<and> n = 0 then None else Some (int n - 1))"
proof (induction rule: renders.induct)
  case (begins n r)
  then show ?case by (auto simp: counter_get split: option.splits if_splits)
next
  case (ends n r)
  then show ?case by (auto simp: counter_remove split: if_splits)
qed (auto simp: counter_get counter_remove new_renderer_def)

text \<open>The counter is one less than the number of running renders: the end of a render removes the
  host's \<open>Twig\<close> exactly if one other render still uses it, and never when it was the last.\<close>

theorem twig_removed_while_in_use:
  assumes "renders host (Suc n) r" "host \<in> twigs r"
  shows "host \<notin> twigs (removeTwigForHost host r) \<longleftrightarrow> n = 1"
  using renders_counter [OF assms(1)] assms(2)
  by (auto simp: removeTwigForHost_def split: if_splits)

theorem twig_never_freed: "host \<in> twigs (fst (render_page E tid contents host ps new_renderer))"
  by (auto simp: render_page_def Let_def new_renderer_def getTwigForHost_def removeTwigForHost_def
    split: sum.splits option.splits)

section \<open>Gateway pages\<close>

lemma find_first_none: "\<not> includes_str p s \<Longrightarrow> find_first p acc s = None"
proof (induction s arbitrary: acc)
  case Nil
  then show ?case by (subst find_first.simps) (cases p, auto simp: starts_with_def)
next
  case (Cons c s)
  then show ?case by (simp add: find_first.simps [of p _ "c # s"])
qed

text \<open>A page without a head gets no script: the branches for pages without \<open></head>\<close> are not reached.\<close>

theorem headless_page_unchanged:
  "\<not> includes_str ''</head>'' page \<Longrightarrow> inject_sdk jwt sdk page = page"
  by (cases page) (auto simp: inject_sdk_def js_replace_def find_first_none starts_with_def)

section \<open>Lists of contracts\<close>

lemma contract_list_prefix:
  "contract_list_from call i acc = Inr ys \<Longrightarrow>
     \<exists>n xs. ys = acc @ xs \<and> length xs = n \<and> (\<forall>j < n. call (i + int j) = Inr (xs ! j)) \<and>
       \<not> is_ok (call (i + int n))"
proof (induction call i acc rule: contract_list_from.induct)
  case (1 call i acc)
  show ?case
  proof (cases "call i")
    case (Inl m)
    then show ?thesis using 1(2)
      by (intro exI [of _ 0] exI [of _ "[]"]) (simp add: contract_list_from.simps)
  next
    case (Inr x)
    with 1(2) have r: "i + 1 \<le> 50000" "contract_list_from call (i + 1) (acc @ [x]) = Inr ys"
      by (auto simp: contract_list_from.simps [of call i] split: if_splits)
    from 1(1) [OF Inr _ r(2)] r(1) obtain n xs where
      ih: "ys = (acc @ [x]) @ xs" "length xs = n" "\<forall>j < n. call (i + 1 + int j) = Inr (xs ! j)"
        "\<not> is_ok (call (i + 1 + int n))" by auto
    have "\<forall>j < Suc n. call (i + int j) = Inr ((x # xs) ! j)"
      using Inr ih(3) by (auto simp: nth_Cons add.assoc split: nat.splits)
    moreover have "\<not> is_ok (call (i + int (Suc n)))" using ih(4) by (simp add: algebra_simps)
    ultimately show ?thesis
      using ih(1,2) by (intro exI [of _ "Suc n"] exI [of _ "x # xs"]) simp
  qed
qed

text \<open>A contract's list has exactly the results up to the first index that fails.\<close>

theorem contract_list_exact:
  assumes "contract_list call = Inr ys"
  shows "(\<forall>j < length ys. call (int j) = Inr (ys ! j)) \<and> \<not> is_ok (call (int (length ys)))"
  using contract_list_prefix [of call 0 "[]" ys] assms by (auto simp: contract_list_def)

section \<open>The guard against forged requests\<close>

text \<open>Once a page of a host was given its token, a submitted token passes that host's guard exactly
  if it is that token, also after any other hosts were given theirs; a host without a token accepts none.\<close>

theorem csrf_guard_exact:
  assumes "length random = 64"
  shows "(csrf_value random host ts = (ts1, token) \<longrightarrow>
      (\<forall>others. host \<notin> fst ` set others \<longrightarrow>
        (let ts2 = fold (\<lambda>(h, rnd) t. fst (csrf_value rnd h t)) others ts1
         in (csrf_guard submitted host ts2 = Inr []) = (submitted = token)))) \<and>
    (obj_get ts host = None \<longrightarrow> \<not> is_ok (csrf_guard submitted host ts))"
proof -
  have other: "obj_get (fst (csrf_value rnd h t)) host = obj_get t host" if "h \<noteq> host" for rnd h t
    using that by (auto simp: csrf_value_def split: option.splits)
  have fold: "host \<notin> fst ` set others \<Longrightarrow>
      obj_get (fold (\<lambda>(h, rnd) t. fst (csrf_value rnd h t)) others t) host = obj_get t host" for others t
    by (induction others arbitrary: t) (auto simp: other)
  have "hex_encode random \<noteq> []" using assms by (cases random) auto
  then have "obj_get ts1 host = Some token \<and> token \<noteq> []" if "csrf_value random host ts = (ts1, token)"
    using that by (auto simp: csrf_value_def split: option.splits if_splits)
  then show ?thesis
    by (auto simp: Let_def csrf_guard_def fold truthy_def)
qed

theorem csrf_guard_witness:
  "csrf_guard (hex_encode (replicate 64 CHR ''a'')) ''h'' (fst (csrf_value (replicate 64 CHR ''a'') ''h'' [])) = Inr []"
proof -
  let ?rnd = "replicate 64 CHR ''a''"
  have "csrf_value ?rnd ''h'' [] = (fst (csrf_value ?rnd ''h'' []), hex_encode ?rnd)"
    by (simp add: csrf_value_def)
  with csrf_guard_exact [of ?rnd "''h''" "[]" "fst (csrf_value ?rnd ''h'' [])" "hex_encode ?rnd" "hex_encode ?rnd"]
  have "let ts2 = fold (\<lambda>(h, rnd) t. fst (csrf_value rnd h t)) [] (fst (csrf_value ?rnd ''h'' []))
     in (csrf_guard (hex_encode ?rnd) ''h'' ts2 = Inr []) = (hex_encode ?rnd = hex_encode ?rnd)"
    by (metis empty_iff image_empty length_replicate list.set(1))
  then show ?thesis by simp
qed

section \<open>Values kept for good\<close>

text \<open>A value that was read once is returned whatever the chain holds later.\<close>

theorem local_value_stale:
  assumes "kv_get ask True False i k d = (d', Inr (Some v))" "v \<noteq> []"
  shows "kv_get ask' True False i k d' = (d', Inr (Some v))"
  using assms
  by (auto simp: kv_get_def kv_update_def truthy_def or_empty_def split: option.splits sum.splits if_splits)

end
