(* ===== verification/Wallet.thy ===== *)
theory Wallet
  imports Complex_Main "HOL-Library.Word" Rpc
begin

text \<open>
  The wallet: the keys of \<open>src/wallet/keystore.ts\<close>, the operations of \<open>src/wallet/index.ts\<close>
  and \<open>src/api/controllers/WalletController.js\<close>.  Key derivation, ABI encoding, the hash and the
  chain clients are fields of an environment; transactions go to the pending ones that
  \<open>Rpc\<close> confirms.
\<close>

section \<open>Keys\<close>

record keystore_env =
  seed_of :: "string \<Rightarrow> string"
  derive_key :: "string \<Rightarrow> string \<Rightarrow> string"
  path_hash :: "string \<Rightarrow> string"

definition POINT_ENCRYPTION_ROOT_DERIVATION_PATH :: string where
  "POINT_ENCRYPTION_ROOT_DERIVATION_PATH = ''m/10687'' @ [CHR 0x27] @ ''/0'' @ [CHR 0x27] @ ''/0'' @ [CHR 0x27] @ ''/0'' @ [CHR 0x27]"

text \<open>Four bytes, the most significant first.\<close>

definition read_u32 :: "char \<Rightarrow> char \<Rightarrow> char \<Rightarrow> char \<Rightarrow> 32 word" where
  "read_u32 a b c d = word_of_nat (((of_char a * 256 + of_char b) * 256 + of_char c) * 256 + of_char d)"

text \<open>An index with the top bit set is a hardened one, written without the bit and with a prime.\<close>

definition index_text :: "32 word \<Rightarrow> string" where
  "index_text w = (if 0x80000000 \<le> w then show_nat (unat (w - 0x80000000)) @ [CHR 0x27] else show_nat (unat w))"

fun path_indexes :: "string \<Rightarrow> string list" where
  "path_indexes (a # b # c # d # s) = index_text (read_u32 a b c d) # path_indexes s"
| "path_indexes _ = []"

definition derivation_path :: "string \<Rightarrow> string" where
  "derivation_path h = ''m/0'' @ [CHR 0x27] @ ''/'' @ join_ch ''/'' (path_indexes h)"

definition getNetworkPrivateSubKey :: "keystore_env \<Rightarrow> string \<Rightarrow> string \<Rightarrow> string result" where
  "getNetworkPrivateSubKey K phrase path =
     (let root = derive_key K (seed_of K phrase) POINT_ENCRYPTION_ROOT_DERIVATION_PATH in
      if root = replicate 32 (CHR 0x00) \<or> length root \<noteq> 32
      then Inl (PlainError ''rootKeyForSubKeys is empty or invalid length'')
      else Inr (hex_encode (derive_key K root (derivation_path (path_hash K path)))))"

text \<open>The phrase is read from the key file once and kept.\<close>

definition getSecretPhrase :: "string result \<Rightarrow> string option \<Rightarrow> string option \<times> string result" where
  "getSecretPhrase keyfile kept =
     (case kept of
        Some p \<Rightarrow> (kept, Inr p)
      | None \<Rightarrow>
          (case keyfile of
             Inl e \<Rightarrow> (None, Inl e)
           | Inr text \<Rightarrow>
               (case jparse text of
                  Some j \<Rightarrow> (case jget ''phrase'' j of Some (JStr p) \<Rightarrow> (Some p, Inr p) | _ \<Rightarrow> (None, Inl TypeError))
                | None \<Rightarrow> (None, Inl (PlainError ''SyntaxError'')))))"

section \<open>Networks and transactions\<close>

record token =
  tk_name :: string
  tk_address :: string

record network_cfg =
  nw_type :: string
  nw_currency :: string
  nw_decimals :: json
  nw_tokens :: "(string, token) obj"

record wallet_env =
  wl_networks :: "(string, network_cfg) obj"
  wl_default :: string
  wl_owner :: string
  wl_address :: string
  wl_solana :: string
  wl_hexValue :: "string \<Rightarrow> string result"
  wl_encode :: "string \<Rightarrow> string list \<Rightarrow> string"
  wl_balance :: "string \<Rightarrow> int result"
  wl_call :: "string \<Rightarrow> string \<Rightarrow> string \<Rightarrow> int result"
  wl_formatUnits :: "int \<Rightarrow> int \<Rightarrow> string"
  wl_history :: "string \<Rightarrow> json result"

definition bad_network :: "string \<Rightarrow> exn" where
  "bad_network network = PlainError (''Unknown network '' @ network)"

definition bad_config :: "string \<Rightarrow> string \<Rightarrow> exn" where
  "bad_config network t = PlainError (''Bad config: unexpected network '' @ network @ '' type '' @ t)"

text \<open>Each type of network has its own branch; other types are errors.\<close>

definition by_type :: "wallet_env \<Rightarrow> string \<Rightarrow> 'a result \<Rightarrow> 'a result \<Rightarrow> 'a result" where
  "by_type W network eth sol =
     (case obj_get (wl_networks W) network of
        None \<Rightarrow> Inl (bad_network network)
      | Some n \<Rightarrow> if nw_type n = ''eth'' then eth else if nw_type n = ''solana'' then sol
                   else Inl (bad_config network (nw_type n)))"

definition transaction_params :: "wallet_env \<Rightarrow> string \<Rightarrow> string \<Rightarrow> string \<Rightarrow> json list result" where
  "transaction_params W to network value =
     by_type W network
       (case wl_hexValue W value of
          Inl e \<Rightarrow> Inl e
        | Inr v \<Rightarrow> Inr [JObj [(''from'', JStr (wl_owner W)), (''to'', JStr to), (''value'', JStr v)]])
       (Inr [JObj [(''to'', JStr to), (''lamports'', JStr value), (''network'', JStr network)]])"

text \<open>What a wallet request leaves: the pending transaction, a message to every open connection,
  and the answer.\<close>

definition request_message :: "string \<Rightarrow> string \<Rightarrow> string \<Rightarrow> json list \<Rightarrow> string" where
  "request_message messageId network reqId params = jprint (JObj [
     (''request'', JObj [(''__hostname'', JStr ''point''), (''__point_id'', JStr messageId),
        (''method'', JStr ''eth_sendTransaction''), (''network'', JStr network), (''type'', JStr ''rpc''),
        (''params'', JArr params)]),
     (''subscriptionId'', JNull), (''type'', JStr ''rpc_method_response''),
     (''data'', JObj [(''reqId'', JStr reqId), (''params'', JArr params), (''network'', JStr network)]),
     (''status'', JNum 200)])"

definition submit ::
  "int \<Rightarrow> string \<Rightarrow> string \<Rightarrow> string list \<Rightarrow> string \<Rightarrow> json list \<Rightarrow> pending_txs \<Rightarrow>
     pending_txs \<times> (string \<times> string) list \<times> reply" where
  "submit now reqId messageId connections network params p =
     (add_pending now reqId params network p,
      map (\<lambda>c. (c, request_message messageId network reqId params)) connections,
      (200, JObj [(''reqId'', JStr reqId), (''params'', JArr params), (''network'', JStr network)]))"

definition wallet_sendTransaction ::
  "wallet_env \<Rightarrow> int \<Rightarrow> string \<Rightarrow> string list \<Rightarrow> string \<Rightarrow> string option \<Rightarrow> string \<Rightarrow> string \<Rightarrow> pending_txs \<Rightarrow>
     (pending_txs \<times> (string \<times> string) list \<times> reply) result" where
  "wallet_sendTransaction W now reqId connections to network value messageId p =
     (let net = (case network of Some n \<Rightarrow> n | None \<Rightarrow> wl_default W) in
      case transaction_params W to net value of
        Inl e \<Rightarrow> Inl e
      | Inr params \<Rightarrow> Inr (submit now reqId messageId connections net params p))"

text \<open>\<open>getWalletAddress\<close> does not test that the network exists.\<close>

definition getWalletAddress :: "wallet_env \<Rightarrow> string option \<Rightarrow> string result" where
  "getWalletAddress W network =
     (let net = (case network of Some n \<Rightarrow> n | None \<Rightarrow> wl_default W) in
      if obj_get (wl_networks W) net = None then Inl TypeError
      else by_type W net (Inr (wl_address W)) (Inr (wl_solana W)))"

definition sendToken ::
  "wallet_env \<Rightarrow> int \<Rightarrow> string \<Rightarrow> string list \<Rightarrow> string \<Rightarrow> string \<Rightarrow> string option \<Rightarrow> string \<Rightarrow> string \<Rightarrow> pending_txs \<Rightarrow>
     (pending_txs \<times> (string \<times> string) list \<times> reply) result" where
  "sendToken W now reqId connections tokenAddress to network value messageId p =
     (let net = (case network of Some n \<Rightarrow> n | None \<Rightarrow> wl_default W) in
      case wl_hexValue W value of
        Inl e \<Rightarrow> Inl e
      | Inr v \<Rightarrow>
          (case getWalletAddress W (Some net) of
             Inl e \<Rightarrow> Inl e
           | Inr a \<Rightarrow> Inr (submit now reqId messageId connections net
               [JObj [(''from'', JStr a), (''to'', JStr tokenAddress),
                  (''data'', JStr (wl_encode W ''transfer'' [to, v])), (''value'', JStr ''0x0''),
                  (''beneficiary'', JStr to)]] p)))"

text \<open>Balances: in wei or lamports, or exactly divided into major units.\<close>

definition getBalance :: "wallet_env \<Rightarrow> string \<Rightarrow> bool \<Rightarrow> rat result" where
  "getBalance W network majorUnits =
     (let scaled = (\<lambda>(unit :: rat) r. map_sum id (\<lambda>b. if majorUnits then of_int b / unit else of_int b) r)
      in by_type W network (scaled (10 ^ 18) (wl_balance W network)) (scaled (10 ^ 9) (wl_balance W network)))"

definition find_token :: "string \<Rightarrow> (string, token) obj \<Rightarrow> token option" where
  "find_token name ts = map_option snd (find (\<lambda>(k, t). to_lower (tk_name t) = to_lower name) ts)"

definition exn_text :: "exn \<Rightarrow> string" where
  "exn_text e = (case e of PlainError m \<Rightarrow> m | HttpNotFoundError m \<Rightarrow> m | HttpForbiddenError m \<Rightarrow> m
     | DisplayableError m \<Rightarrow> m | TypeError \<Rightarrow> ''TypeError'')"

definition getTokenBalanceAndDecimals :: "wallet_env \<Rightarrow> string \<Rightarrow> string \<Rightarrow> bool \<Rightarrow> (string \<times> int) result" where
  "getTokenBalanceAndDecimals W network tok majorUnits =
     (case obj_get (wl_networks W) network of
        None \<Rightarrow> Inl (bad_network network)
      | Some n \<Rightarrow>
          (case find_token tok (nw_tokens n) of
             None \<Rightarrow> Inl (PlainError (''Unknown token '' @ tok))
           | Some t \<Rightarrow>
               (case (case getWalletAddress W None of
                        Inl e \<Rightarrow> Inl e
                      | Inr a \<Rightarrow>
                          (case (wl_call W network (tk_address t) (wl_encode W ''balanceOf'' [a]),
                                 wl_call W network (tk_address t) (wl_encode W ''decimals'' [])) of
                             (Inl e, _) \<Rightarrow> Inl e
                           | (Inr _, Inl e) \<Rightarrow> Inl e
                           | (Inr b, Inr d) \<Rightarrow> Inr (if majorUnits then wl_formatUnits W b d else show_int b, d))) of
                  Inl e \<Rightarrow> Inl (PlainError (''Failed to get token balance: '' @ exn_text e))
                | Inr r \<Rightarrow> Inr r)))"

definition getTransactions :: "wallet_env \<Rightarrow> string \<Rightarrow> json result" where
  "getTransactions W network = by_type W network (wl_history W network) (wl_history W network)"

section \<open>Wallet controller\<close>

text \<open>\<open>balance\<close>: \<open>network.token\<close> asks for a token, unless it is the network's own currency.\<close>

definition split_network :: "wallet_env \<Rightarrow> string \<Rightarrow> (string \<times> string option) result" where
  "split_network W network =
     (if CHR ''.'' \<notin> set network then Inr (network, None)
      else case split_ch CHR ''.'' network of
             name # t # _ \<Rightarrow>
               (case obj_get (wl_networks W) name of
                  None \<Rightarrow> Inl TypeError
                | Some n \<Rightarrow> Inr (name, if to_lower (nw_currency n) = to_lower t then None else Some t))
           | _ \<Rightarrow> Inl TypeError)"

datatype balance_answer = TokenBalance string int | CoinBalance rat json

definition ctl_balance :: "wallet_env \<Rightarrow> string option \<Rightarrow> balance_answer result" where
  "ctl_balance W network =
     (case network of
        None \<Rightarrow> Inl TypeError
      | Some net \<Rightarrow>
          (case split_network W net of
             Inl e \<Rightarrow> Inl e
           | Inr (name, tok) \<Rightarrow>
               (case obj_get (wl_networks W) name of
                  None \<Rightarrow> Inl (bad_network name)
                | Some n \<Rightarrow>
                    (case tok of
                       Some t \<Rightarrow>
                         if t \<noteq> [] then map_sum id (\<lambda>(b, d). TokenBalance b d) (getTokenBalanceAndDecimals W name t False)
                         else map_sum id (\<lambda>b. CoinBalance b (nw_decimals n)) (getBalance W name False)
                     | None \<Rightarrow> map_sum id (\<lambda>b. CoinBalance b (nw_decimals n)) (getBalance W name False)))))"

definition wallet_hash :: "(string \<Rightarrow> string) \<Rightarrow> string \<Rightarrow> string" where
  "wallet_hash sha256 privateKey = ''0x'' @ hex_encode (sha256 (take 33 privateKey))"

definition getBalances :: "wallet_env \<Rightarrow> (string \<times> rat) list result" where
  "getBalances W = mapM_res (\<lambda>(k, n). map_sum id (\<lambda>b. (k, b)) (getBalance W k False)) (wl_networks W)"

definition identity_name :: "(string \<Rightarrow> string option result) \<Rightarrow> string \<Rightarrow> string option" where
  "identity_name lookup network =
     (if network \<in> {''solana'', ''ethereum''}
      then (case lookup network of Inl _ \<Rightarrow> None | Inr None \<Rightarrow> Some [] | Inr (Some i) \<Rightarrow> Some i)
      else None)"

definition getIdentityNames :: "wallet_env \<Rightarrow> (string \<Rightarrow> string option result) \<Rightarrow> string option list" where
  "getIdentityNames W lookup = map (identity_name lookup) (keys (wl_networks W))"

definition getPointIdentity :: "string option result \<Rightarrow> string result" where
  "getPointIdentity current =
     (case current of Inl e \<Rightarrow> Inl e
      | Inr i \<Rightarrow> Inr (case i of None \<Rightarrow> ''N/A'' | Some n \<Rightarrow> if n = [] then ''N/A'' else n @ ''.point''))"

definition getAddresses :: "wallet_env \<Rightarrow> string option result \<Rightarrow> (string \<times> string) list result" where
  "getAddresses W current =
     mapM_res (\<lambda>k. map_sum id (\<lambda>a. (k, a))
       (if k = wl_default W then getPointIdentity current else getWalletAddress W (Some k))) (keys (wl_networks W))"

section \<open>Subkeys\<close>

lemma read_u32_inj:
  "read_u32 a b c d = read_u32 a' b' c' d' \<longleftrightarrow> a = a' \<and> b = b' \<and> c = c' \<and> d = d'"
proof
  define n :: "char \<Rightarrow> char \<Rightarrow> char \<Rightarrow> char \<Rightarrow> nat" where
    "n a b c d = ((of_char a * 256 + of_char b) * 256 + of_char c) * 256 + of_char d" for a b c d
  have four: "((v * 256 + x) * 256 + y) * 256 + z < 4294967296"
    if "v < 256" "x < 256" "y < 256" "z < 256" for v x y z :: nat
    using that by simp
  have lt: "n a b c d < 4294967296" for a b c d
    unfolding n_def by (intro four of_char_less)
  assume "read_u32 a b c d = read_u32 a' b' c' d'"
  then have "(word_of_nat (n a b c d) :: 32 word) = word_of_nat (n a' b' c' d')"
    by (simp only: read_u32_def n_def)
  then have "n a b c d mod 2 ^ 32 = n a' b' c' d' mod 2 ^ 32"
    by (simp add: word_of_nat_eq_iff take_bit_eq_mod)
  then have n: "n a b c d = n a' b' c' d'" using lt by simp
  have split: "x * 256 + of_char c = y * 256 + of_char d \<longleftrightarrow> x = y \<and> c = d" for x y :: nat and c d :: char
  proof
    assume e: "x * 256 + of_char c = y * 256 + of_char d"
    have "x = (x * 256 + of_char c) div 256" "(of_char c :: nat) = (x * 256 + of_char c) mod 256"
      using of_char_less [of c] by simp_all
    moreover have "y = (y * 256 + of_char d) div 256" "(of_char d :: nat) = (y * 256 + of_char d) mod 256"
      using of_char_less [of d] by simp_all
    ultimately have "x = y" "(of_char c :: nat) = of_char d" using e by metis+
    then show "x = y \<and> c = d" by (simp add: of_char_eq_iff)
  qed simp
  have "(of_char a :: nat) = of_char a'" "b = b'" "c = c'" "d = d'"
    using n unfolding n_def by (simp_all only: split)
  then show "a = a' \<and> b = b' \<and> c = c' \<and> d = d'" by (simp add: of_char_eq_iff)
qed simp

lemma index_text_form:
  "\<exists>n < 2 ^ 31. index_text w = show_nat n \<and> unat w = n \<or>
      index_text w = show_nat n @ [CHR 0x27] \<and> unat w = n + 2 ^ 31"
proof (cases "0x80000000 \<le> w")
  case True
  then have "unat (w - 0x80000000) = unat w - 2 ^ 31"
    by (simp add: unat_sub)
  moreover have "2 ^ 31 \<le> unat w" using True by (simp add: word_le_nat_alt)
  moreover have "unat w < 2 ^ LENGTH(32)" by (rule unsigned_less)
  ultimately show ?thesis using True
    by (intro exI [of _ "unat w - 2 ^ 31"]) (simp add: index_text_def)
next
  case False
  then have "unat w < 2 ^ 31" by (simp add: word_le_nat_alt)
  then show ?thesis using False by (intro exI [of _ "unat w"]) (simp add: index_text_def)
qed

lemma show_nat_no_char: "\<not> is_digit c \<Longrightarrow> c \<notin> set (show_nat n)"
  using show_nat_digits [of n] by (auto simp: list_all_iff)

lemma prime_slash: "\<not> is_digit (CHR 0x27)" "\<not> is_digit (CHR ''/'')"
  by code_simp+

lemma index_text_inj: "index_text v = index_text w \<longleftrightarrow> v = w"
proof
  assume e: "index_text v = index_text w"
  obtain m where m: "index_text v = show_nat m \<and> unat v = m \<or> index_text v = show_nat m @ [CHR 0x27] \<and> unat v = m + 2 ^ 31"
    using index_text_form [of v] by blast
  obtain n where n: "index_text w = show_nat n \<and> unat w = n \<or> index_text w = show_nat n @ [CHR 0x27] \<and> unat w = n + 2 ^ 31"
    using index_text_form [of w] by blast
  have "show_nat m \<noteq> show_nat n @ [CHR 0x27]" "show_nat n \<noteq> show_nat m @ [CHR 0x27]"
    using show_nat_no_char [OF prime_slash(1)] by (metis in_set_conv_decomp)+
  with e m n have "unat v = unat w" by (auto simp: show_nat_inj)
  then show "v = w" by (simp add: word_unat_eq_iff)
qed simp

lemma path_indexes_inj:
  "length h = length h' \<Longrightarrow> 4 dvd length h \<Longrightarrow> path_indexes h = path_indexes h' \<Longrightarrow> h = h'"
proof (induction h arbitrary: h' rule: path_indexes.induct)
  case (1 a b c d s)
  then have "length h' = Suc (Suc (Suc (Suc (length s))))" by simp
  then obtain a' b' c' d' s' where h': "h' = a' # b' # c' # d' # s'" "length s' = length s"
    by (auto simp: length_Suc_conv)
  moreover have "4 dvd length s" using 1(3) by simp presburger
  ultimately show ?case using 1 by (auto simp: index_text_inj read_u32_inj)
qed (auto, presburger+)

lemma index_text_no_slash: "CHR ''/'' \<notin> set (index_text w)"
  using show_nat_no_char [OF prime_slash(2)] by (auto simp: index_text_def)

lemma path_indexes_texts: "t \<in> set (path_indexes h) \<Longrightarrow> \<exists>w. t = index_text w"
  by (induction h rule: path_indexes.induct) auto

text \<open>Different hashes give different derivation paths, so subkeys of different paths differ if the
  hash and the key derivation are injective, and every index of a path is below the bound of BIP 32.\<close>

theorem subkey_paths_distinct:
  assumes "length h = 32" "length h' = 32"
  shows "(derivation_path h = derivation_path h' \<longleftrightarrow> h = h') \<and>
    (\<forall>t \<in> set (path_indexes h). \<exists>n < 2 ^ 31. t = show_nat n \<or> t = show_nat n @ [CHR 0x27])"
proof
  have ne: "path_indexes h \<noteq> []" "path_indexes h' \<noteq> []"
    using assms by (auto simp: length_Suc_conv eval_nat_numeral)
  show "derivation_path h = derivation_path h' \<longleftrightarrow> h = h'"
  proof
    assume "derivation_path h = derivation_path h'"
    then have "join_ch ''/'' (path_indexes h) = join_ch ''/'' (path_indexes h')"
      by (simp add: derivation_path_def)
    then have "split_ch CHR ''/'' (join_ch ''/'' (path_indexes h)) = split_ch CHR ''/'' (join_ch ''/'' (path_indexes h'))"
      by simp
    then have "path_indexes h = path_indexes h'"
      using ne split_join [of _ "CHR ''/''"] index_text_no_slash path_indexes_texts by metis
    then show "h = h'" using path_indexes_inj [of h h'] assms by simp
  qed simp
  show "\<forall>t \<in> set (path_indexes h). \<exists>n < 2 ^ 31. t = show_nat n \<or> t = show_nat n @ [CHR 0x27]"
    using path_indexes_texts index_text_form by metis
qed

theorem subkey_paths_witness:
  "derivation_path (replicate 32 (CHR 0x00)) \<noteq> derivation_path (replicate 31 (CHR 0x00) @ [CHR 0x01])"
proof -
  have "replicate 32 (CHR 0x00) \<noteq> replicate 31 (CHR 0x00) @ [CHR 0x01]" by code_simp
  then show ?thesis
    using subkey_paths_distinct [of "replicate 32 (CHR 0x00)" "replicate 31 (CHR 0x00) @ [CHR 0x01]"] by simp
qed

section \<open>From the wallet to the chain\<close>

text \<open>C21: a transfer that the wallet accepted on an Ethereum network is sent by its confirmation, from
  the node's address, to the requested address with the requested value and on the requested network,
  and is then no longer pending.\<close>

theorem wallet_transfer_confirmed:
  assumes "wallet_sendTransaction W now reqId conns to network value messageId (pending st) = Inr (p, msgs, answer)"
    "net = (case network of Some n \<Rightarrow> n | None \<Rightarrow> wl_default W)"
    "map_option nw_type (obj_get (wl_networks W) net) = Some ''eth''"
    "obj_get (net_types env) net = Some ''eth''"
    "rq_method rq \<in> {''eth_confirmTransaction'', ''solana_confirmTransaction''}"
    "rq_params rq = Some [JObj [(''reqId'', JStr reqId)]]" "reqId \<noteq> []" "rq_id rq = Some i"
    "\<not> is_expired later (now + ttlMs (pending st), \<lparr>tx_params = [], tx_network = []\<rparr>)"
  shows "\<exists>v. wl_hexValue W value = Inr v \<and>
     (let st' = fst (handleRPC env later newId rq (st\<lparr>pending := p\<rparr>)) in
      calls st' = calls st @ [(Some reqId, EthSend ''eth_sendTransaction''
        (Some [JObj [(''from'', JStr (wl_owner W)), (''to'', JStr to), (''value'', JStr v)]]) i net)] \<and>
      find_pending later reqId (pending st') = (pending st', None))"
proof -
  from assms(3) obtain n where n: "obj_get (wl_networks W) net = Some n" "nw_type n = ''eth''" by auto
  from assms(1,2) n obtain v where v: "wl_hexValue W value = Inr v"
    by (auto simp: wallet_sendTransaction_def transaction_params_def by_type_def Let_def split: sum.splits)
  let ?tx = "\<lparr>tx_params = [JObj [(''from'', JStr (wl_owner W)), (''to'', JStr to), (''value'', JStr v)]], tx_network = net\<rparr>"
  have p: "p = add now reqId ?tx (pending st)"
    using assms(1) n v by (auto simp: wallet_sendTransaction_def transaction_params_def by_type_def Let_def
      submit_def add_pending_def assms(2) [symmetric])
  have "snd (find_pending later reqId p) = Some ?tx"
    using assms(9) by (simp add: p find_pending_def snd_get live_add_same is_expired_def)
  then obtain p1 where find: "find_pending later reqId p = (p1, Some ?tx)" by (cases "find_pending later reqId p") auto
  let ?c = "EthSend ''eth_sendTransaction'' (Some (tx_params ?tx)) i net"
  let ?st = "st\<lparr>pending := fst (rm_pending reqId p1), calls := calls st @ [(Some reqId, ?c)]\<rparr>"
  have confirm: "fst (confirmTransaction env later i rq (st\<lparr>pending := p\<rparr>)) = ?st"
    using assms(4,6,7) find
    by (auto simp: confirmTransaction_def confirm_call_def call_chain_def Let_def split: sum.splits)
  have "fst (handleRPC env later newId rq (st\<lparr>pending := p\<rparr>)) = ?st"
    using assms(5,8) confirm
    by (auto simp: handleRPC_def rpc_dispatch_def Let_def split: prod.splits sum.splits)
  moreover have "find_pending later reqId (fst (rm_pending reqId p1)) = (fst (rm_pending reqId p1), None)"
    by (simp add: find_pending_def rm_pending_def rm_def get_def checkExpired_def Let_def)
  ultimately show ?thesis using v by simp
qed

definition toy_wallet :: wallet_env where
  "toy_wallet = \<lparr>wl_networks = [(''ynet'', \<lparr>nw_type = ''eth'', nw_currency = ''POINT'', nw_decimals = JNum 18, nw_tokens = []\<rparr>)],
     wl_default = ''ynet'', wl_owner = ''0xa'', wl_address = ''0xa'', wl_solana = ''w'',
     wl_hexValue = (\<lambda>_. Inr ''0x7''), wl_encode = (\<lambda>_ _. []), wl_balance = (\<lambda>_. Inr 0), wl_call = (\<lambda>_ _ _. Inr 0),
     wl_formatUnits = (\<lambda>_ _. []), wl_history = (\<lambda>_. Inr JNull)\<rparr>"

definition toy_node :: rpc_env where
  "toy_node = \<lparr>net_types = [(''ynet'', ''eth'')], default_network = ''ynet'', chain = (\<lambda>_ _. Inr JNull),
     decode = (\<lambda>_ _ _ _. Inr JNull), network_public_key = []\<rparr>"

definition toy_pool :: rpc_state where
  "toy_pool = \<lparr>pending = new_pending 60, calls = []\<rparr>"

definition toy_confirm :: rpc_request where
  "toy_confirm = \<lparr>rq_id = Some 1, rq_method = ''eth_confirmTransaction'',
     rq_params = Some [JObj [(''reqId'', JStr ''r1'')]], rq_network = None, rq_target = None, rq_contract = None\<rparr>"

theorem wallet_transfer_witness:
  "\<exists>p. calls (fst (handleRPC toy_node 1000 ''r2'' toy_confirm (toy_pool\<lparr>pending := p\<rparr>))) =
     [(Some ''r1'', EthSend ''eth_sendTransaction''
        (Some [JObj [(''from'', JStr ''0xa''), (''to'', JStr ''0xb''), (''value'', JStr ''0x7'')]]) 1 ''ynet'')]"
proof -
  let ?run = "wallet_sendTransaction toy_wallet 5 ''r1'' [] ''0xb'' None ''7'' ''m'' (pending toy_pool)"
  have "is_ok ?run" by code_simp
  then obtain p msgs answer where run: "?run = Inr (p, msgs, answer)" by (cases ?run) auto
  have "\<exists>v. wl_hexValue toy_wallet ''7'' = Inr v \<and>
     (let st' = fst (handleRPC toy_node 1000 ''r2'' toy_confirm (toy_pool\<lparr>pending := p\<rparr>)) in
      calls st' = calls toy_pool @ [(Some ''r1'', EthSend ''eth_sendTransaction''
        (Some [JObj [(''from'', JStr (wl_owner toy_wallet)), (''to'', JStr ''0xb''), (''value'', JStr v)]]) 1 ''ynet'')] \<and>
      find_pending 1000 ''r1'' (pending st') = (pending st', None))"
    by (rule wallet_transfer_confirmed [OF run]) code_simp+
  then show ?thesis by (auto simp: toy_wallet_def toy_pool_def Let_def)
qed

end
