(* ===== verification/Api.thy ===== *)
theory Api
  imports Async ProxyApi Solana Renderer
begin

text \<open>
  The API server of a node: the route table of \<open>src/api/api_routes.js\<close>, the guards
  before every controller in \<open>src/api/server.ts\<close> and the identity of a request
  of \<open>src/api/middleware/identity.ts\<close>.  Fastify's matching of paths, the verification of
  tokens and the controllers are arguments; a controller is an asynchronous function of
  the state it shares with the others.
\<close>

section \<open>Routes\<close>

record route =
  rt_method :: string
  rt_url :: string
  rt_action :: string
  rt_protected :: bool
  rt_gatewayDisabled :: bool

definition rt :: "string \<Rightarrow> string \<Rightarrow> string \<Rightarrow> bool \<Rightarrow> bool \<Rightarrow> route" where
  "rt m u a p g = \<lparr>rt_method = m, rt_url = ''/v1/api'' @ u, rt_action = a, rt_protected = p, rt_gatewayDisabled = g\<rparr>"

definition identity_routes :: "route list" where
  "identity_routes =
    [rt ''GET'' ''/identity/identityToOwner/:identity'' ''IdentityController@identityToOwner'' True False,
     rt ''GET'' ''/identity/publicKeyByIdentity/:identity'' ''IdentityController@publicKeyByIdentity'' True False,
     rt ''GET'' ''/identity/ownerToIdentity/:owner'' ''IdentityController@ownerToIdentity'' True False,
     rt ''GET'' ''/identity/isIdentityEligible/:identity'' ''IdentityController@isIdentityEligible'' True False,
     rt ''GET'' ''/identity/isIdentityRegistered/'' ''IdentityController@isIdentityRegistered'' True False,
     rt ''GET'' ''/identity/identityRegistered'' ''IdentityController@identityRegistered'' True False,
     rt ''POST'' ''/identity/blockTimestamp'' ''IdentityController@blockTimestamp'' False False,
     rt ''POST'' ''/identity/open'' ''IdentityController@openLink'' True False,
     rt ''POST'' ''/identity/register'' ''IdentityController@registerIdentity'' True True,
     rt ''POST'' ''/identity/sub/register'' ''IdentityController@registerSubIdentity'' True True,
     rt ''GET'' ''/identity/resolve/:domain'' ''IdentityController@resolveDomain'' False False,
     rt ''POST'' ''/identity/ikvPut'' ''IdentityController@ikvPut'' True True]"

definition node_routes :: "route list" where
  "node_routes =
    [rt ''GET'' ''/status/ping'' ''PingController@ping'' False False,
     rt ''GET'' ''/status/meta'' ''StatusController@meta'' False False,
     rt ''POST'' ''/deploy'' ''DeployController@deploy'' False True,
     rt ''GET'' ''/migrate'' ''MigrateController@migrate'' True True,
     rt ''GET'' ''/deploy/progress'' ''DeployController@deployProgress'' False True]"

definition storage_routes :: "route list" where
  "storage_routes =
    [rt ''GET'' ''/storage/files/:id'' ''StorageController@fileById'' True False,
     rt ''POST'' ''/storage/pubsub/publish/:topic'' ''StorageController@pubsubPublish'' True False,
     rt ''POST'' ''/storage/pubsub/publishForIdentity'' ''StorageController@pubsubPublishForIdentity'' True False,
     rt ''POST'' ''/storage/pubsub/subscribe/:topic'' ''StorageController@pubsubSubscribe'' True False,
     rt ''POST'' ''/storage/pubsub/unsubscribe/:topic'' ''StorageController@pubsubUnsubscribe'' True False,
     rt ''GET'' ''/storage/getString/:id'' ''StorageController@getString'' True False,
     rt ''POST'' ''/storage/putString'' ''StorageController@putString'' True True,
     rt ''GET'' ''/storage/host/get'' ''StorageController@hostStorageGet'' True False,
     rt ''GET'' ''/storage/host/len'' ''StorageController@hostStorageLen'' True False,
     rt ''GET'' ''/storage/host/dir'' ''StorageController@hostStorageDir'' True False,
     rt ''POST'' ''/storage/host/set'' ''StorageController@hostStorageSet'' True False,
     rt ''POST'' ''/storage/host/unset'' ''StorageController@hostStorageUnset'' True False,
     rt ''POST'' ''/storage/host/append'' ''StorageController@hostStorageAppend'' True False,
     rt ''POST'' ''/storage/host/removeAt'' ''StorageController@hostStorageRemoveAt'' True False,
     rt ''POST'' ''/storage/host/replaceAt'' ''StorageController@hostStorageReplaceAt'' True False,
     rt ''POST'' ''/storage/host/insertAt'' ''StorageController@hostStorageInsertAt'' True False]"

definition wallet_routes :: "route list" where
  "wallet_routes =
    [rt ''GET'' ''/wallet/publicKey'' ''WalletController@publicKey'' True True,
     rt ''GET'' ''/wallet/balance'' ''WalletController@balance'' True True,
     rt ''GET'' ''/wallet/tokenBalance'' ''WalletController@tokenBalance'' True True,
     rt ''GET'' ''/wallet/address'' ''WalletController@address'' True False,
     rt ''GET'' ''/wallet/getNetworks'' ''WalletController@getNetworks'' True True,
     rt ''GET'' ''/wallet/getAddresses'' ''WalletController@getAddresses'' True True,
     rt ''GET'' ''/wallet/getBalances'' ''WalletController@getBalances'' True True,
     rt ''GET'' ''/wallet/getTokenBalances'' ''WalletController@getTokenBalances'' True True,
     rt ''GET'' ''/wallet/getIdentityNames'' ''WalletController@getIdentityNames'' True True,
     rt ''POST'' ''/wallet/encryptData'' ''WalletController@encryptData'' True True,
     rt ''POST'' ''/wallet/decryptData'' ''WalletController@decryptData'' True True,
     rt ''POST'' ''/wallet/decryptSymmetricKey'' ''WalletController@decryptSymmetricKey'' True True,
     rt ''POST'' ''/wallet/decryptDataWithDecryptedKey'' ''WalletController@decryptDataWithDecryptedKey'' True True]"

definition contract_routes :: "route list" where
  "contract_routes =
    [rt ''POST'' ''/contract/safe_call'' ''ContractController@safeCall'' False False,
     rt ''GET'' ''/contract/load/:contract'' ''ContractController@load'' True False,
     rt ''POST'' ''/contract/events'' ''ContractController@events'' True False,
     rt ''POST'' ''/web2/open'' ''Web2Controller@open'' False False,
     rt ''POST'' ''/blockchain'' ''BlockchainController@request'' True True,
     rt ''GET'' ''/blockchain/networks'' ''BlockchainController@networks'' True False,
     rt ''POST'' ''/contract/encodeFunctionCall'' ''ContractController@encodeFunctionCall'' False False,
     rt ''POST'' ''/contract/decodeParameters'' ''ContractController@decodeParameters'' False False,
     rt ''GET'' ''/contract/listEvents/:identity'' ''ContractController@listEvents'' False False]"

definition api_routes :: "route list" where
  "api_routes = identity_routes @ node_routes @ storage_routes @ wallet_routes @ contract_routes"

section \<open>Requests and replies\<close>

text \<open>What Fastify parsed of a request; a missing body is null, a JSON body an object.\<close>

record api_req =
  aq_method :: string
  aq_host :: "string option"
  aq_hostname :: string
  aq_token :: "string option"
  aq_body :: "json option"
  aq_params :: "(string, string) obj"
  aq_query :: "(string, string) obj"

text \<open>\<open>Payload\<close> is what \<open>_response\<close> returns, \<open>Reply\<close> what a handler sent itself.\<close>

datatype api_reply =
    Payload nat json
  | Reply nat json
  | Html nat string

record api_env =
  is_gateway :: bool
  csrf_enabled :: bool
  api_test_mode :: bool
  jwt_valid :: "string \<Rightarrow> bool"

definition param :: "string \<Rightarrow> (string, string) obj \<Rightarrow> string" where
  "param k m = (case obj_get m k of Some s \<Rightarrow> s | None \<Rightarrow> [])"

text \<open>\<open>request.body._csrf\<close>: reading a field of null throws.\<close>

definition body_field :: "string \<Rightarrow> json option \<Rightarrow> json option result" where
  "body_field k b = (case b of None \<Rightarrow> Inl TypeError | Some JNull \<Rightarrow> Inl TypeError | Some j \<Rightarrow> Inr (jget k j))"

definition bare_jwt :: "string \<Rightarrow> string" where
  "bare_jwt jwt = (if starts_with ''Bearer'' jwt \<and> length jwt > 6 \<and> is_space (jwt ! 6) then drop 7 jwt else jwt)"

section \<open>The guards of a route\<close>

text \<open>The answer of the guards, if they give one.\<close>

definition csrf_check :: "api_env \<Rightarrow> csrf_tokens \<Rightarrow> api_req \<Rightarrow> api_reply option result" where
  "csrf_check env tokens q =
     (if csrf_enabled env \<and> aq_method q = ''POST'' \<and> aq_host q = Some ''point'' then
        if \<not> truthy (obj_get tokens ''point'') then Inr (Some (Reply 403 (JStr ''No csrf token generated for this host'')))
        else case body_field ''_csrf'' (aq_body q) of
               Inl e \<Rightarrow> Inl e
             | Inr c \<Rightarrow> if c \<noteq> map_option JStr (obj_get tokens ''point'')
                 then Inr (Some (Reply 403 (JStr ''Invalid csrf token submitted''))) else Inr None
      else Inr None)"

definition token_check :: "api_env \<Rightarrow> route \<Rightarrow> api_req \<Rightarrow> api_reply option" where
  "token_check env r q =
     (if rt_protected r \<and> \<not> api_test_mode env then
        case aq_token q of
          None \<Rightarrow> Some (Reply 401 (JStr ''Unauthorized''))
        | Some jwt \<Rightarrow> if jwt = [] \<or> \<not> jwt_valid env (bare_jwt jwt) then Some (Reply 401 (JStr ''Unauthorized'')) else None
      else None)"

definition api_guard :: "api_env \<Rightarrow> csrf_tokens \<Rightarrow> route \<Rightarrow> api_req \<Rightarrow> api_reply option result" where
  "api_guard env tokens r q =
     (case csrf_check env tokens q of
        Inr None \<Rightarrow> Inr (token_check env r q)
      | answer \<Rightarrow> answer)"

section \<open>The server\<close>

definition served_routes :: "api_env \<Rightarrow> route list" where
  "served_routes env = filter (\<lambda>r. \<not> (is_gateway env \<and> rt_gatewayDisabled r)) api_routes"

definition api_error :: "exn \<Rightarrow> api_reply" where
  "api_error e =
     Reply 500 (JStr (transformErrorResp 500
       (case e of DisplayableError m \<Rightarrow> m | _ \<Rightarrow> ''Internal engine error'')))"

text \<open>A request: its route, its identity, the guards, then the controller.\<close>

definition api_server ::
  "api_env \<Rightarrow> (route \<Rightarrow> api_req \<Rightarrow> bool) \<Rightarrow> (api_req \<Rightarrow> ('s, string) act) \<Rightarrow>
   (string \<Rightarrow> string \<Rightarrow> api_req \<Rightarrow> ('s, api_reply) act) \<Rightarrow> csrf_tokens \<Rightarrow> api_req \<Rightarrow> ('s, api_reply) act" where
  "api_server env fits identityMdw controllers tokens q =
     (case find (\<lambda>r. rt_method r = aq_method q \<and> fits r q) (served_routes env) of
        None \<Rightarrow> retA (Html 404 ''Not Found'')
      | Some r \<Rightarrow>
          catchA
            (await (identityMdw q) (\<lambda>identity.
             await (liftR (api_guard env tokens r q)) (\<lambda>answer.
               case answer of
                 Some a \<Rightarrow> retA a
               | None \<Rightarrow> controllers (rt_action r) identity q)))
            (\<lambda>e. retA (api_error e)))"

text \<open>The identity of the host: for the domains of other name services the one in their record.\<close>

definition identityMdw ::
  "(string \<Rightarrow> ('s, domain_registry) act) \<Rightarrow> (string \<Rightarrow> ('s, domain_registry) act) \<Rightarrow>
   (string \<Rightarrow> string) \<Rightarrow> (string \<Rightarrow> string) \<Rightarrow> api_req \<Rightarrow> ('s, string) act" where
  "identityMdw ens sns keccak checksum q =
     (let named = (\<lambda>r. pd_identity (parseDomainRegistry keccak checksum (dr_content r)));
          host = (case aq_host q of Some h \<Rightarrow> h | None \<Rightarrow> []) in
      if ends_with ''.eth'' host then await (ens (aq_hostname q)) (\<lambda>r. retA (named r))
      else if ends_with ''.sol'' host then await (sns (aq_hostname q)) (\<lambda>r. retA (named r))
      else retA (if host = [] then aq_hostname q else host))"

section \<open>What the guards ensure\<close>

definition authorised :: "api_env \<Rightarrow> csrf_tokens \<Rightarrow> route \<Rightarrow> api_req \<Rightarrow> bool" where
  "authorised env tokens r q \<longleftrightarrow>
     (csrf_enabled env \<and> aq_method q = ''POST'' \<and> aq_host q = Some ''point'' \<longrightarrow>
        (\<exists>t j. obj_get tokens ''point'' = Some t \<and> t \<noteq> [] \<and> aq_body q = Some j \<and> jget ''_csrf'' j = Some (JStr t))) \<and>
     (rt_protected r \<and> \<not> api_test_mode env \<longrightarrow> (\<exists>jwt. aq_token q = Some jwt \<and> jwt_valid env (bare_jwt jwt))) \<and>
     (is_gateway env \<longrightarrow> \<not> rt_gatewayDisabled r)"

fun refusal :: "api_reply \<Rightarrow> bool" where
  "refusal (Reply n _) = (n = 401 \<or> n = 403 \<or> n = 500)"
| "refusal (Html n _) = (n = 404)"
| "refusal (Payload _ _) = False"

lemma csrf_check_passed:
  assumes "csrf_check env tokens q = Inr None" "csrf_enabled env" "aq_method q = ''POST''" "aq_host q = Some ''point''"
  shows "\<exists>t j. obj_get tokens ''point'' = Some t \<and> t \<noteq> [] \<and> aq_body q = Some j \<and> jget ''_csrf'' j = Some (JStr t)"
  using assms
  by (cases "obj_get tokens ''point''"; cases "aq_body q")
    (auto simp: csrf_check_def body_field_def truthy_def split: if_splits sum.splits json.splits)

lemma token_check_passed:
  "token_check env r q = None \<Longrightarrow> rt_protected r \<Longrightarrow> \<not> api_test_mode env \<Longrightarrow>
     \<exists>jwt. aq_token q = Some jwt \<and> jwt_valid env (bare_jwt jwt)"
  by (auto simp: token_check_def split: option.splits if_splits)

lemma api_guard_passed:
  assumes "api_guard env tokens r q = Inr None" "r \<in> set (served_routes env)"
  shows "authorised env tokens r q"
proof -
  have "csrf_check env tokens q = Inr None" "token_check env r q = None"
    using assms(1) by (auto simp: api_guard_def split: sum.splits option.splits)
  with csrf_check_passed [of env tokens q] token_check_passed [of env r q] assms(2) show ?thesis
    unfolding authorised_def by (auto simp: served_routes_def)
qed

lemma api_guard_refuses: "api_guard env tokens r q = Inr (Some a) \<Longrightarrow> refusal a"
  by (auto simp: api_guard_def csrf_check_def token_check_def split: sum.splits option.splits if_splits)

text \<open>The route that Fastify chooses for a request.\<close>

definition chosen :: "api_env \<Rightarrow> (route \<Rightarrow> api_req \<Rightarrow> bool) \<Rightarrow> api_req \<Rightarrow> route option" where
  "chosen env fits q = find (\<lambda>r. rt_method r = aq_method q \<and> fits r q) (served_routes env)"

lemma chosen_served: "chosen env fits q = Some r \<Longrightarrow> r \<in> set (served_routes env) \<and> rt_method r = aq_method q"
  by (auto simp: chosen_def find_Some_iff)

lemma api_server_cases:
  assumes "api_server env fits mdw ctl tokens q st = (st', out)"
  obtains (refused) a where "out = Ret a" "refusal a" "st' = st \<or> st' = fst (mdw q st)"
  | (waits) "st' = fst (mdw q st)"  "\<not> (\<exists>i. snd (mdw q st) = Ret i)"
  | (runs) r i st1 where "chosen env fits q = Some r" "authorised env tokens r q" "mdw q st = (st1, Ret i)"
      "(st', out) = catchA (ctl (rt_action r) i q) (\<lambda>e. retA (api_error e)) st1"
proof (cases "chosen env fits q")
  case None
  with assms refused show ?thesis by (auto simp: api_server_def chosen_def retA_def)
next
  case (Some r)
  obtain st1 x where m: "mdw q st = (st1, x)" by (cases "mdw q st")
  note u = assms [unfolded api_server_def, folded chosen_def, unfolded Some option.case]
  show ?thesis
  proof (cases x)
    case (Ret i)
    show ?thesis
    proof (cases "api_guard env tokens r q")
      case (Inl e)
      with u m Ret refused [of "api_error e"] show ?thesis by (auto simp: catchA_def retA_def throwA_def api_error_def)
    next
      case (Inr ans)
      show ?thesis
      proof (cases ans)
        case None
        with u m Ret Inr runs [OF Some api_guard_passed] chosen_served [OF Some] show ?thesis
          by (auto simp: catchA_def)
      next
        case (Some a)
        with u m Ret Inr refused [of a] api_guard_refuses [of env tokens r q a] show ?thesis
          by (auto simp: catchA_def retA_def)
      qed
    qed
  next
    case (Throw e)
    with u m refused [of "api_error e"] show ?thesis by (auto simp: catchA_def retA_def api_error_def)
  next
    case (WaitFor ev k)
    with u m waits show ?thesis by (auto simp: catchA_def)
  qed
qed

text \<open>C23: A request that is not authorised for its route is answered with a refusal, and neither a
  controller nor anything but the lookup of the host's identity has run; authorised means that on
  the node's own page its token was sent, on a protected route the node's secret token, and that
  the route is not one that a gateway leaves out.\<close>

theorem unauthorised_requests_refused:
  assumes "\<And>r. chosen env fits q = Some r \<Longrightarrow> \<not> authorised env tokens r q"
    and "mdw q st = (st1, Ret i) \<or> mdw q st = (st1, Throw e)"
  shows "\<exists>a. api_server env fits mdw ctl tokens q st = (if chosen env fits q = None then st else st1, Ret a) \<and> refusal a"
proof (cases "chosen env fits q")
  case None
  then show ?thesis by (auto simp: api_server_def chosen_def retA_def)
next
  case (Some r)
  obtain st' out where s: "api_server env fits mdw ctl tokens q st = (st', out)" by (cases "api_server env fits mdw ctl tokens q st")
  have g: "api_guard env tokens r q \<noteq> Inr None"
    using api_guard_passed [of env tokens r q] assms(1) [OF Some] chosen_served [OF Some] by blast
  from assms(2) show ?thesis
  proof
    assume m: "mdw q st = (st1, Throw e)"
    then show ?thesis using Some by (auto simp: api_server_def chosen_def catchA_def retA_def api_error_def)
  next
    assume m: "mdw q st = (st1, Ret i)"
    show ?thesis
    proof (cases "api_guard env tokens r q")
      case (Inl e)
      with m Some show ?thesis by (auto simp: api_server_def chosen_def catchA_def retA_def throwA_def api_error_def)
    next
      case (Inr ans)
      with g obtain a where "ans = Some a" by (cases ans) auto
      with Inr m Some api_guard_refuses [of env tokens r q a] show ?thesis
        by (auto simp: api_server_def chosen_def catchA_def retA_def)
    qed
  qed
qed

definition toy_server :: api_env where
  "toy_server = \<lparr>is_gateway = False, csrf_enabled = True, api_test_mode = False, jwt_valid = (\<lambda>t. t = ''secret'')\<rparr>"

definition toy_ask :: "string option \<Rightarrow> string \<Rightarrow> (string \<times> json) list \<Rightarrow> api_req" where
  "toy_ask host url body = \<lparr>aq_method = ''POST'', aq_host = host, aq_hostname = ''localhost'', aq_token = Some ''Bearer secret'',
     aq_body = Some (JObj body), aq_params = [], aq_query = [(''url'', url)]\<rparr>"

definition toy_fits :: "route \<Rightarrow> api_req \<Rightarrow> bool" where
  "toy_fits r q = (rt_url r = param ''url'' (aq_query q))"

lemma unauthorised_requests_refused_witness:
  "\<exists>a. api_server toy_server toy_fits (\<lambda>_. retA ''point'') (\<lambda>_ _ _ n. (Suc n, Ret (Payload 200 JNull))) [(''point'', ''t'')]
     (toy_ask (Some ''point'') ''/v1/api/identity/register'' []) (0::nat) = (0, Ret a) \<and> refusal a"
proof -
  let ?q = "toy_ask (Some ''point'') ''/v1/api/identity/register'' []"
  have c: "chosen toy_server toy_fits ?q = Some (identity_routes ! 8)" by code_simp
  have "\<not> authorised toy_server [(''point'', ''t'')] (identity_routes ! 8) ?q"
    by (simp add: authorised_def toy_server_def toy_ask_def)
  with unauthorised_requests_refused [where env = toy_server and fits = toy_fits and q = ?q and tokens = "[(''point'', ''t'')]"
      and mdw = "\<lambda>_. retA ''point''" and st = "0::nat" and ctl = "\<lambda>_ _ _ n. (Suc n, Ret (Payload 200 JNull))"] c
  show ?thesis by (auto simp: retA_def)
qed

text \<open>Every operation of the wallet, of the storage and of the identities that changes something is
  behind the token; these are all the actions that are not.\<close>

theorem open_actions:
  "map rt_action (filter (\<lambda>r. \<not> rt_protected r) api_routes) =
    [''IdentityController@blockTimestamp'', ''IdentityController@resolveDomain'', ''PingController@ping'',
     ''StatusController@meta'', ''DeployController@deploy'', ''DeployController@deployProgress'',
     ''ContractController@safeCall'', ''Web2Controller@open'', ''ContractController@encodeFunctionCall'',
     ''ContractController@decodeParameters'', ''ContractController@listEvents'']"
  by code_simp

lemma routes_distinct: "distinct (map (\<lambda>r. (rt_method r, rt_url r)) api_routes)"
  by code_simp

lemma migration_is_no_controller:
  "rt_action (api_routes ! 15) = ''MigrateController@migrate''"
  by code_simp

end
