(* ===== verification/Registration.thy ===== *)
theory Registration
  imports Identity Api
begin

text \<open>
  \<open>src/api/controllers/IdentityController.js\<close>: looking up identities and registering the
  identity of the node.  The state holds the caches of the name services and the
  history of what the node asked of the oracle and sent to the chain; the oracle and the
  chain answer given that history.  A field of a request is a string or missing.
\<close>

section \<open>State and environment\<close>

datatype oracle_call =
    Eligible string
  | ActivateFree string string
  | ActivateTweet string string string

datatype node_effect =
    AskOracle oracle_call
  | Register registration
  | OpenLink string
  | SendTransaction string string string

record 'ch node =
  n_identities :: identity_cache
  n_ens :: ens_cache
  n_sol :: "'ch sol_state"
  n_effects :: "node_effect list"

type_synonym ('ch, 'a) ctl = "('ch node, 'a) act"

record 'ch ident_env =
  ie_mode :: string
  use_oracle :: string
  ie_identity :: identity_env
  ie_ens :: ens_env
  ie_sns :: "'ch sns_env"
  ie_keccak :: "string \<Rightarrow> string"
  ie_checksum :: "string \<Rightarrow> string"
  ie_sha256 :: "string \<Rightarrow> string"
  ie_id_hash :: "string \<Rightarrow> string"
  oracle_http :: "node_effect list \<Rightarrow> string \<Rightarrow> json result"
  contract_send :: "node_effect list \<Rightarrow> registration \<Rightarrow> unit result"
  contract_owner :: "node_effect list \<Rightarrow> string \<Rightarrow> string result"
  contract_key :: "node_effect list \<Rightarrow> string \<Rightarrow> string + (string \<times> string)"
  block_timestamp :: "json option \<Rightarrow> json result"
  eth_isAddress :: "string \<Rightarrow> bool"
  encode_call :: "string list \<Rightarrow> string result"
  relay :: "node_effect list \<Rightarrow> json list \<Rightarrow> string \<Rightarrow> json result"
  open_link :: "string \<Rightarrow> unit result"
  ie_network :: string
  ie_contract :: string

definition own_address :: "'ch ident_env \<Rightarrow> string" where
  "own_address env = networkAddress (ie_identity env)"

definition own_key :: "'ch ident_env \<Rightarrow> string" where
  "own_key env = networkPublicKey (ie_identity env)"

definition ADDRESS_ZERO :: string where
  "ADDRESS_ZERO = ''0x'' @ replicate 40 CHR ''0''"

definition effectA :: "node_effect \<Rightarrow> ('ch, unit) ctl" where
  "effectA e st = (st\<lparr>n_effects := n_effects st @ [e]\<rparr>, Ret ())"

text \<open>An answer that depends on what was done before.\<close>

definition answerA :: "(node_effect list \<Rightarrow> 'a result) \<Rightarrow> ('ch, 'a) ctl" where
  "answerA f st = liftR (f (n_effects st)) st"

definition ensA :: "'ch ident_env \<Rightarrow> string \<Rightarrow> ('ch, domain_registry) ctl" where
  "ensA env d st =
     (case resolveDomain (ie_ens env) (sol_clock (n_sol st)) d ''ethereum'' (n_ens st) of
        (c, r) \<Rightarrow> (st\<lparr>n_ens := c\<rparr>, case r of Inl m \<Rightarrow> Throw (PlainError m) | Inr x \<Rightarrow> Ret x))"

definition snsA :: "'ch ident_env \<Rightarrow> string \<Rightarrow> ('ch, domain_registry) ctl" where
  "snsA env d st =
     (case sns_resolveDomain (ie_sns env) d ''solana'' (n_sol st) of (s, r) \<Rightarrow> (st\<lparr>n_sol := s\<rparr>, r))"

definition identityA :: "'ch ident_env \<Rightarrow> identity_params \<Rightarrow> ('ch, identity_data) ctl" where
  "identityA env ps st =
     (case getIdentity (ie_identity env) (sol_clock (n_sol st)) ps (n_identities st) of
        (c, d) \<Rightarrow> (st\<lparr>n_identities := c\<rparr>, Ret d))"

text \<open>The fields of an answer; undefined ones are left out.\<close>

definition fields :: "(string \<times> json option) list \<Rightarrow> json" where
  "fields xs = JObj (concat (map (\<lambda>(k, v). case v of Some j \<Rightarrow> [(k, j)] | None \<Rightarrow> []) xs))"

definition respond :: "json \<Rightarrow> ('ch, api_reply) ctl" where
  "respond j = retA (Payload 200 j)"

definition null_or :: "string option \<Rightarrow> json" where
  "null_or s = (case s of Some t \<Rightarrow> JStr t | None \<Rightarrow> JNull)"

section \<open>The oracle\<close>

text \<open>\<open>encodeURIComponent\<close> on bytes.\<close>

definition uri_plain :: "char \<Rightarrow> bool" where
  "uri_plain c \<longleftrightarrow> c \<in> set (''ABCDEFGHIJKLMNOPQRSTUVWXYZabcdefghijklmnopqrstuvwxyz0123456789-_.!~*()'' @ [CHR 0x27])"

definition upper_char :: "char \<Rightarrow> char" where
  "upper_char c = (let n = of_char c :: nat in if 97 \<le> n \<and> n \<le> 122 then char_of (n - 32) else c)"

definition encodeURIComponent :: "string \<Rightarrow> string" where
  "encodeURIComponent s = concat (map (\<lambda>c. if uri_plain c then [c] else CHR ''%'' # map upper_char (hex_encode [c])) s)"

definition twitterOracleUrl :: string where
  "twitterOracleUrl = ''https://twitter-oracle.point.space''"

fun oracle_url :: "oracle_call \<Rightarrow> string" where
  "oracle_url (Eligible i) = twitterOracleUrl @ ''/api/eligible?handle='' @ i"
| "oracle_url (ActivateFree i a) = twitterOracleUrl @ ''/api/activate_free?handle='' @ i @ ''&address='' @ a"
| "oracle_url (ActivateTweet i a u) =
     twitterOracleUrl @ ''/api/activate_tweet?handle='' @ i @ ''&address='' @ a @ ''&url='' @ encodeURIComponent u"

definition signed_ok :: json where
  "signed_ok = JObj [(''success'', JBool True), (''v'', JStr ''v''), (''r'', JStr ''r''), (''s'', JStr ''s'')]"

fun mock_oracle :: "oracle_call \<Rightarrow> json" where
  "mock_oracle (Eligible i) =
     (if starts_with ''tweet'' i then JObj [(''eligibility'', JStr ''tweet'')]
      else if starts_with ''taken'' i then JObj [(''eligibility'', JStr ''taken''), (''reason'', JStr ''taken reason'')]
      else if starts_with ''unavailable'' i
           then JObj [(''eligibility'', JStr ''unavailable''), (''reason'', JStr ''unavailable reason'')]
      else JObj [(''eligibility'', JStr ''free'')])"
| "mock_oracle (ActivateFree _ _) = signed_ok"
| "mock_oracle (ActivateTweet _ _ _) = signed_ok"

definition mocked :: "'ch ident_env \<Rightarrow> bool" where
  "mocked env \<longleftrightarrow> ie_mode env \<in> set [''e2e'', ''zappdev'', ''test''] \<and> use_oracle env \<noteq> ''true''"

text \<open>The answer is destructured: a field of null throws.\<close>

definition oracle_answer :: "'ch ident_env \<Rightarrow> node_effect list \<Rightarrow> oracle_call \<Rightarrow> json result" where
  "oracle_answer env history c =
     (if mocked env then Inr (mock_oracle c)
      else case oracle_http env history (oracle_url c) of
             Inl e \<Rightarrow> Inl e | Inr JNull \<Rightarrow> Inl TypeError | Inr j \<Rightarrow> Inr j)"

definition TwitterOracle :: "'ch ident_env \<Rightarrow> oracle_call \<Rightarrow> ('ch, json) ctl" where
  "TwitterOracle env c =
     await (answerA (\<lambda>h. Inr h)) (\<lambda>h. await (effectA (AskOracle c)) (\<lambda>_. liftR (oracle_answer env h c)))"

section \<open>Codes and hashes\<close>

definition with_0x :: "string \<Rightarrow> string" where
  "with_0x owner = (if starts_with ''0x'' (to_lower owner) then to_lower owner else ''0x'' @ to_lower owner)"

definition getIdentityActivationCode :: "'ch ident_env \<Rightarrow> string \<Rightarrow> string" where
  "getIdentityActivationCode env owner = drop 32 (to_lower (hex_encode (ie_sha256 env (with_0x owner))))"

definition getHashedMessage :: "'ch ident_env \<Rightarrow> string \<Rightarrow> string \<Rightarrow> string \<Rightarrow> string" where
  "getHashedMessage env identity owner kind =
     ie_id_hash env (to_lower identity @ ''|'' @ with_0x owner @ ''|'' @ kind)"

section \<open>Registering\<close>

definition contractA :: "'ch ident_env \<Rightarrow> string + registration \<Rightarrow> ('ch, unit) ctl" where
  "contractA env r =
     (case r of
        Inl m \<Rightarrow> throwA (PlainError m)
      | Inr g \<Rightarrow> await (answerA (\<lambda>h. Inr h)) (\<lambda>h. await (effectA (Register g)) (\<lambda>_. liftR (contract_send env h g))))"

definition plain_registration :: "'ch ident_env \<Rightarrow> bool" where
  "plain_registration env \<longleftrightarrow> (ie_mode env = ''e2e'' \<or> ie_mode env = ''zappdev'') \<and> use_oracle env \<noteq> ''true''"

text \<open>The inner function \<open>register\<close>: the contract first, then the cache.\<close>

definition sign_part :: "string \<Rightarrow> json \<Rightarrow> json" where
  "sign_part k sign = (case jget k sign of Some j \<Rightarrow> j | None \<Rightarrow> JNull)"

definition register :: "'ch ident_env \<Rightarrow> string \<Rightarrow> string \<Rightarrow> json \<Rightarrow> ('ch, unit) ctl" where
  "register env identity kind sign =
     (let owner = own_address env; key = hex_decode (own_key env) in
      await (contractA env
        (if plain_registration env then registerIdentity identity owner key
         else registerVerified identity owner key (JStr (getHashedMessage env identity owner kind))
                (sign_part ''s'' sign) (sign_part ''r'' sign) (sign_part ''v'' sign)))
        (\<lambda>_ st. (st\<lparr>n_identities := addToCache (sol_clock (n_sol st))
             \<lparr>id_name = Some identity, id_address = owner, id_publicKey = own_key env, id_network = ''point''\<rparr>
             (n_identities st)\<rparr>, Ret ())))"

definition failed :: "exn \<Rightarrow> json" where
  "failed e = JObj [(''success'', JBool False), (''reason'', JStr (error_message e))]"

definition registered_reply :: "json" where
  "registered_reply = JObj [(''success'', JBool True)]"

text \<open>With the oracle's answer to an activation: refuse, or register and report an error.\<close>

definition oracle_ok :: "json \<Rightarrow> bool" where
  "oracle_ok answer \<longleftrightarrow> (case jget ''success'' answer of Some j \<Rightarrow> truthy_json j | None \<Rightarrow> False)"

definition finish_registration :: "'ch ident_env \<Rightarrow> string \<Rightarrow> string \<Rightarrow> json \<Rightarrow> ('ch, api_reply) ctl" where
  "finish_registration env identity kind answer =
     (if \<not> oracle_ok answer
      then respond (fields [(''success'', jget ''success'' answer), (''reason'', jget ''reason'' answer)])
      else catchA (await (register env identity kind answer) (\<lambda>_. respond registered_reply))
             (\<lambda>e. respond (failed e)))"

definition str_field :: "string \<Rightarrow> json \<Rightarrow> string option" where
  "str_field k b = jstr (jget k b)"

definition given :: "string option \<Rightarrow> bool" where
  "given s \<longleftrightarrow> (case s of Some t \<Rightarrow> t \<noteq> [] | None \<Rightarrow> False)"

definition forbidden :: "string \<Rightarrow> ('ch, api_reply) ctl" where
  "forbidden m = retA (Reply 403 (JStr m))"

definition csrf_matches :: "csrf_tokens \<Rightarrow> json \<Rightarrow> bool" where
  "csrf_matches tokens b \<longleftrightarrow> jget ''_csrf'' b = map_option JStr (obj_get tokens ''point'')"

text \<open>A handler that reads the body: null is a \<open>TypeError\<close>.\<close>

definition with_body :: "api_req \<Rightarrow> (json \<Rightarrow> ('ch, api_reply) ctl) \<Rightarrow> ('ch, api_reply) ctl" where
  "with_body q f = (case aq_body q of None \<Rightarrow> throwA TypeError | Some JNull \<Rightarrow> throwA TypeError | Some b \<Rightarrow> f b)"

definition from_point :: "csrf_tokens \<Rightarrow> api_req \<Rightarrow> json \<Rightarrow> ('ch, api_reply) ctl \<Rightarrow> ('ch, api_reply) ctl" where
  "from_point tokens q b m =
     (if aq_host q \<noteq> Some ''point'' then forbidden ''Forbidden''
      else if \<not> csrf_matches tokens b then forbidden ''CSRF token invalid''
      else m)"

definition free_registration :: "'ch ident_env \<Rightarrow> string \<Rightarrow> ('ch, api_reply) ctl" where
  "free_registration env identity =
     await (TwitterOracle env (Eligible identity)) (\<lambda>answer.
       if jget ''eligibility'' answer = Some (JStr ''free'') then
         await (TwitterOracle env (ActivateFree identity (own_address env))) (finish_registration env identity ''free'')
       else if jget ''eligibility'' answer = Some (JStr ''tweet'') then
         respond (fields [(''code'', Some (JStr (getIdentityActivationCode env (own_address env))))])
       else respond (fields [(''eligibility'', jget ''eligibility'' answer), (''reason'', jget ''reason'' answer)]))"

definition registerIdentity_action :: "'ch ident_env \<Rightarrow> csrf_tokens \<Rightarrow> api_req \<Rightarrow> ('ch, api_reply) ctl" where
  "registerIdentity_action env tokens q =
     with_body q (\<lambda>b. from_point tokens q b
       (case str_field ''identity'' b of
          None \<Rightarrow> throwA TypeError
        | Some identity \<Rightarrow>
            if given (str_field ''code'' b) \<and> given (str_field ''url'' b) then
              await (TwitterOracle env (ActivateTweet identity (own_address env) (the (str_field ''url'' b))))
                (finish_registration env identity ''taken'')
            else free_registration env identity))"

definition registerSubIdentity_action :: "'ch ident_env \<Rightarrow> csrf_tokens \<Rightarrow> api_req \<Rightarrow> ('ch, api_reply) ctl" where
  "registerSubIdentity_action env tokens q =
     with_body q (\<lambda>b. from_point tokens q b
       (case (str_field ''subidentity'' b, str_field ''parentIdentity'' b) of
          (Some s, Some p) \<Rightarrow>
            await (contractA env (registerSubIdentity s p (own_address env) (hex_decode (own_key env))))
              (\<lambda>_. respond (JObj [(''message'', JStr ''subidentity registered.'')]))
        | _ \<Rightarrow> throwA TypeError))"

section \<open>Lookups\<close>

definition with_status :: "nat \<Rightarrow> json \<Rightarrow> ('ch, api_reply) ctl" where
  "with_status n j = retA (Payload n j)"

definition isIdentityRegistered :: "'ch ident_env \<Rightarrow> ('ch, api_reply) ctl" where
  "isIdentityRegistered env =
     await (identityA env \<lparr>solAddress = [], ethAddress = [], targets = [], solNetwork = [], ethNetwork = []\<rparr>)
       (\<lambda>d. respond (JObj [(''identityRegistred'', JBool (has_name d)), (''identity'', null_or (id_name d)),
          (''address'', JStr (id_address d)), (''publicKey'', JStr (id_publicKey d)), (''network'', JStr (id_network d))]))"

text \<open>Without the parameter the handler reads \<open>this.res\<close>, which does not exist.\<close>

definition identityRegistered :: "'ch ident_env \<Rightarrow> api_req \<Rightarrow> ('ch, api_reply) ctl" where
  "identityRegistered env q =
     (if param ''identity'' (aq_query q) = [] then throwA TypeError
      else await (answerA (\<lambda>h. contract_owner env h (param ''identity'' (aq_query q)))) (\<lambda>owner.
        retA (Reply 200 (JObj [(''identityRegistered'',
          if owner = [] then JStr [] else JBool (owner \<noteq> ADDRESS_ZERO))]))))"

definition owner_reply :: "json \<Rightarrow> string \<Rightarrow> json \<Rightarrow> json" where
  "owner_reply owner network point_address =
     JObj [(''owner'', owner), (''network'', JStr network), (''pointAddress'', point_address)]"

definition registry_data :: "'ch ident_env \<Rightarrow> domain_registry \<Rightarrow> point_domain" where
  "registry_data env r = parseDomainRegistry (ie_keccak env) (ie_checksum env) (dr_content r)"

definition identityToOwner :: "'ch ident_env \<Rightarrow> api_req \<Rightarrow> ('ch, api_reply) ctl" where
  "identityToOwner env q =
     (let identity = param ''identity'' (aq_params q) in
      if ends_with ''.sol'' identity then
        await (snsA env identity) (\<lambda>r. respond (owner_reply (null_or (dr_owner r)) ''solana''
          (JStr (pointAddress (registry_data env r)))))
      else if ends_with ''.eth'' identity then
        await (ensA env identity) (\<lambda>r. respond (owner_reply (null_or (dr_owner r)) ''ethereum'' (null_or (dr_owner r))))
      else await (answerA (\<lambda>h. contract_owner env h identity)) (\<lambda>a. respond (owner_reply (JStr a) ''point'' (JStr a))))"

definition ownerToIdentity :: "'ch ident_env \<Rightarrow> api_req \<Rightarrow> ('ch, api_reply) ctl" where
  "ownerToIdentity env q =
     (let owner = param ''owner'' (aq_params q);
          ask = \<lambda>ps. await (identityA env ps) (\<lambda>d. respond (JObj [(''identity'', null_or (id_name d))]))
      in if isAddress (ie_sns env) owner
         then ask \<lparr>solAddress = owner, ethAddress = [], targets = [''solana''], solNetwork = [], ethNetwork = []\<rparr>
         else if eth_isAddress env owner
         then ask \<lparr>solAddress = [], ethAddress = owner, targets = [''point'', ''ethereum''], solNetwork = [], ethNetwork = []\<rparr>
         else with_status 400 (JStr ''Invalid owner address provided.''))"

definition publicKeyByIdentity :: "'ch ident_env \<Rightarrow> api_req \<Rightarrow> ('ch, api_reply) ctl" where
  "publicKeyByIdentity env q =
     (let identity = param ''identity'' (aq_params q) in
      if ends_with ''.eth'' identity then with_status 422 (JStr ''This endpoint does not support ENS identities.'')
      else if ends_with ''.sol'' identity then
        await (snsA env identity) (\<lambda>r. let key = pointPublicKey (registry_data env r) in
          respond (JObj [(''publicKey'', JStr (if key = [] then [] else ''0x'' @ key))]))
      else await (answerA (\<lambda>h. Inr (commPublicKeyByIdentity (contract_key env h) identity)))
        (\<lambda>key. respond (fields [(''publicKey'', map_option JStr key)])))"

definition blockTimestamp :: "'ch ident_env \<Rightarrow> api_req \<Rightarrow> ('ch, api_reply) ctl" where
  "blockTimestamp env q =
     with_body q (\<lambda>b. await (liftR (block_timestamp env (jget ''blockNumber'' b)))
       (\<lambda>t. respond (JObj [(''timestamp'', t)])))"

definition openLink :: "'ch ident_env \<Rightarrow> csrf_tokens \<Rightarrow> api_req \<Rightarrow> ('ch, api_reply) ctl" where
  "openLink env tokens q =
     with_body q (\<lambda>b.
       if \<not> csrf_matches tokens b then forbidden ''CSRF token invalid''
       else case str_field ''url'' b of
              None \<Rightarrow> throwA TypeError
            | Some url \<Rightarrow> await (effectA (OpenLink url)) (\<lambda>_. await (liftR (open_link env url)) (\<lambda>_. respond JNull)))"

definition isIdentityEligible :: "'ch ident_env \<Rightarrow> api_req \<Rightarrow> ('ch, api_reply) ctl" where
  "isIdentityEligible env q =
     (let identity = param ''identity'' (aq_params q) in
      await (answerA (\<lambda>h. contract_owner env h identity)) (\<lambda>owner.
        if owner \<noteq> ADDRESS_ZERO
        then respond (JObj [(''eligibility'', JStr ''unavailable''), (''reason'', JStr ''Identity is already registered on web3'')])
        else await (TwitterOracle env (Eligible identity)) (\<lambda>answer.
          respond (fields [(''eligibility'', jget ''eligibility'' answer), (''reason'', jget ''reason'' answer),
            (''code'', if jget ''eligibility'' answer = Some (JStr ''tweet'')
                       then Some (JStr (getIdentityActivationCode env (own_address env))) else None)]))))"

definition resolve_error :: "string \<Rightarrow> exn \<Rightarrow> ('ch, api_reply) ctl" where
  "resolve_error domain e =
     (if error_message e = ''Invalid name account provided''
      then with_status 400 (JObj [(''errorMsg'', JStr (''No address found for domain name '' @ quoted domain @ ''.''))])
      else with_status 500 (JObj [(''errorMsg'', JStr (error_message e))]))"

definition registry_json :: "domain_registry \<Rightarrow> json" where
  "registry_json r = JObj [(''owner'', null_or (dr_owner r)), (''content'', null_or (dr_content r))]"

definition resolveDomain_action :: "'ch ident_env \<Rightarrow> api_req \<Rightarrow> ('ch, api_reply) ctl" where
  "resolveDomain_action env q =
     (let domain = param ''domain'' (aq_params q) in
      if ends_with ''.sol'' domain then
        catchA (await (snsA env domain) (\<lambda>r. respond (registry_json r))) (resolve_error domain)
      else if ends_with ''.eth'' domain then
        catchA (await (ensA env domain) (\<lambda>r. respond (registry_json r))) (resolve_error domain)
      else with_status 400 (JObj [(''errorMsg'', JStr (''Unsupported TLD in '' @ quoted domain @ ''.''))]))"

text \<open>Writing a key of the node's identity contract directly.\<close>

definition ikvPut :: "'ch ident_env \<Rightarrow> api_req \<Rightarrow> ('ch, api_reply) ctl" where
  "ikvPut env q =
     with_body q (\<lambda>b.
       let version = (case str_field ''version'' b of Some v \<Rightarrow> v | None \<Rightarrow> ''latest'');
           network = (case str_field ''network'' b of Some n \<Rightarrow> n | None \<Rightarrow> ie_network env)
       in catchA
            (case (str_field ''identity'' b, str_field ''key'' b, str_field ''value'' b) of
               (Some i, Some k, Some v) \<Rightarrow>
                 await (liftR (encode_call env [i, k, v, version])) (\<lambda>data.
                 await (answerA (\<lambda>h. Inr h)) (\<lambda>h.
                 await (effectA (SendTransaction network (ie_contract env) data)) (\<lambda>_.
                 await (liftR (relay env h
                   [JObj [(''from'', JStr (own_address env)), (''to'', JStr (ie_contract env)), (''data'', JStr data)]] network))
                   (\<lambda>_. retA (Reply 200 (JStr ''Success''))))))
             | _ \<Rightarrow> throwA TypeError)
            (\<lambda>e. retA (Reply 500 (JStr ''Internal engine error''))))"

text \<open>The actions by the names of the route table.\<close>

definition identity_controller :: "'ch ident_env \<Rightarrow> csrf_tokens \<Rightarrow> string \<Rightarrow> string \<Rightarrow> api_req \<Rightarrow> ('ch, api_reply) ctl" where
  "identity_controller env tokens action identity q =
     (if action = ''IdentityController@identityToOwner'' then identityToOwner env q
      else if action = ''IdentityController@publicKeyByIdentity'' then publicKeyByIdentity env q
      else if action = ''IdentityController@ownerToIdentity'' then ownerToIdentity env q
      else if action = ''IdentityController@isIdentityEligible'' then isIdentityEligible env q
      else if action = ''IdentityController@isIdentityRegistered'' then isIdentityRegistered env
      else if action = ''IdentityController@identityRegistered'' then identityRegistered env q
      else if action = ''IdentityController@blockTimestamp'' then blockTimestamp env q
      else if action = ''IdentityController@openLink'' then openLink env tokens q
      else if action = ''IdentityController@registerIdentity'' then registerIdentity_action env tokens q
      else if action = ''IdentityController@registerSubIdentity'' then registerSubIdentity_action env tokens q
      else if action = ''IdentityController@resolveDomain'' then resolveDomain_action env q
      else if action = ''IdentityController@ikvPut'' then ikvPut env q
      else retA (Html 404 ''Not Found''))"

section \<open>What is registered\<close>

text \<open>\<open>logs P m\<close>: the call adds a list of effects to the history that satisfies \<open>P\<close>.\<close>

definition logs :: "(node_effect list \<Rightarrow> node_effect list \<Rightarrow> bool) \<Rightarrow> ('ch, 'a) ctl \<Rightarrow> bool" where
  "logs P m \<longleftrightarrow> (\<forall>st. \<exists>new. n_effects (fst (m st)) = n_effects st @ new \<and> P (n_effects st) new)"

definition registers_nothing :: "node_effect list \<Rightarrow> node_effect list \<Rightarrow> bool" where
  "registers_nothing h new \<longleftrightarrow> (\<forall>g. Register g \<notin> set new)"

abbreviation quiet :: "('ch, 'a) ctl \<Rightarrow> bool" where
  "quiet m \<equiv> logs registers_nothing m"

named_theorems quiet_intros \<open>calls that register nothing\<close>

lemma quiet_await [quiet_intros]:
  assumes "quiet m" "\<And>x. quiet (f x)"
  shows "quiet (await m f)"
  unfolding logs_def
proof
  fix st
  obtain st1 r where m: "m st = (st1, r)" by (cases "m st")
  from assms(1) obtain n1 where n1: "n_effects st1 = n_effects st @ n1" "registers_nothing (n_effects st) n1"
    unfolding logs_def by (metis m fst_conv)
  show "\<exists>new. n_effects (fst (await m f st)) = n_effects st @ new \<and> registers_nothing (n_effects st) new"
  proof (cases r)
    case (Ret x)
    from assms(2) [of x] obtain n2 where "n_effects (fst (f x st1)) = n_effects st1 @ n2" "registers_nothing (n_effects st1) n2"
      unfolding logs_def by blast
    with n1 m Ret show ?thesis by (intro exI [of _ "n1 @ n2"]) (auto simp: registers_nothing_def)
  qed (use n1 m in \<open>auto simp: await_def\<close>)
qed

lemma quiet_catch [quiet_intros]:
  assumes "quiet m" "\<And>e. quiet (h e)"
  shows "quiet (catchA m h)"
  unfolding logs_def
proof
  fix st
  obtain st1 r where m: "m st = (st1, r)" by (cases "m st")
  from assms(1) obtain n1 where n1: "n_effects st1 = n_effects st @ n1" "registers_nothing (n_effects st) n1"
    unfolding logs_def by (metis m fst_conv)
  show "\<exists>new. n_effects (fst (catchA m h st)) = n_effects st @ new \<and> registers_nothing (n_effects st) new"
  proof (cases r)
    case (Throw e)
    from assms(2) [of e] obtain n2 where "n_effects (fst (h e st1)) = n_effects st1 @ n2" "registers_nothing (n_effects st1) n2"
      unfolding logs_def by blast
    with n1 m Throw show ?thesis by (intro exI [of _ "n1 @ n2"]) (auto simp: registers_nothing_def catchA_def)
  qed (use n1 m in \<open>auto simp: catchA_def\<close>)
qed

lemma quiet_basic [quiet_intros]:
  "quiet (retA x)" "quiet (throwA e)" "quiet (liftR r)" "quiet (answerA a)" "quiet (respond j)"
  "quiet (with_status n j)" "quiet (forbidden s)" "quiet (snsA env d)" "quiet (ensA env d)" "quiet (identityA env ps)"
  by (auto simp: logs_def registers_nothing_def retA_def throwA_def liftR_def answerA_def respond_def with_status_def
      forbidden_def snsA_def ensA_def identityA_def split: sum.splits prod.splits)

lemma quiet_effect [quiet_intros]: "(\<And>g. e \<noteq> Register g) \<Longrightarrow> quiet (effectA e)"
  by (auto simp: logs_def registers_nothing_def effectA_def)

lemma quiet_oracle [quiet_intros]: "quiet (TwitterOracle env c)"
  unfolding TwitterOracle_def by (intro quiet_intros) simp

lemma quiet_body [quiet_intros]: "(\<And>b. quiet (f b)) \<Longrightarrow> quiet (with_body q f)"
  by (auto simp: with_body_def split: option.splits json.splits intro: quiet_intros)

lemma quiet_if [quiet_intros]: "(c \<Longrightarrow> quiet m) \<Longrightarrow> (\<not> c \<Longrightarrow> quiet n) \<Longrightarrow> quiet (if c then m else n)"
  by simp

lemma quiet_resolve_error [quiet_intros]: "quiet (resolve_error d e)"
  unfolding resolve_error_def by (intro quiet_intros)

lemma lookups_quiet [quiet_intros]:
  "quiet (isIdentityRegistered env)" "quiet (identityRegistered env q)" "quiet (identityToOwner env q)"
  "quiet (ownerToIdentity env q)" "quiet (publicKeyByIdentity env q)" "quiet (blockTimestamp env q)"
  "quiet (isIdentityEligible env q)" "quiet (resolveDomain_action env q)"
  unfolding isIdentityRegistered_def identityRegistered_def identityToOwner_def ownerToIdentity_def
    publicKeyByIdentity_def blockTimestamp_def isIdentityEligible_def resolveDomain_action_def Let_def
  by (intro quiet_intros)+

lemma openLink_quiet [quiet_intros]: "quiet (openLink env tokens q)"
  unfolding openLink_def
  by (intro quiet_intros; (split option.split, intro conjI impI allI)?; intro quiet_intros; simp)

lemma ikvPut_quiet [quiet_intros]: "quiet (ikvPut env q)"
  unfolding ikvPut_def Let_def
  by (intro quiet_intros; (split option.split | split prod.split)?; auto intro!: quiet_intros split: option.splits)

text \<open>The node's own registration.\<close>

definition own_registration :: "'ch ident_env \<Rightarrow> registration \<Rightarrow> bool" where
  "own_registration env g \<longleftrightarrow> rg_address g = own_address env \<and>
     rg_part1 g = key_half (take 32 (hex_decode (own_key env))) \<and>
     rg_part2 g = key_half (drop 32 (hex_decode (own_key env)))"

text \<open>The last thing before the registration is the oracle's consent to that name and address.\<close>

definition approved :: "'ch ident_env \<Rightarrow> node_effect list \<Rightarrow> node_effect list \<Rightarrow> registration \<Rightarrow> bool" where
  "approved env h new g \<longleftrightarrow> (\<exists>pre c ans i u. new = pre @ [AskOracle c, Register g] \<and> (\<forall>g'. Register g' \<notin> set pre) \<and>
     (c = ActivateFree i (own_address env) \<or> c = ActivateTweet i (own_address env) u) \<and>
     rg_identity g = strip_point i \<and> rg_parent g = None \<and>
     oracle_answer env (h @ pre) c = Inr ans \<and> oracle_ok ans)"

lemma contractA_effects:
  "n_effects (fst (contractA env r st)) = n_effects st @ (case r of Inl _ \<Rightarrow> [] | Inr g \<Rightarrow> [Register g])"
  by (auto simp: contractA_def throwA_def answerA_def effectA_def liftR_def await_def split: sum.splits)

lemma register_effects:
  "\<exists>new. n_effects (fst (register env i kind sign st)) = n_effects st @ new \<and>
     (new = [] \<or> (\<exists>g. new = [Register g] \<and> own_registration env g \<and> rg_identity g = strip_point i \<and> rg_parent g = None))"
proof -
  let ?r = "if plain_registration env then registerIdentity i (own_address env) (hex_decode (own_key env))
    else registerVerified i (own_address env) (hex_decode (own_key env)) (JStr (getHashedMessage env i (own_address env) kind))
           (sign_part ''s'' sign) (sign_part ''r'' sign) (sign_part ''v'' sign)"
  have "n_effects (fst (register env i kind sign st)) = n_effects (fst (contractA env ?r st))"
    by (simp add: register_def Let_def await_def split: prod.splits async.splits)
  moreover have "\<And>g. ?r = Inr g \<Longrightarrow> own_registration env g \<and> rg_identity g = strip_point i \<and> rg_parent g = None"
    by (auto simp: registerIdentity_def registerVerified_def own_registration_def split: if_splits)
  ultimately show ?thesis by (cases ?r) (auto simp: contractA_effects)
qed

lemma respond_effects [simp]: "n_effects (fst (respond j st)) = n_effects st" "snd (respond j st) = Ret (Payload 200 j)"
  by (simp_all add: respond_def)

lemma finish_effects:
  "\<exists>new. n_effects (fst (finish_registration env i kind ans st)) = n_effects st @ new \<and>
     (new = [] \<or> (\<exists>g. new = [Register g] \<and> own_registration env g \<and> rg_identity g = strip_point i \<and>
        rg_parent g = None \<and> oracle_ok ans))"
proof -
  have "n_effects (fst (finish_registration env i kind ans st)) =
      (if oracle_ok ans then n_effects (fst (register env i kind ans st)) else n_effects st)"
    by (auto simp: finish_registration_def catchA_def await_def split: prod.splits async.splits)
      (metis fst_conv respond_effects(1) snd_conv prod.collapse async.inject async.distinct)+
  with register_effects [of env i kind ans st] show ?thesis by auto
qed

lemma oracle_result:
  "TwitterOracle env c st =
     (st\<lparr>n_effects := n_effects st @ [AskOracle c]\<rparr>,
      case oracle_answer env (n_effects st) c of Inl e \<Rightarrow> Throw e | Inr x \<Rightarrow> Ret x)"
  by (simp add: TwitterOracle_def answerA_def effectA_def liftR_def await_def split: sum.splits)

definition registers_approved :: "'ch ident_env \<Rightarrow> node_effect list \<Rightarrow> node_effect list \<Rightarrow> bool" where
  "registers_approved env h new \<longleftrightarrow>
     (\<forall>g. Register g \<in> set new \<longrightarrow> own_registration env g \<and> approved env h new g)"

text \<open>Asking the oracle for an activation and registering after its consent.\<close>

lemma activation_approved:
  assumes "c = ActivateFree i (own_address env) \<or> c = ActivateTweet i (own_address env) u"
    and "n_effects st = h @ pre" "\<And>g. Register g \<notin> set pre"
  shows "\<exists>new. n_effects (fst (await (TwitterOracle env c) (finish_registration env i kind) st)) = h @ pre @ new \<and>
    registers_approved env h (pre @ new)"
proof (cases "oracle_answer env (h @ pre) c")
  case (Inl e)
  with assms(2,3) show ?thesis
    by (intro exI [of _ "[AskOracle c]"]) (auto simp: await_def oracle_result registers_approved_def)
next
  case (Inr ans)
  let ?st = "st\<lparr>n_effects := n_effects st @ [AskOracle c]\<rparr>"
  from finish_effects [of env i kind ans ?st] obtain new where new:
    "n_effects (fst (finish_registration env i kind ans ?st)) = n_effects ?st @ new"
    "new = [] \<or> (\<exists>g. new = [Register g] \<and> own_registration env g \<and> rg_identity g = strip_point i \<and>
        rg_parent g = None \<and> oracle_ok ans)" by blast
  have "registers_approved env h (pre @ AskOracle c # new)"
    using new(2) assms(1,3) Inr unfolding registers_approved_def approved_def by fastforce
  moreover have "n_effects (fst (await (TwitterOracle env c) (finish_registration env i kind) st)) = h @ pre @ AskOracle c # new"
    using new(1) assms(2) Inr by (simp add: await_def oracle_result)
  ultimately show ?thesis by (intro exI [of _ "AskOracle c # new"]) simp
qed

lemma quiet_approved: "quiet m \<Longrightarrow> logs (registers_approved env) m"
  unfolding logs_def registers_nothing_def registers_approved_def by blast

lemma free_approved: "logs (registers_approved env) (free_registration env i)"
  unfolding logs_def
proof
  fix st :: "'a node"
  let ?c = "Eligible i" and ?st = "st\<lparr>n_effects := n_effects st @ [AskOracle (Eligible i)]\<rparr>"
  show "\<exists>new. n_effects (fst (free_registration env i st)) = n_effects st @ new \<and> registers_approved env (n_effects st) new"
  proof (cases "\<exists>ans. oracle_answer env (n_effects st) ?c = Inr ans \<and> jget ''eligibility'' ans = Some (JStr ''free'')")
    case True
    then have "free_registration env i st = await (TwitterOracle env (ActivateFree i (own_address env))) (finish_registration env i ''free'') ?st"
      by (auto simp: free_registration_def await_def oracle_result)
    with activation_approved [of "ActivateFree i (own_address env)" i env _ ?st "n_effects st" "[AskOracle ?c]" "''free''"]
    show ?thesis by fastforce
  next
    case False
    then have "n_effects (fst (free_registration env i st)) = n_effects st @ [AskOracle ?c]"
      by (auto simp: free_registration_def await_def oracle_result split: sum.splits)
    then show ?thesis by (auto simp: registers_approved_def)
  qed
qed

lemma activate_tweet_approved:
  "logs (registers_approved env) (await (TwitterOracle env (ActivateTweet i (own_address env) u)) (finish_registration env i kind))"
  unfolding logs_def
  using activation_approved [of "ActivateTweet i (own_address env) u" i env u _ _ "[]" kind] by fastforce

section \<open>Who can register\<close>

text \<open>The user asked on the node's own page: its token and host, and the node's secret token.\<close>

definition user_asked :: "api_env \<Rightarrow> csrf_tokens \<Rightarrow> api_req \<Rightarrow> bool" where
  "user_asked aenv tokens q \<longleftrightarrow> aq_host q = Some ''point'' \<and>
     (\<exists>b. aq_body q = Some b \<and> csrf_matches tokens b) \<and>
     (csrf_enabled aenv \<longrightarrow> (\<exists>t. obj_get tokens ''point'' = Some t \<and> t \<noteq> [])) \<and>
     (\<not> api_test_mode aenv \<longrightarrow> (\<exists>jwt. aq_token q = Some jwt \<and> jwt_valid aenv (bare_jwt jwt))) \<and>
     \<not> is_gateway aenv"

definition by_user :: "csrf_tokens \<Rightarrow> api_req \<Rightarrow> bool" where
  "by_user tokens q \<longleftrightarrow> aq_host q = Some ''point'' \<and> (\<exists>b. aq_body q = Some b \<and> csrf_matches tokens b)"

text \<open>What a registration must be: the node's own, and for a name of its own the oracle's choice.\<close>

definition proper :: "'ch ident_env \<Rightarrow> node_effect list \<Rightarrow> node_effect list \<Rightarrow> bool" where
  "proper env h new \<longleftrightarrow> (\<forall>g. Register g \<in> set new \<longrightarrow> own_registration env g \<and>
     (approved env h new g \<or> rg_parent g \<noteq> None \<and> new = [Register g]))"

lemma logs_mono: "logs P m \<Longrightarrow> (\<And>h new. P h new \<Longrightarrow> Q h new) \<Longrightarrow> logs Q m"
  unfolding logs_def by blast

lemma from_point_logs:
  assumes "logs P m" "\<And>h. P h []"
  shows "logs (\<lambda>h new. P h new \<and> (new \<noteq> [] \<longrightarrow> aq_host q = Some ''point'' \<and> csrf_matches tokens b)) (from_point tokens q b m)"
  using assms by (auto simp: logs_def from_point_def forbidden_def)

lemma with_body_logs:
  assumes "\<And>b. logs (\<lambda>h new. P h new \<and> (new \<noteq> [] \<longrightarrow> aq_host q = Some ''point'' \<and> csrf_matches tokens b)) (f b)" "\<And>h. P h []"
  shows "logs (\<lambda>h new. P h new \<and> (new \<noteq> [] \<longrightarrow> by_user tokens q)) (with_body q f)"
proof (cases "aq_body q")
  case None
  with assms(2) show ?thesis by (auto simp: logs_def with_body_def)
next
  case (Some b)
  show ?thesis
  proof (cases "b = JNull")
    case True
    with Some assms(2) show ?thesis by (auto simp: logs_def with_body_def)
  next
    case False
    then have "with_body q f = f b" using Some by (auto simp: with_body_def split: json.splits)
    with Some assms(1) [of b] show ?thesis unfolding by_user_def by (auto simp: logs_def)
  qed
qed

lemma logs_throw: "P [] [] \<Longrightarrow> (\<And>h. P h []) \<Longrightarrow> logs P (throwA e)"
  by (auto simp: logs_def)

lemma registerIdentity_logs:
  "logs (\<lambda>h new. registers_approved env h new \<and> (new \<noteq> [] \<longrightarrow> by_user tokens q)) (registerIdentity_action env tokens q)"
proof -
  have nil: "registers_approved env h []" for h by (simp add: registers_approved_def)
  show ?thesis unfolding registerIdentity_action_def
  proof (rule with_body_logs [OF from_point_logs])
    fix b
    show "logs (registers_approved env)
      (case str_field ''identity'' b of
          None \<Rightarrow> throwA TypeError
        | Some identity \<Rightarrow>
            if given (str_field ''code'' b) \<and> given (str_field ''url'' b) then
              await (TwitterOracle env (ActivateTweet identity (own_address env) (the (str_field ''url'' b))))
                (finish_registration env identity ''taken'')
            else free_registration env identity)"
      by (auto split: option.split intro: free_approved activate_tweet_approved logs_throw nil)
  qed (rule nil)+
qed

lemma registerSubIdentity_logs:
  "logs (\<lambda>h new. proper env h new \<and> (new \<noteq> [] \<longrightarrow> by_user tokens q)) (registerSubIdentity_action env tokens q)"
proof -
  have nil: "proper env h []" for h by (simp add: proper_def)
  have sub: "logs (proper env) (await (contractA env (registerSubIdentity s p (own_address env) (hex_decode (own_key env))))
      (\<lambda>_. respond j))" for s p j
  proof -
    have "n_effects (fst (await (contractA env r) (\<lambda>_. respond j) st)) = n_effects (fst (contractA env r st))" for r st
      by (simp add: await_def split: prod.splits async.splits)
    then show ?thesis
      by (auto simp: logs_def contractA_effects registerSubIdentity_def proper_def own_registration_def)
  qed
  show ?thesis unfolding registerSubIdentity_action_def
    by (rule with_body_logs [OF from_point_logs])
      (auto split: option.split intro: sub logs_throw nil)
qed

lemma proper_if_approved: "registers_approved env h new \<Longrightarrow> proper env h new"
  by (auto simp: registers_approved_def proper_def)

definition registering :: "string \<Rightarrow> bool" where
  "registering action \<longleftrightarrow> action = ''IdentityController@registerIdentity'' \<or> action = ''IdentityController@registerSubIdentity''"

lemma controller_logs:
  "logs (\<lambda>h new. proper env h new \<and> ((\<exists>g. Register g \<in> set new) \<longrightarrow> by_user tokens q \<and> registering action))
     (identity_controller env tokens action identity q)"
proof (cases "registering action")
  case True
  then consider "action = ''IdentityController@registerIdentity''" | "action = ''IdentityController@registerSubIdentity''"
    by (auto simp: registering_def)
  then show ?thesis
  proof cases
    case 1
    then have "identity_controller env tokens action identity q = registerIdentity_action env tokens q"
      by (simp add: identity_controller_def)
    then show ?thesis using True
      by (simp only:) (rule logs_mono [OF registerIdentity_logs], auto intro: proper_if_approved)
  next
    case 2
    then have "identity_controller env tokens action identity q = registerSubIdentity_action env tokens q"
      by (simp add: identity_controller_def)
    then show ?thesis using True
      by (simp only:) (rule logs_mono [OF registerSubIdentity_logs], auto)
  qed
next
  case False
  have "quiet (identity_controller env tokens action identity q)"
    unfolding identity_controller_def
    by (intro quiet_intros) (use False in \<open>simp_all add: registering_def\<close>)
  then show ?thesis by (rule logs_mono) (auto simp: registers_nothing_def proper_def)
qed

lemma registering_routes:
  "r \<in> set (served_routes env) \<Longrightarrow> registering (rt_action r) \<Longrightarrow>
     rt_method r = ''POST'' \<and> rt_protected r \<and> \<not> is_gateway env"
proof -
  have "list_all (\<lambda>r. registering (rt_action r) \<longrightarrow> rt_method r = ''POST'' \<and> rt_protected r \<and> rt_gatewayDisabled r) api_routes"
    by code_simp
  then show "r \<in> set (served_routes env) \<Longrightarrow> registering (rt_action r) \<Longrightarrow> ?thesis"
    by (auto simp: served_routes_def list_all_iff)
qed

lemma quiet_middleware: "quiet (identityMdw (ensA env) (snsA env) kec ck q)"
  unfolding identityMdw_def Let_def by (intro quiet_intros)

lemma quiet_trace: "quiet m \<Longrightarrow> \<exists>new. n_effects (fst (m st)) = n_effects st @ new \<and> (\<forall>g. Register g \<notin> set new)"
  by (auto simp: logs_def registers_nothing_def)

text \<open>The identity part of the API server.\<close>

definition identity_api ::
  "api_env \<Rightarrow> 'ch ident_env \<Rightarrow> (route \<Rightarrow> api_req \<Rightarrow> bool) \<Rightarrow> csrf_tokens \<Rightarrow> api_req \<Rightarrow> ('ch, api_reply) ctl" where
  "identity_api aenv env fits tokens q =
     api_server aenv fits (identityMdw (ensA env) (snsA env) (ie_keccak env) (ie_checksum env))
       (identity_controller env tokens) tokens q"


definition toy_chain :: "(string \<Rightarrow> string option) ident_env" where
  "toy_chain = \<lparr>ie_mode = ''prod'', use_oracle = [], 
     ie_identity = \<lparr>networkPublicKey = hex_encode (replicate 64 CHR ''k''), networkAddress = ''0xAb'', identityByOwner = (\<lambda>_. Inr None),
       toPublicKey = Inr, solanaKey = Inr ''s'', solanaDomain = (\<lambda>_ _. Inr None), ensDomain = (\<lambda>_ _. Inr None)\<rparr>,
     ie_ens = \<lparr>ens_enabled = False, tld_resolver = (\<lambda>_. None), ens_lookup = (\<lambda>_ _. Inr None),
       ens_reverse = (\<lambda>_ _. Inr None), ens_setText = (\<lambda>_ _ _. Inr JNull)\<rparr>,
     ie_sns = toy_sns True, ie_keccak = (\<lambda>x. x), ie_checksum = (\<lambda>x. x), ie_sha256 = (\<lambda>x. x), ie_id_hash = (\<lambda>x. x),
     oracle_http = (\<lambda>_ u. Inr (if includes_str ''eligible'' u then JObj [(''eligibility'', JStr ''free'')] else signed_ok)),
     contract_send = (\<lambda>_ _. Inr ()), contract_owner = (\<lambda>_ _. Inr ADDRESS_ZERO), contract_key = (\<lambda>_ _. Inl ''none''),
     block_timestamp = (\<lambda>_. Inr JNull), eth_isAddress = (\<lambda>_. True), encode_call = (\<lambda>xs. Inr (concat xs)),
     relay = (\<lambda>_ _ _. Inr JNull), open_link = (\<lambda>_. Inr ()), ie_network = ''ynet'', ie_contract = ''0xC''\<rparr>"

definition toy_node :: "(string \<Rightarrow> string option) node" where
  "toy_node = \<lparr>n_identities = identityCache, n_ens = ensDomainCache, n_sol = toy_record, n_effects = []\<rparr>"

definition toy_registration :: api_req where
  "toy_registration = toy_ask (Some ''point'') ''/v1/api/identity/register''
     [(''identity'', JStr ''bob''), (''_csrf'', JStr ''t'')]"

definition bob :: registration where
  "bob = \<lparr>rg_identity = ''bob'', rg_parent = None, rg_address = ''0xAb'', rg_part1 = key_half (replicate 32 CHR ''k''),
     rg_part2 = key_half (replicate 32 CHR ''k''),
     rg_verification = [JStr ''bob|0xab|free'', JStr ''v'', JStr ''r'', JStr ''s'']\<rparr>"

lemma toy_route:
  "chosen toy_server toy_fits toy_registration = Some (identity_routes ! 8)"
  "api_guard toy_server [(''point'', ''t'')] (identity_routes ! 8) toy_registration = Inr None"
  "rt_action (identity_routes ! 8) = ''IdentityController@registerIdentity''"
  by code_simp+

lemma toy_oracle:
  "oracle_answer toy_chain [] (Eligible ''bob'') = Inr (JObj [(''eligibility'', JStr ''free'')])"
  "oracle_answer toy_chain [AskOracle (Eligible ''bob'')] (ActivateFree ''bob'' ''0xAb'') = Inr signed_ok"
  "own_address toy_chain = ''0xAb''"
  by code_simp+

lemma toy_bob:
  "registerVerified ''bob'' ''0xAb'' (hex_decode (own_key toy_chain)) (JStr (getHashedMessage toy_chain ''bob'' ''0xAb'' ''free''))
     (sign_part ''s'' signed_ok) (sign_part ''r'' signed_ok) (sign_part ''v'' signed_ok) = Inr bob"
proof -
  have "getHashedMessage toy_chain ''bob'' ''0xAb'' ''free'' = ''bob|0xab|free''" by code_simp
  then show ?thesis
    by (simp add: registerVerified_def own_key_def toy_chain_def bob_def strip_point_def replace_suffix_def ends_with_def
        sign_part_def signed_ok_def)
qed

lemma toy_consent: "\<not> plain_registration toy_chain" "oracle_ok signed_ok" "contract_send toy_chain h g = Inr ()"
  by (simp_all add: plain_registration_def oracle_ok_def signed_ok_def toy_chain_def)

lemma toy_action:
  "registerIdentity_action toy_chain [(''point'', ''t'')] toy_registration = free_registration toy_chain ''bob''"
  by (simp add: registerIdentity_action_def with_body_def from_point_def toy_registration_def toy_ask_def
      csrf_matches_def str_field_def given_def)

lemma toy_registers:
  "n_effects (fst (identity_api toy_server toy_chain toy_fits [(''point'', ''t'')] toy_registration toy_node)) =
     [AskOracle (Eligible ''bob''), AskOracle (ActivateFree ''bob'' ''0xAb''), Register bob]"
proof -
  have "identityMdw (ensA toy_chain) (snsA toy_chain) kec ck toy_registration = retA ''point''" for kec ck
    by (simp add: identityMdw_def toy_registration_def toy_ask_def ends_with_def)
  then have "identity_api toy_server toy_chain toy_fits [(''point'', ''t'')] toy_registration =
      catchA (free_registration toy_chain ''bob'') (\<lambda>e. retA (api_error e))"
    by (simp add: identity_api_def api_server_def toy_route(1) [unfolded chosen_def] toy_route(2,3) identity_controller_def
        toy_action)
  then show ?thesis
    by (simp add: free_registration_def finish_registration_def register_def contractA_def toy_oracle toy_bob toy_consent
        oracle_result catchA_def await_def toy_node_def answerA_def effectA_def liftR_def respond_def retA_def Let_def)
qed


section \<open>After the registration\<close>

text \<open>The contract's acceptance is followed by the cache: for five minutes the node is the
  identity it registered, whatever the chains answer meanwhile.\<close>

theorem registered_identity_seen:
  assumes "register env i kind sign st = (st', Ret ())" "i \<noteq> []" "own_address env \<noteq> []"
    and "now \<le> sol_clock (n_sol st) + identity_expiration" "ttlMs (n_identities st) = identity_expiration"
    and "ethAddress ps = [] \<or> ethAddress ps = own_address env" "asked ''point'' ps"
  shows "snd (getIdentity (ie_identity env) now ps (n_identities st')) =
    \<lparr>id_name = Some i, id_address = own_address env, id_publicKey = own_key env, id_network = ''point''\<rparr>"
proof -
  let ?d = "\<lparr>id_name = Some i, id_address = own_address env, id_publicKey = own_key env, id_network = ''point''\<rparr>"
  obtain st1 :: "'a node" where "n_identities st' = addToCache (sol_clock (n_sol st1)) ?d (n_identities st1)"
      "n_identities st1 = n_identities st" "n_sol st1 = n_sol st"
  proof -
    have keeps: "n_identities (fst (contractA env r s)) = n_identities s \<and> n_sol (fst (contractA env r s)) = n_sol s" for r s
      by (auto simp: contractA_def throwA_def answerA_def effectA_def liftR_def await_def split: sum.splits)
    from assms(1) obtain r st1 x where "contractA env r st = (st1, Ret x)"
      "st' = st1\<lparr>n_identities := addToCache (sol_clock (n_sol st1)) ?d (n_identities st1)\<rparr>"
      by (auto simp: register_def Let_def dest!: await_RetD)
    with keeps [of r st] that [of st1] show ?thesis by simp
  qed
  then have "live now (n_identities st') (''point:'' @ own_address env) = Some ?d"
    using assms(4,5) by (simp add: addToCache_def live_add_same is_expired_def)
  then have "snd (get now (''point:'' @ own_address env) (n_identities st')) = Some ?d" by (simp add: snd_get)
  moreover have "eth_address (ie_identity env) (with_defaults ps) = own_address env"
    using assms(6) by (auto simp: eth_address_def with_defaults_def own_address_def)
  moreover have "asked ''point'' (with_defaults ps)" using assms(7) by (simp add: asked_def with_defaults_def)
  ultimately show ?thesis using assms(2)
    by (auto simp: getIdentity_def run_section_def point_section_def Let_def has_name_def split: prod.splits)
qed

section \<open>Where the controller goes wrong\<close>

text \<open>The name is put into the oracle's address as it is, so a name can bring its own
  parameters: the request for one address reads as a request for another one.\<close>

theorem handle_not_encoded:
  "starts_with (oracle_url (ActivateFree i a)) (oracle_url (ActivateFree (i @ ''&address='' @ a) b))"
  unfolding starts_with_iff by (rule exI [of _ "''&address='' @ b"]) simp

text \<open>The suffix \<open>.point\<close> is dropped for the contract and kept in the cache: the node then shows
  itself under a name that the contract does not have.\<close>

theorem registered_name_differs:
  assumes "register env (n @ ''.point'') kind sign st = (st', Ret ())"
  shows "(\<exists>g. n_effects st' = n_effects st @ [Register g] \<and> rg_identity g = n) \<and>
    (\<exists>d. live (sol_clock (n_sol st)) (n_identities st') (''point:'' @ own_address env) = Some d \<and>
       id_name d = Some (n @ ''.point'') \<or> ttlMs (n_identities st) < 0)"
proof -
  let ?i = "n @ ''.point''"
  let ?d = "\<lparr>id_name = Some ?i, id_address = own_address env, id_publicKey = own_key env, id_network = ''point''\<rparr>"
  have keeps: "n_identities (fst (contractA env r s)) = n_identities s \<and> n_sol (fst (contractA env r s)) = n_sol s" for r s
    by (auto simp: contractA_def throwA_def answerA_def effectA_def liftR_def await_def split: sum.splits)
  from assms obtain r st1 x where c: "contractA env r st = (st1, Ret x)"
    "st' = st1\<lparr>n_identities := addToCache (sol_clock (n_sol st1)) ?d (n_identities st1)\<rparr>"
    by (auto simp: register_def Let_def dest!: await_RetD)
  obtain g where "r = Inr g" using c(1) by (cases r) (auto simp: contractA_def throwA_def)
  then have e: "n_effects st' = n_effects st @ [Register g]"
    using c contractA_effects [of env r st] by simp
  with register_effects [of env ?i kind sign st] assms have "rg_identity g = strip_point ?i" by auto
  then have "rg_identity g = n" by (simp add: strip_point_def)
  moreover have "ttlMs (n_identities st) < 0 \<or>
      live (sol_clock (n_sol st)) (n_identities st') (''point:'' @ own_address env) = Some ?d"
    using c keeps [of r st] by (simp add: addToCache_def live_add_same is_expired_def)
  ultimately show ?thesis using e by auto
qed

text \<open>A missing parameter is meant to be a 400, but the handler reads a field that does not exist.\<close>

theorem missing_identity_throws:
  "param ''identity'' (aq_query q) = [] \<Longrightarrow> identityRegistered env q st = (st, Throw TypeError)"
  by (simp add: identityRegistered_def throwA_def)

text \<open>Before the node's page was given a token, a request without one opens a link: from
  another host than \<open>point\<close> the server does not compare tokens either.\<close>

theorem link_opened_without_token:
  "openLink env [] (toy_ask (Some ''evil.point'') u [(''url'', JStr link)]) st =
     (st\<lparr>n_effects := n_effects st @ [OpenLink link]\<rparr>,
      case open_link env link of Inr _ \<Rightarrow> Ret (Payload 200 JNull) | Inl e \<Rightarrow> Throw e)"
  "csrf_check aenv [] (toy_ask (Some ''evil.point'') u [(''url'', JStr link)]) = Inr None"
  by (simp_all add: openLink_def with_body_def toy_ask_def csrf_matches_def str_field_def effectA_def await_def liftR_def
      respond_def retA_def csrf_check_def split: sum.splits)

end
