(* ===== verification/Messages.thy ===== *)
theory Messages
  imports Api
begin

text \<open>
  Encrypted messages between identities: \<open>src/client/encryptIdentityUtils.js\<close> and the
  handlers of \<open>WalletController.js\<close> that call it.  The message is encrypted under a fresh
  symmetric key, which is encrypted for the public key of the reader together with the hash
  of the host.  AES-192-CBC, \<open>eccrypto\<close>, SHA-256 and the decoding of bytes as text are
  the fields of a record, their documented laws the hypothesis \<open>msg_ok\<close>; random bytes
  are arguments.
\<close>

section \<open>Libraries\<close>

record ecc_box =
  bx_iv :: string
  bx_ephemPublicKey :: string
  bx_ciphertext :: string
  bx_mac :: string

record msg_crypto =
  cbc_encrypt :: "string \<Rightarrow> string \<Rightarrow> string \<Rightarrow> string"
  cbc_decrypt :: "string \<Rightarrow> string \<Rightarrow> string \<Rightarrow> string result"
  ec_encrypt :: "string \<Rightarrow> string \<Rightarrow> ecc_box result"
  ec_decrypt :: "string \<Rightarrow> ecc_box \<Rightarrow> string result"
  msg_sha256 :: "string \<Rightarrow> string"
  as_text :: "string \<Rightarrow> string"

definition is_ascii :: "string \<Rightarrow> bool" where
  "is_ascii s \<longleftrightarrow> list_all (\<lambda>c. (of_char c :: nat) < 128) s"

text \<open>Decryption inverts encryption under the same keys; \<open>priv\<close> belongs to \<open>pub\<close>; ASCII bytes are
  their own text.\<close>

definition msg_ok :: "msg_crypto \<Rightarrow> string \<Rightarrow> string \<Rightarrow> bool" where
  "msg_ok C priv pub \<longleftrightarrow>
     (\<forall>k iv p. length k = 24 \<longrightarrow> length iv = 16 \<longrightarrow> cbc_decrypt C k iv (cbc_encrypt C k iv p) = Inr p) \<and>
     (\<forall>m. \<exists>b. ec_encrypt C pub m = Inr b \<and> ec_decrypt C priv b = Inr m) \<and>
     (\<forall>s. is_ascii s \<longrightarrow> as_text C s = s)"

section \<open>Text as bytes\<close>

text \<open>\<open>cipher.update(s, 'ascii')\<close> takes the low byte of every UTF-16 unit of the text.\<close>

definition byte :: "nat \<Rightarrow> char" where
  "byte n = char_of (n mod 256)"

fun ascii_bytes :: "string \<Rightarrow> string" where
  "ascii_bytes [] = []"
| "ascii_bytes (a # s) =
     (let n = of_char a :: nat in
      if n < 128 then a # ascii_bytes s
      else case s of
        [] \<Rightarrow> []
      | b # s1 \<Rightarrow>
          if n < 224 then byte ((n - 192) * 64 + (of_char b - 128)) # ascii_bytes s1
          else case s1 of
            [] \<Rightarrow> []
          | c # s2 \<Rightarrow>
              if n < 240 then byte ((of_char b - 128) * 64 + (of_char c - 128)) # ascii_bytes s2
              else case s2 of
                [] \<Rightarrow> []
              | d # s3 \<Rightarrow>
                  let u = ((n - 240) * 64 + (of_char b - 128)) * 4096 + (of_char c - 128) * 64 + (of_char d - 128) - 65536
                  in byte (u div 1024) # byte (u mod 1024) # ascii_bytes s3)"

lemma ascii_bytes_id: "is_ascii s \<Longrightarrow> ascii_bytes s = s"
  by (induction s) (simp_all add: is_ascii_def)

section \<open>Encrypting\<close>

definition host_hash :: "msg_crypto \<Rightarrow> string \<Rightarrow> string" where
  "host_hash C host = hex_encode (msg_sha256 C host)"

definition publicKeyBuffer :: "string \<Rightarrow> string" where
  "publicKeyBuffer pk = CHR 0x04 # hex_decode (replace_first ''0x'' [] pk)"

definition key_message :: "string \<Rightarrow> string \<Rightarrow> string \<Rightarrow> string" where
  "key_message hash key iv = ''|'' @ hash @ ''|'' @ hex_encode key @ ''|'' @ hex_encode iv @ ''|''"

text \<open>\<open>JSON.stringify\<close> of the parts in hexadecimal.\<close>

definition box_json :: "ecc_box \<Rightarrow> json" where
  "box_json b = JObj [(''iv'', JStr (hex_encode (bx_iv b))), (''ephemPublicKey'', JStr (hex_encode (bx_ephemPublicKey b))),
     (''ciphertext'', JStr (hex_encode (bx_ciphertext b))), (''mac'', JStr (hex_encode (bx_mac b)))]"

record encryption_return =
  encryptedMessage :: string
  encryptedSymmetricObj :: ecc_box
  encryptedSymmetricObjJSON :: string

definition encryptData ::
  "msg_crypto \<Rightarrow> string \<Rightarrow> string \<Rightarrow> string \<Rightarrow> string \<Rightarrow> string \<Rightarrow> encryption_return result" where
  "encryptData C symmetricKey iv host plaintext publicKey =
     (let message = cbc_encrypt C symmetricKey iv (ascii_bytes plaintext) in
      case ec_encrypt C (publicKeyBuffer publicKey) (key_message (host_hash C host) symmetricKey iv) of
        Inl e \<Rightarrow> Inl e
      | Inr b \<Rightarrow> Inr \<lparr>encryptedMessage = hex_encode message, encryptedSymmetricObj = b,
          encryptedSymmetricObjJSON = jprint (box_json b)\<rparr>)"

record recipient_box =
  rb_pk :: string
  rb_box :: ecc_box
  rb_json :: string

text \<open>Each message has a key of its own, encrypted for every reader.\<close>

definition encrypt_one ::
  "msg_crypto \<Rightarrow> string \<Rightarrow> string list \<Rightarrow> string \<times> string \<times> string \<Rightarrow> (string \<times> recipient_box list) result" where
  "encrypt_one C host publicKeys x =
     (case x of (data, key, iv) \<Rightarrow>
       case mapM_res (\<lambda>pk. case ec_encrypt C (publicKeyBuffer pk) (key_message (host_hash C host) key iv) of
                 Inl e \<Rightarrow> Inl e
               | Inr b \<Rightarrow> Inr \<lparr>rb_pk = pk, rb_box = b, rb_json = jprint (box_json b)\<rparr>) publicKeys of
         Inl e \<Rightarrow> Inl e
       | Inr bs \<Rightarrow> Inr (hex_encode (cbc_encrypt C key iv (ascii_bytes data)), bs))"

definition encryptMultipleData ::
  "msg_crypto \<Rightarrow> string \<Rightarrow> (string \<times> string \<times> string) list \<Rightarrow> string list \<Rightarrow>
   (string list \<times> recipient_box list list) result" where
  "encryptMultipleData C host datas publicKeys =
     (case mapM_res (encrypt_one C host publicKeys) datas of
        Inl e \<Rightarrow> Inl e | Inr rs \<Rightarrow> Inr (map fst rs, map snd rs))"

section \<open>Decrypting\<close>

text \<open>The parts between the bars; a missing one is undefined.\<close>

definition part :: "nat \<Rightarrow> string list \<Rightarrow> string option" where
  "part n xs = (if n < length xs then Some (xs ! n) else None)"

definition host_invalid :: exn where
  "host_invalid = PlainError ''Host is invalid''"

definition decryptSymmetricKey :: "msg_crypto \<Rightarrow> string \<Rightarrow> ecc_box \<Rightarrow> string \<Rightarrow> string result" where
  "decryptSymmetricKey C host b privateKey =
     (case ec_decrypt C (hex_decode privateKey) b of
        Inl e \<Rightarrow> Inl e
      | Inr m \<Rightarrow> if part 1 (split_ch CHR ''|'' (as_text C m)) \<noteq> Some (host_hash C host) then Inl host_invalid
                 else Inr (as_text C m))"

record decryption_return =
  plaintext :: string
  hostNameHash :: string
  symmetricKey :: string
  dr_iv :: string

definition open_parts :: "msg_crypto \<Rightarrow> string \<Rightarrow> string \<Rightarrow> (string \<times> string) result" where
  "open_parts C host symmetricObj =
     (let ps = split_ch CHR ''|'' symmetricObj in
      if part 1 ps \<noteq> Some (host_hash C host) then Inl host_invalid
      else case (part 2 ps, part 3 ps) of
             (Some k, Some v) \<Rightarrow> Inr (k, v)
           | _ \<Rightarrow> Inl TypeError)"

definition decryptDataWithDecryptedKey :: "msg_crypto \<Rightarrow> string \<Rightarrow> string \<Rightarrow> string \<Rightarrow> decryption_return result" where
  "decryptDataWithDecryptedKey C host cyphertext symmetricObj =
     (case open_parts C host symmetricObj of
        Inl e \<Rightarrow> Inl e
      | Inr (k, v) \<Rightarrow>
          (case cbc_decrypt C (hex_decode k) (hex_decode v) cyphertext of
             Inl e \<Rightarrow> Inl e
           | Inr p \<Rightarrow> Inr \<lparr>plaintext = p, hostNameHash = host_hash C host, symmetricKey = k, dr_iv = v\<rparr>))"

definition decryptData :: "msg_crypto \<Rightarrow> string \<Rightarrow> string \<Rightarrow> ecc_box \<Rightarrow> string \<Rightarrow> decryption_return result" where
  "decryptData C host cyphertext b privateKey =
     (case ec_decrypt C (hex_decode privateKey) b of
        Inl e \<Rightarrow> Inl e
      | Inr m \<Rightarrow> decryptDataWithDecryptedKey C host cyphertext (as_text C m))"

text \<open>One key and one iv for all messages.\<close>

definition decryptMultipleData :: "msg_crypto \<Rightarrow> string \<Rightarrow> string list \<Rightarrow> ecc_box \<Rightarrow> string \<Rightarrow> (string list \<times> string \<times> string \<times> string) result" where
  "decryptMultipleData C host datas b privateKey =
     (case ec_decrypt C (hex_decode privateKey) b of
        Inl e \<Rightarrow> Inl e
      | Inr m \<Rightarrow>
          (case open_parts C host (as_text C m) of
             Inl e \<Rightarrow> Inl e
           | Inr (k, v) \<Rightarrow>
               (case mapM_res (cbc_decrypt C (hex_decode k) (hex_decode v)) datas of
                  Inl e \<Rightarrow> Inl e | Inr ps \<Rightarrow> Inr (ps, host_hash C host, k, v))))"

text \<open>The parts from their hexadecimal form; \<open>eccrypto\<close> reads all four of them.\<close>

definition hex_field :: "string \<Rightarrow> json \<Rightarrow> string option" where
  "hex_field k j = map_option hex_decode (jstr (jget k j))"

definition getEncryptedSymetricObjFromJSON :: "json \<Rightarrow> ecc_box result" where
  "getEncryptedSymetricObjFromJSON j =
     (case (hex_field ''iv'' j, hex_field ''ephemPublicKey'' j, hex_field ''ciphertext'' j, hex_field ''mac'' j) of
        (Some a, Some b, Some c, Some d) \<Rightarrow> Inr \<lparr>bx_iv = a, bx_ephemPublicKey = b, bx_ciphertext = c, bx_mac = d\<rparr>
      | _ \<Rightarrow> Inl TypeError)"

section \<open>The handlers of the wallet controller\<close>

text \<open>A \<open>Buffer\<close> in an answer.\<close>

definition buffer_json :: "string \<Rightarrow> json" where
  "buffer_json s = JObj [(''type'', JStr ''Buffer''), (''data'', JArr (map (\<lambda>c. JNum (of_char c)) s))]"

definition raw_box_json :: "ecc_box \<Rightarrow> json" where
  "raw_box_json b = JObj [(''iv'', buffer_json (bx_iv b)), (''ephemPublicKey'', buffer_json (bx_ephemPublicKey b)),
     (''ciphertext'', buffer_json (bx_ciphertext b)), (''mac'', buffer_json (bx_mac b))]"

definition body_string :: "string \<Rightarrow> api_req \<Rightarrow> string result" where
  "body_string k q =
     (case body_field k (aq_body q) of
        Inl e \<Rightarrow> Inl e
      | Inr (Some (JStr s)) \<Rightarrow> Inr s
      | _ \<Rightarrow> Inl TypeError)"

definition ctl_encryptData :: "msg_crypto \<Rightarrow> string \<Rightarrow> string \<Rightarrow> api_req \<Rightarrow> api_reply result" where
  "ctl_encryptData C key iv q =
     (case (body_string ''publicKey'' q, body_string ''data'' q, aq_host q) of
        (Inr pk, Inr d, Some host) \<Rightarrow>
          (case encryptData C key iv host d pk of
             Inl e \<Rightarrow> Inl e
           | Inr r \<Rightarrow> Inr (Payload 200 (JObj [(''encryptedMessage'', JStr (encryptedMessage r)),
               (''encryptedSymmetricObj'', raw_box_json (encryptedSymmetricObj r)),
               (''encryptedSymmetricObjJSON'', JStr (encryptedSymmetricObjJSON r))])))
      | _ \<Rightarrow> Inl TypeError)"

definition sent_box :: "api_req \<Rightarrow> ecc_box result" where
  "sent_box q =
     (case body_string ''encryptedSymmetricObj'' q of
        Inl e \<Rightarrow> Inl e
      | Inr s \<Rightarrow> (case jparse s of None \<Rightarrow> Inl (PlainError ''SyntaxError'') | Some j \<Rightarrow> getEncryptedSymetricObjFromJSON j))"

definition ctl_decryptSymmetricKey :: "msg_crypto \<Rightarrow> string \<Rightarrow> api_req \<Rightarrow> api_reply result" where
  "ctl_decryptSymmetricKey C privateKey q =
     (case (sent_box q, aq_host q) of
        (Inl e, _) \<Rightarrow> Inl e
      | (Inr b, Some host) \<Rightarrow>
          (case decryptSymmetricKey C host b privateKey of
             Inl e \<Rightarrow> Inl e | Inr k \<Rightarrow> Inr (Payload 200 (JObj [(''decryptedSymmetricKey'', JStr k)])))
      | _ \<Rightarrow> Inl TypeError)"

definition decrypted_reply :: "msg_crypto \<Rightarrow> decryption_return result \<Rightarrow> api_reply result" where
  "decrypted_reply C r =
     (case r of Inl e \<Rightarrow> Inl e | Inr d \<Rightarrow> Inr (Payload 200 (JObj [(''decryptedData'', JStr (as_text C (plaintext d)))])))"

definition ctl_decryptDataWithDecryptedKey :: "msg_crypto \<Rightarrow> api_req \<Rightarrow> api_reply result" where
  "ctl_decryptDataWithDecryptedKey C q =
     (case (body_string ''encryptedData'' q, body_string ''symmetricObj'' q, aq_host q) of
        (Inr d, Inr k, Some host) \<Rightarrow> decrypted_reply C (decryptDataWithDecryptedKey C host (hex_decode d) k)
      | _ \<Rightarrow> Inl TypeError)"

definition ctl_decryptData :: "msg_crypto \<Rightarrow> string \<Rightarrow> api_req \<Rightarrow> api_reply result" where
  "ctl_decryptData C privateKey q =
     (case (sent_box q, body_string ''encryptedData'' q, aq_host q) of
        (Inl e, _, _) \<Rightarrow> Inl e
      | (Inr b, Inr d, Some host) \<Rightarrow> decrypted_reply C (decryptData C host (hex_decode d) b privateKey)
      | _ \<Rightarrow> Inl TypeError)"

section \<open>Lemmas\<close>

lemma is_ascii_simps [simp]:
  "is_ascii (s @ t) = (is_ascii s \<and> is_ascii t)" "is_ascii (c # s) = ((of_char c :: nat) < 128 \<and> is_ascii s)" "is_ascii []"
  by (simp_all add: is_ascii_def)

lemma is_ascii_hex [simp]: "is_ascii (hex_encode s)"
proof -
  have "is_hex_lower c \<Longrightarrow> (of_char c :: nat) < 128" for c
    by (auto simp: is_hex_lower_def)
  then show ?thesis by (auto simp: is_ascii_def list_all_iff dest: is_hex_lower_encode)
qed

lemma bar_not_hex: "CHR ''|'' \<notin> set (hex_encode s)"
  using is_hex_lower_encode [of "CHR ''|''" s] by (auto simp: is_hex_lower_def)

lemma is_ascii_key_message [simp]: "is_ascii (key_message (hex_encode h) k v)"
  by (simp add: key_message_def)

lemma split_key_message: "split_ch CHR ''|'' (key_message (hex_encode h) k v) = [[], hex_encode h, hex_encode k, hex_encode v, []]"
  by (simp add: key_message_def split_ch_append bar_not_hex)

lemma open_key_message:
  "open_parts C host (key_message (host_hash C h) k v) =
     (if msg_sha256 C h = msg_sha256 C host then Inr (hex_encode k, hex_encode v) else Inl host_invalid)"
  by (simp add: open_parts_def host_hash_def split_key_message part_def Let_def hex_encode_inj)

lemma hex_field_box:
  "hex_field ''iv'' (box_json b) = Some (bx_iv b)" "hex_field ''ephemPublicKey'' (box_json b) = Some (bx_ephemPublicKey b)"
  "hex_field ''ciphertext'' (box_json b) = Some (bx_ciphertext b)" "hex_field ''mac'' (box_json b) = Some (bx_mac b)"
  by (simp_all add: hex_field_def box_json_def)

lemma box_roundtrip: "getEncryptedSymetricObjFromJSON (box_json b) = Inr b"
  by (simp add: getEncryptedSymetricObjFromJSON_def hex_field_box)

lemma box_text: "jparse (jprint (box_json b)) = Some (box_json b)"
  by (rule jparse_print) (simp add: box_json_def)

text \<open>What a reader gets of a key message and a message.\<close>

lemma decrypt_with_key:
  assumes "msg_ok C priv pub" "length k = 24" "length v = 16"
  shows "decryptDataWithDecryptedKey C host (cbc_encrypt C k v p) (key_message (host_hash C h) k v) =
    (if msg_sha256 C h = msg_sha256 C host
     then Inr \<lparr>plaintext = p, hostNameHash = host_hash C host, symmetricKey = hex_encode k, dr_iv = hex_encode v\<rparr>
     else Inl host_invalid)"
  using assms by (simp add: decryptDataWithDecryptedKey_def open_key_message msg_ok_def)

lemma decrypt_boxed:
  assumes "msg_ok C (hex_decode priv) pub" "length k = 24" "length v = 16"
    "ec_encrypt C pub (key_message (host_hash C h) k v) = Inr b"
  shows "decryptData C host (cbc_encrypt C k v p) b priv =
    (if msg_sha256 C h = msg_sha256 C host
     then Inr \<lparr>plaintext = p, hostNameHash = host_hash C host, symmetricKey = hex_encode k, dr_iv = hex_encode v\<rparr>
     else Inl host_invalid)"
proof -
  have d: "ec_decrypt C (hex_decode priv) b = Inr (key_message (host_hash C h) k v)"
    using assms(1,4) unfolding msg_ok_def by (metis sum.inject(2))
  have a: "as_text C (key_message (host_hash C h) k v) = key_message (host_hash C h) k v"
    using assms(1) by (simp add: msg_ok_def host_hash_def)
  show ?thesis using decrypt_with_key [OF assms(1-3), of host p h] by (simp add: decryptData_def d a)
qed

section \<open>Messages arrive\<close>

text \<open>The answer to an encryption request, sent to the holder of the private key, who asks his
  node to decrypt it.\<close>

definition decryption_request :: "string option \<Rightarrow> json \<Rightarrow> api_req" where
  "decryption_request host answer = \<lparr>aq_method = ''POST'', aq_host = host, aq_hostname = [], aq_token = None,
     aq_body = Some (JObj [(''encryptedData'', the (jget ''encryptedMessage'' answer)),
       (''encryptedSymmetricObj'', the (jget ''encryptedSymmetricObjJSON'' answer))]), aq_params = [], aq_query = []\<rparr>"

text \<open>C30: A message encrypted by one node for a public key is decrypted by the node with the
  private key to the same message, for the host under which it was encrypted, and refused for a
  host with another hash, if the message is ASCII.\<close>

theorem message_roundtrip:
  assumes "msg_ok C (hex_decode priv) (publicKeyBuffer pk)" "length key = 24" "length iv = 16"
    and "aq_host q = Some h" "body_string ''publicKey'' q = Inr pk" "body_string ''data'' q = Inr m" "is_ascii m"
  shows "\<exists>answer. ctl_encryptData C key iv q = Inr (Payload 200 answer) \<and>
    (\<forall>host. ctl_decryptData C priv (decryption_request (Some host) answer) =
       (if msg_sha256 C h = msg_sha256 C host then Inr (Payload 200 (JObj [(''decryptedData'', JStr m)]))
        else Inl host_invalid))"
proof -
  obtain b where b: "ec_encrypt C (publicKeyBuffer pk) (key_message (host_hash C h) key iv) = Inr b"
    using assms(1) unfolding msg_ok_def by blast
  have t: "as_text C m = m" using assms(1,7) by (simp add: msg_ok_def)
  let ?a = "JObj [(''encryptedMessage'', JStr (hex_encode (cbc_encrypt C key iv m))),
    (''encryptedSymmetricObj'', raw_box_json b), (''encryptedSymmetricObjJSON'', JStr (jprint (box_json b)))]"
  have "ctl_encryptData C key iv q = Inr (Payload 200 ?a)"
    using assms(4-7) b by (simp add: ctl_encryptData_def encryptData_def ascii_bytes_id)
  moreover have "ctl_decryptData C priv (decryption_request (Some host) ?a) =
       (if msg_sha256 C h = msg_sha256 C host then Inr (Payload 200 (JObj [(''decryptedData'', JStr m)]))
        else Inl host_invalid)" for host
    using decrypt_boxed [OF assms(1-3) b, of host m] t
    by (simp add: ctl_decryptData_def decryption_request_def sent_box_def body_string_def body_field_def
        box_text box_roundtrip decrypted_reply_def)
  ultimately show ?thesis by blast
qed

text \<open>Every reader of a batch reads every message of it with the key that was boxed for him.\<close>

theorem batch_readable:
  assumes "encryptMultipleData C h datas pks = Inr (ms, boxes)"
    and "\<And>d k v. (d, k, v) \<in> set datas \<Longrightarrow> length k = 24 \<and> length v = 16"
    and "i < length datas" "j < length pks" "msg_ok C (hex_decode priv) (publicKeyBuffer (pks ! j))"
  shows "i < length ms \<and> j < length (boxes ! i) \<and>
    (\<exists>r. decryptData C h (hex_decode (ms ! i)) (rb_box (boxes ! i ! j)) priv = Inr r \<and>
       plaintext r = ascii_bytes (fst (datas ! i)))"
proof -
  have mapM: "mapM_res f xs = Inr ys \<Longrightarrow> length ys = length xs \<and> (\<forall>n < length xs. f (xs ! n) = Inr (ys ! n))"
    for f :: "'x \<Rightarrow> exn + 'y" and xs ys
  proof (induction xs arbitrary: ys)
    case (Cons x xs)
    then show ?case by (auto split: sum.splits simp: nth_Cons split: nat.splits)
  qed simp
  obtain d k v where x: "datas ! i = (d, k, v)" by (cases "datas ! i")
  from assms(1) obtain rs where rs: "mapM_res (encrypt_one C h pks) datas = Inr rs" "ms = map fst rs" "boxes = map snd rs"
    by (auto simp: encryptMultipleData_def split: sum.splits)
  note r = mapM [OF rs(1)]
  with assms(3) x have one: "encrypt_one C h pks (d, k, v) = Inr (rs ! i)" by fastforce
  obtain c bs where "rs ! i = (c, bs)" by (cases "rs ! i")
  with one have bs: "rs ! i = (hex_encode (cbc_encrypt C k v (ascii_bytes d)), bs)"
    "mapM_res (\<lambda>pk. case ec_encrypt C (publicKeyBuffer pk) (key_message (host_hash C h) k v) of
        Inl e \<Rightarrow> Inl e | Inr b \<Rightarrow> Inr \<lparr>rb_pk = pk, rb_box = b, rb_json = jprint (box_json b)\<rparr>) pks = Inr bs"
    by (simp_all add: encrypt_one_def split: sum.splits)
  let ?e = "ec_encrypt C (publicKeyBuffer (pks ! j)) (key_message (host_hash C h) k v)"
  have n1: "length bs = length pks" using mapM [OF bs(2)] by blast
  have "(case ?e of Inl e \<Rightarrow> Inl e | Inr b \<Rightarrow> Inr \<lparr>rb_pk = pks ! j, rb_box = b, rb_json = jprint (box_json b)\<rparr>) = Inr (bs ! j)"
    using mapM [OF bs(2)] assms(4) by blast
  then have n2: "?e = Inr (rb_box (bs ! j))"
    by (cases ?e) (simp_all, metis recipient_box.select_convs(2))
  have "length k = 24" "length v = 16" using assms(2) [of d k v] assms(3) x by (metis nth_mem)+
  from decrypt_boxed [OF assms(5) this n2, of h "ascii_bytes d"] show ?thesis
    using r assms(3,4) n1 bs(1) rs(2,3) x by simp
qed

text \<open>A library that satisfies the laws, for the witnesses.\<close>

definition toy_msg :: msg_crypto where
  "toy_msg = \<lparr>cbc_encrypt = (\<lambda>k iv p. k @ p), cbc_decrypt = (\<lambda>k iv c. if take 24 c = k then Inr (drop 24 c) else Inl (PlainError ''bad decrypt'')),
     ec_encrypt = (\<lambda>pub m. Inr \<lparr>bx_iv = ''i'', bx_ephemPublicKey = pub, bx_ciphertext = m, bx_mac = ''m''\<rparr>),
     ec_decrypt = (\<lambda>priv b. if bx_ephemPublicKey b = CHR 0x04 # priv then Inr (bx_ciphertext b) else Inl (PlainError ''Bad MAC'')),
     msg_sha256 = (\<lambda>x. x), as_text = (\<lambda>x. x)\<rparr>"

lemma toy_msg_fields:
  "cbc_encrypt toy_msg k iv p = k @ p" "as_text toy_msg m = m" "msg_sha256 toy_msg m = m"
  "cbc_decrypt toy_msg k iv c = (if take 24 c = k then Inr (drop 24 c) else Inl (PlainError ''bad decrypt''))"
  "ec_encrypt toy_msg pub m = Inr \<lparr>bx_iv = ''i'', bx_ephemPublicKey = pub, bx_ciphertext = m, bx_mac = ''m''\<rparr>"
  "ec_decrypt toy_msg priv b = (if bx_ephemPublicKey b = CHR 0x04 # priv then Inr (bx_ciphertext b) else Inl (PlainError ''Bad MAC''))"
  by (simp_all add: toy_msg_def)

lemma toy_msg_ok: "msg_ok toy_msg p (CHR 0x04 # p)"
  by (simp add: msg_ok_def toy_msg_def)

definition toy_message :: api_req where
  "toy_message = \<lparr>aq_method = ''POST'', aq_host = Some ''a.point'', aq_hostname = [], aq_token = None,
     aq_body = Some (JObj [(''publicKey'', JStr ''0xab''), (''data'', JStr ''hello'')]), aq_params = [], aq_query = []\<rparr>"

lemma message_roundtrip_witness:
  "\<exists>answer. ctl_encryptData toy_msg (replicate 24 CHR ''k'') (replicate 16 CHR ''v'') toy_message = Inr (Payload 200 answer) \<and>
    ctl_decryptData toy_msg ''ab'' (decryption_request (Some ''a.point'') answer) =
      Inr (Payload 200 (JObj [(''decryptedData'', JStr ''hello'')])) \<and>
    ctl_decryptData toy_msg ''ab'' (decryption_request (Some ''b.point'') answer) = Inl host_invalid"
proof -
  have "publicKeyBuffer ''0xab'' = CHR 0x04 # hex_decode ''ab''" by code_simp
  with toy_msg_ok [of "hex_decode ''ab''"] have ok: "msg_ok toy_msg (hex_decode ''ab'') (publicKeyBuffer ''0xab'')" by simp
  have "msg_sha256 toy_msg ''a.point'' \<noteq> msg_sha256 toy_msg ''b.point''" by (simp add: toy_msg_def)
  moreover from message_roundtrip [OF ok, of "replicate 24 CHR ''k''" "replicate 16 CHR ''v''" toy_message "''a.point''" "''hello''"]
  obtain answer where "ctl_encryptData toy_msg (replicate 24 CHR ''k'') (replicate 16 CHR ''v'') toy_message = Inr (Payload 200 answer)"
    "\<forall>host. ctl_decryptData toy_msg ''ab'' (decryption_request (Some host) answer) =
       (if msg_sha256 toy_msg ''a.point'' = msg_sha256 toy_msg host then Inr (Payload 200 (JObj [(''decryptedData'', JStr ''hello'')]))
        else Inl host_invalid)"
    by (auto simp: toy_message_def body_string_def body_field_def)
  ultimately show ?thesis by (intro exI [of _ answer]) simp
qed

section \<open>Faults\<close>

text \<open>Outside ASCII the message that is encrypted is another one: the two bytes of \<open>\<delta>\<close> become
  one byte, which is no text.\<close>

theorem other_text_lost:
  "ascii_bytes [CHR 0xCE, CHR 0xB4] = [CHR 0xB4]" "ascii_bytes [CHR 0xCE, CHR 0xB4] = ascii_bytes [CHR 0xC2, CHR 0xB4]"
  by code_simp+

text \<open>A batch is encrypted with a key per message and decrypted with one key for all: a second
  message comes back wrong or not at all.\<close>

theorem batch_needs_one_key:
  "case encryptMultipleData toy_msg ''h'' [(''one'', replicate 24 CHR ''k'', replicate 16 CHR ''v''),
      (''two'', replicate 24 CHR ''l'', replicate 16 CHR ''w'')] [''ab''] of
     Inr (ms, boxes) \<Rightarrow> decryptMultipleData toy_msg ''h'' (map hex_decode ms) (rb_box (hd (hd boxes))) ''ab'' = Inl (PlainError ''bad decrypt'')
   | Inl _ \<Rightarrow> False"
  by (simp add: encryptMultipleData_def encrypt_one_def decryptMultipleData_def toy_msg_fields open_key_message
      publicKeyBuffer_def replace_first.simps)

end
