(* ===== verification/Pubsub.thy ===== *)
theory Pubsub
  imports Signatures Util
begin

text \<open>
  Messages between nodes: the sockets, callbacks and messages of
  \<open>src/client/storage/ipfs.ts\<close> and the actions of \<open>StorageController.js\<close> that publish.
  What a socket sends is recorded; the server between the nodes, which passes on what
  follows the topic, is not part of the program.  The messages for an identity go through
  the signed and encrypted blobs of \<open>Signatures\<close>.
\<close>

section \<open>Sockets and callbacks\<close>

record 'cb pubsub =
  sockets :: "string list"
  topicCallbacks :: "(string, 'cb list) obj"
  sent_messages :: "(string \<times> string) list"

definition new_pubsub :: "'cb pubsub" where
  "new_pubsub = \<lparr>sockets = [], topicCallbacks = [], sent_messages = []\<rparr>"

definition connect :: "string \<Rightarrow> 'cb pubsub \<Rightarrow> 'cb pubsub" where
  "connect topic st = (if topic \<in> set (sockets st) then st else st\<lparr>sockets := sockets st @ [topic]\<rparr>)"

definition callbacks_of :: "'cb pubsub \<Rightarrow> string \<Rightarrow> 'cb list" where
  "callbacks_of st topic = (case obj_get (topicCallbacks st) topic of Some cs \<Rightarrow> cs | None \<Rightarrow> [])"

definition pubsubSubscribe :: "string \<Rightarrow> 'cb \<Rightarrow> 'cb pubsub \<Rightarrow> 'cb pubsub" where
  "pubsubSubscribe topic cb st =
     (let st1 = connect topic st
      in st1\<lparr>topicCallbacks := obj_set topic (callbacks_of st1 topic @ [cb]) (topicCallbacks st1)\<rparr>)"

definition pubsubUnsubscribe :: "string \<Rightarrow> 'cb pubsub \<Rightarrow> 'cb pubsub" where
  "pubsubUnsubscribe topic st =
     (if topic \<in> set (sockets st)
      then st\<lparr>sockets := filter (\<lambda>t. t \<noteq> topic) (sockets st), topicCallbacks := obj_del topic (topicCallbacks st)\<rparr>
      else st)"

text \<open>A message on a topic's socket: the calls it makes, in order.\<close>

definition on_message :: "'cb pubsub \<Rightarrow> string \<Rightarrow> string \<Rightarrow> ('cb \<times> string) list" where
  "on_message st topic data = map (\<lambda>cb. (cb, data)) (callbacks_of st topic)"

definition topic_hash :: "(string \<Rightarrow> string) \<Rightarrow> string \<Rightarrow> string" where
  "topic_hash sha topic = ''0x'' @ hex_encode (sha topic)"

text \<open>The first socket is used; \<open>connect\<close> returns nothing, so without one \<open>socket.send\<close>
  is a \<open>TypeError\<close>.\<close>

definition pubsubPublish :: "(string \<Rightarrow> string) \<Rightarrow> string \<Rightarrow> string \<Rightarrow> 'cb pubsub \<Rightarrow> 'cb pubsub \<times> unit result" where
  "pubsubPublish sha topic data st =
     (case sockets st of
        [] \<Rightarrow> (connect [] st, Inl TypeError)
      | s # _ \<Rightarrow> (st\<lparr>sent_messages := sent_messages st @ [(s, ''msg'' @ topic_hash sha topic @ data)]\<rparr>, Inr ()))"

definition identityToTopic :: "(string \<Rightarrow> string) \<Rightarrow> string \<Rightarrow> string" where
  "identityToTopic H identity = ''_point_pubsub_id_'' @ hex_encode (H identity)"

definition addressToTopic :: "(string \<Rightarrow> string) \<Rightarrow> string \<Rightarrow> string" where
  "addressToTopic H address = ''_point_pubsub_addr_'' @ hex_encode (H address)"

section \<open>Messages\<close>

definition HOST_PREFIXED_PUBSUB_PROLOGUE :: string where
  "HOST_PREFIXED_PUBSUB_PROLOGUE = ''PN^PS_HOST|''"

definition HOST_PREFIXED_PUBSUB_ENCSIGN_PROLOGUE :: string where
  "HOST_PREFIXED_PUBSUB_ENCSIGN_PROLOGUE = ''PN^PS_ES|''"

text \<open>What a subscriber does with a message: the arguments of its callback, or nothing.\<close>

definition pubsubProcessMessage ::
  "(string \<Rightarrow> string \<Rightarrow> ('s, verified_data) act) \<Rightarrow> (string \<Rightarrow> string option) \<Rightarrow> string \<Rightarrow> string \<Rightarrow> string \<Rightarrow>
   bool \<Rightarrow> ('s, (string \<times> string \<times> string) option) act" where
  "pubsubProcessMessage unlock inflate host topic data ignoreErrors =
     (let n = int (length HOST_PREFIXED_PUBSUB_PROLOGUE); m = int (length HOST_PREFIXED_PUBSUB_ENCSIGN_PROLOGUE);
          prologue = js_slice 0 n data;
          refuse = (\<lambda>e. if ignoreErrors then retA None else throwA (PlainError e))
      in if prologue \<noteq> HOST_PREFIXED_PUBSUB_PROLOGUE
         then refuse (''Invalid prologue: '' @ prologue @ '' vs '' @ HOST_PREFIXED_PUBSUB_PROLOGUE)
         else
           let hostEnd = index_of_from CHR ''|'' (nat n) data; messageHost = js_slice n hostEnd data
           in if messageHost \<noteq> host then refuse (''Invalid host: '' @ messageHost)
              else
                let encsign = js_slice (hostEnd + 1) (hostEnd + 1 + m) data
                in if encsign \<noteq> HOST_PREFIXED_PUBSUB_ENCSIGN_PROLOGUE
                   then throwA (PlainError (''Invalid encsign prologue: '' @ encsign))
                   else
                     await (unlock host (js_slice (hostEnd + 1 + m) (int (length data)) data)) (\<lambda>v.
                     await (liftR (gunzipIfCompressed inflate (vd_data v))) (\<lambda>final.
                     retA (Some (topic, final, vd_identity v)))))"

section \<open>The actions of the storage controller\<close>

definition plain_message :: "string \<Rightarrow> string \<Rightarrow> string" where
  "plain_message host data = HOST_PREFIXED_PUBSUB_PROLOGUE @ host @ ''|'' @ data"

definition identity_message :: "string \<Rightarrow> string \<Rightarrow> string" where
  "identity_message host payload =
     HOST_PREFIXED_PUBSUB_PROLOGUE @ host @ ''|'' @ HOST_PREFIXED_PUBSUB_ENCSIGN_PROLOGUE @ payload"

definition ctl_pubsubPublish ::
  "(string \<Rightarrow> string) \<Rightarrow> string \<Rightarrow> string \<Rightarrow> string \<Rightarrow> 'cb pubsub \<Rightarrow> 'cb pubsub \<times> unit result" where
  "ctl_pubsubPublish sha host topic data st =
     (if topic = [] then (st, Inl (DisplayableError ''Topic cannot be empty''))
      else (fst (pubsubPublish sha topic (plain_message host data) st), Inr ()))"

text \<open>The message that is published for an identity, or the error; then it is published.\<close>

definition message_for_identity ::
  "(string \<Rightarrow> string \<Rightarrow> string \<Rightarrow> ('s, string) act) \<Rightarrow> (string \<Rightarrow> string) \<Rightarrow> string \<Rightarrow> string \<Rightarrow> string \<Rightarrow> bool \<Rightarrow>
   ('s, string) act" where
  "message_for_identity seal deflate host data identity gzip =
     (if data = [] then throwA (DisplayableError ''Data cannot be empty'')
      else if identity = [] then throwA (DisplayableError ''Identity cannot be empty'')
      else await (seal host (if gzip then gzip_pn deflate data True else data) identity) (\<lambda>payload.
        retA (identity_message host payload)))"

definition ctl_pubsubPublishForIdentity ::
  "(string \<Rightarrow> string \<Rightarrow> string \<Rightarrow> ('s, string) act) \<Rightarrow> (string \<Rightarrow> string) \<Rightarrow> (string \<Rightarrow> string) \<Rightarrow> (string \<Rightarrow> string) \<Rightarrow>
   string \<Rightarrow> string \<Rightarrow> string \<Rightarrow> bool \<Rightarrow> ('s \<times> 'cb pubsub, unit) act" where
  "ctl_pubsubPublishForIdentity seal deflate H sha host data identity gzip st =
     (case message_for_identity seal deflate host data identity gzip (fst st) of
        (s, Ret message) \<Rightarrow> ((s, fst (pubsubPublish sha (identityToTopic H identity) message (snd st))), Ret ())
      | (s, Throw e) \<Rightarrow> ((s, snd st), Throw e)
      | (s, WaitFor ev k) \<Rightarrow> ((s, snd st), WaitFor ev k))"

definition ctl_pubsubSubscribe ::
  "(string \<Rightarrow> string \<Rightarrow> 'cb) \<Rightarrow> string \<Rightarrow> string \<Rightarrow> 'cb pubsub \<Rightarrow> 'cb pubsub \<times> unit result" where
  "ctl_pubsubSubscribe callback host topic st =
     (if topic = [] then (st, Inl (DisplayableError ''Topic cannot be empty''))
      else (pubsubSubscribe topic (callback host topic) st, Inr ()))"

text \<open>The action for unsubscribing checks the topic and does nothing.\<close>

definition ctl_pubsubUnsubscribe :: "string \<Rightarrow> 'cb pubsub \<Rightarrow> 'cb pubsub \<times> unit result" where
  "ctl_pubsubUnsubscribe topic st =
     (if topic = [] then (st, Inl (DisplayableError ''Topic cannot be empty'')) else (st, Inr ()))"

section \<open>Framing\<close>

lemma index_of_found:
  assumes "d \<notin> set w"
  shows "index_of_from d (length p) (p @ w @ d # r) = int (length p + length w)"
proof -
  have "takeWhile (\<lambda>x. x \<noteq> d) (w @ d # r) = w"
    using assms by (subst takeWhile_append2) auto
  then show ?thesis by (simp add: index_of_from_def)
qed

text \<open>How a framed message is taken apart.\<close>

lemma framed_parts:
  assumes "d \<notin> set h"
  shows "index_of_from d (nat (int (length p))) (p @ h @ d # r) = int (length p + length h)"
    "js_slice 0 (int (length p)) (p @ s) = p"
    "js_slice (int (length p)) (int (length p + length h)) (p @ h @ s) = h"
  using index_of_found [OF assms, of p r] js_slice_nat [of 0 "length p" "p @ s"]
    js_slice_nat [of "length p" "length p + length h" "p @ h @ s"]
  by simp_all

lemma rest_parts:
  "js_slice (int (length p + length h) + 1) (int (length p + length h) + 1 + int n) (p @ h @ d # s) = take n s"
  "js_slice (int (length p + length h) + 1 + int n) (int (length (p @ h @ d # s))) (p @ h @ d # s) = drop n s"
  using js_slice_nat [of "length p + length h + 1" "length p + length h + 1 + n" "p @ h @ d # s"]
    js_slice_nat [of "length p + length h + 1 + n" "length (p @ h @ d # s)" "p @ h @ d # s"]
  by (simp_all add: algebra_simps)

text \<open>Processing, on a message with a host.\<close>

lemma process_framed:
  assumes "CHR ''|'' \<notin> set h"
  shows "pubsubProcessMessage unlock inflate host topic (plain_message h s) ignoreErrors =
    (if h \<noteq> host then (if ignoreErrors then retA None else throwA (PlainError (''Invalid host: '' @ h)))
     else let n = length HOST_PREFIXED_PUBSUB_ENCSIGN_PROLOGUE in
       if take n s \<noteq> HOST_PREFIXED_PUBSUB_ENCSIGN_PROLOGUE
       then throwA (PlainError (''Invalid encsign prologue: '' @ take n s))
       else await (unlock host (drop n s)) (\<lambda>v. await (liftR (gunzipIfCompressed inflate (vd_data v))) (\<lambda>final.
              retA (Some (topic, final, vd_identity v)))))"
proof -
  let ?p = HOST_PREFIXED_PUBSUB_PROLOGUE
  have m: "plain_message h s = ?p @ h @ CHR ''|'' # s" by (simp add: plain_message_def)
  show ?thesis
    unfolding pubsubProcessMessage_def Let_def m framed_parts [OF assms] rest_parts framed_parts(2)
    by simp
qed

lemma process_identity_message:
  assumes "CHR ''|'' \<notin> set h"
  shows "pubsubProcessMessage unlock inflate host topic (identity_message h payload) ignoreErrors =
    (if h \<noteq> host then (if ignoreErrors then retA None else throwA (PlainError (''Invalid host: '' @ h)))
     else await (unlock host payload) (\<lambda>v. await (liftR (gunzipIfCompressed inflate (vd_data v))) (\<lambda>final.
            retA (Some (topic, final, vd_identity v)))))"
proof -
  have "identity_message h payload = plain_message h (HOST_PREFIXED_PUBSUB_ENCSIGN_PROLOGUE @ payload)"
    by (simp add: identity_message_def plain_message_def)
  then show ?thesis by (simp add: process_framed [OF assms] Let_def)
qed

text \<open>A plainly published message is never delivered, whoever subscribes: processing demands the
  second prologue, which plain messages do not have.\<close>

theorem plain_message_never_delivered:
  assumes "CHR ''|'' \<notin> set h" "\<not> starts_with HOST_PREFIXED_PUBSUB_ENCSIGN_PROLOGUE data"
  shows "snd (pubsubProcessMessage unlock inflate h topic (plain_message h data) ignoreErrors st) =
    Throw (PlainError (''Invalid encsign prologue: '' @ take (length HOST_PREFIXED_PUBSUB_ENCSIGN_PROLOGUE) data))"
  using assms(2) by (simp add: process_framed [OF assms(1)] Let_def throwA_def starts_with_def)

section \<open>A message for an identity\<close>

context blob_store
begin

lemma sealed_opened:
  assumes "sig_ok C ps" "ecc_ok C ps" "ecc_ok C pr" "aes_ok C" "\<forall>x. length (H x) = 32"
    and "CHR 0x00 \<notin> set me" "parse_public_key (ck me) = Inr (tl (ecc_public C ps))"
      "parse_public_key (ck identity) = Inr (tl (ecc_public C pr))"
    and "length k = 32" "k \<noteq> replicate 32 (CHR 0x00)" "length iv = 12"
    and "wrapWithSignature C H (Some me) host d ps = Inr w" "createFromPlaintext C k iv w None = Inr e"
    and "held (encryptedMaterial e)" "held c"
    and "c = PROLOGUE_CONTAINER @ H (tl (ecc_public C pr)) @ encryptRawPlaintextAsymmetric C
         (PROLOGUE_ASYMM @ k @ hex_decode (bid (encryptedMaterial e)) @ H host) (tl (ecc_public C pr))"
    and "ok s"
  shows "\<exists>s1 s2. signEncryptUploadForIdentityFromMe C H ck (Some me) put k iv (hex_encode ps) host d identity s0 = (s1, Ret (bid c)) \<and>
    downloadVerifyDecryptFromIdentityForMe C H ck fetch (hex_encode pr) host (bid c) s =
      (s2, Ret \<lparr>vd_identity = me, vd_host = host, vd_data = d\<rparr>)"
proof -
  let ?pub = "tl (ecc_public C pr)"
  obtain s1 i where i: "length i = 32" "bid (encryptedMaterial e) = hex_encode i"
    and u: "encryptAndUploadDataAsymmetric C H put k iv host w ?pub s0 =
      (s1, Ret (bid (PROLOGUE_CONTAINER @ H ?pub @ encryptRawPlaintextAsymmetric C (PROLOGUE_ASYMM @ k @ i @ H host) ?pub)))"
    using asymmetric_upload [OF assms(9,10,5,13,14), of host ?pub s0] by blast
  have c: "c = PROLOGUE_CONTAINER @ H ?pub @ encryptRawPlaintextAsymmetric C (PROLOGUE_ASYMM @ k @ i @ H host) ?pub"
    unfolding assms(16) i(2) by simp
  have "signEncryptUploadForIdentityFromMe C H ck (Some me) put k iv (hex_encode ps) host d identity s0 = (s1, Ret (bid c))"
    using u c by (simp add: signEncryptUploadForIdentityFromMe_def signEncryptUploadForIdentity_def assms(12)
        encryptAndUploadDataForIdentity_def assms(8))
  moreover obtain s2 where "downloadAndDecryptDataAsymmetric C H fetch host (bid c) pr s = (s2, Ret w)"
    using asymmetric_download [OF assms(3,4,5,9) i(1) assms(11,10,13) i(2) c assms(15,14,17), of host] by auto
  then have "downloadVerifyDecryptFromIdentityForMe C H ck fetch (hex_encode pr) host (bid c) s =
      (s2, Ret \<lparr>vd_identity = me, vd_host = host, vd_data = d\<rparr>)"
    using verify_wrapped [where commKey = ck and host' = host, OF assms(1,2,5,6,7,12)]
    by (simp add: downloadVerifyDecryptFromIdentityForMe_def downloadVerifyDecryptFromIdentity_def
        downloadAndVerifySignature_def liftR_def)
  ultimately show ?thesis by blast
qed

end

text \<open>The two nodes: the sender seals with its key and stores in its storage, the receiver reads
  from its own.\<close>

definition seal ::
  "crypto \<Rightarrow> config \<Rightarrow> (string \<Rightarrow> string) \<Rightarrow> (string \<Rightarrow> string) \<Rightarrow> string \<Rightarrow> string \<Rightarrow> string \<Rightarrow> string \<Rightarrow>
   string \<Rightarrow> string \<Rightarrow> string \<Rightarrow> (store, string) act" where
  "seal C cfg H commKey me privateKey k iv host data identity =
     signEncryptUploadForIdentityFromMe C H commKey (Some me) (\<lambda>x. uploadData cfg H x False) k iv privateKey host data identity"

definition unseal ::
  "crypto \<Rightarrow> config \<Rightarrow> (string \<Rightarrow> string) \<Rightarrow> (string \<Rightarrow> string) \<Rightarrow> (string \<Rightarrow> string option) list \<Rightarrow> string \<Rightarrow>
   string \<Rightarrow> string \<Rightarrow> (store, verified_data) act" where
  "unseal C cfg H commKey sources privateKey host fileId =
     downloadVerifyDecryptFromIdentityForMe C H commKey (\<lambda>i. getFile cfg H sources i True) privateKey host fileId"


lemma not_refused:
  "snd ((if c then (if ignore then retA None else throwA e) else m) st) = Ret (Some x) \<Longrightarrow> snd (m st) = Ret (Some x)"
  "snd ((if c then throwA e else m) st) = Ret y \<Longrightarrow> snd (m st) = Ret y"
  by (auto split: if_splits)

lemma process_delivered:
  assumes "snd (pubsubProcessMessage unlock inflate host topic message ignore st) = Ret (Some (t, final, sender))"
  shows "\<exists>fid v. snd (unlock host fid st) = Ret v \<and> vd_identity v = sender \<and> t = topic"
proof -
  let ?k = "\<lambda>v. await (liftR (gunzipIfCompressed inflate (vd_data v))) (\<lambda>final. retA (Some (topic, final, vd_identity v)))"
  define fid where "fid = js_slice (index_of_from CHR ''|'' (nat (int (length HOST_PREFIXED_PUBSUB_PROLOGUE))) message + 1 +
      int (length HOST_PREFIXED_PUBSUB_ENCSIGN_PROLOGUE)) (int (length message)) message"
  have "snd (await (unlock host fid) ?k st) = Ret (Some (t, final, sender))"
    unfolding fid_def
    by (rule not_refused(2), rule not_refused(1), rule not_refused(1), rule assms [unfolded pubsubProcessMessage_def Let_def])
  moreover obtain st1 r where "unlock host fid st = (st1, r)" by (cases "unlock host fid st")
  ultimately show ?thesis
    by (intro exI [of _ fid], cases r) (auto simp: await_def liftR_def retA_def split: sum.splits)
qed

text \<open>Whoever is named to a callback as the sender has signed: the message verified under the key
  registered for that identity and for the subscriber's host.\<close>

theorem delivered_sender_signed:
  assumes "snd (pubsubProcessMessage (unseal C cfg H ck sources priv) inflate host topic message ignore st) = Ret (Some (t, final, sender))"
  shows "\<exists>w v. verify_envelope C H ck host w = Inr v \<and> vd_identity v = sender \<and> t = topic"
proof -
  obtain fid v where u: "snd (unseal C cfg H ck sources priv host fid st) = Ret v" "vd_identity v = sender" "t = topic"
    using process_delivered [OF assms] by blast
  from received_message_authentic [OF u(1) [unfolded unseal_def downloadVerifyDecryptFromIdentityForMe_def]] u(2,3)
  show ?thesis by blast
qed

section \<open>Sockets\<close>

text \<open>Callbacks belong to connected topics; every operation keeps this.\<close>

definition pubsub_ok :: "'cb pubsub \<Rightarrow> bool" where
  "pubsub_ok st \<longleftrightarrow> distinct (sockets st) \<and> keyset (topicCallbacks st) \<subseteq> set (sockets st)"

lemma pubsub_ok_ops:
  "pubsub_ok new_pubsub"
  "pubsub_ok st \<Longrightarrow> pubsub_ok (pubsubSubscribe topic cb st)"
  "pubsub_ok st \<Longrightarrow> pubsub_ok (pubsubUnsubscribe topic st)"
  "pubsub_ok st \<Longrightarrow> pubsub_ok (fst (pubsubPublish sha topic data st))"
  by (auto simp: pubsub_ok_def new_pubsub_def pubsubSubscribe_def connect_def pubsubUnsubscribe_def pubsubPublish_def
      Let_def split: list.splits)

text \<open>A message calls the callbacks that were subscribed to its topic since it was last
  unsubscribed, in that order, and subscribing to other topics changes nothing.\<close>

theorem message_calls_subscribers:
  assumes "pubsub_ok st"
  shows "on_message (pubsubSubscribe topic cb st) topic' data =
      on_message st topic' data @ (if topic' = topic then [(cb, data)] else [])"
    "on_message (pubsubUnsubscribe topic st) topic' data = (if topic' = topic then [] else on_message st topic' data)"
    "on_message (fst (pubsubPublish sha topic data' st)) topic' data = on_message st topic' data"
proof -
  have "topic \<notin> set (sockets st) \<Longrightarrow> obj_get (topicCallbacks st) topic = None"
    using assms by (auto simp: pubsub_ok_def obj_get_None_iff)
  then show "on_message (pubsubUnsubscribe topic st) topic' data = (if topic' = topic then [] else on_message st topic' data)"
    by (auto simp: on_message_def callbacks_of_def pubsubUnsubscribe_def)
qed (auto simp: on_message_def callbacks_of_def pubsubSubscribe_def pubsubPublish_def connect_def Let_def split: list.splits)

text \<open>The first message of a node that has not subscribed to anything is lost: \<open>connect\<close> does not
  return the socket it makes.  The action does not wait, so its caller is told nothing.\<close>

theorem first_publish_lost:
  assumes "topic \<noteq> []"
  shows "snd (ctl_pubsubPublish sha host topic data new_pubsub) = Inr () \<and>
    sent_messages (fst (ctl_pubsubPublish sha host topic data new_pubsub)) = [] \<and>
    length (sent_messages (fst (ctl_pubsubPublish sha host topic data (fst (ctl_pubsubPublish sha host topic data new_pubsub))))) = 1"
  using assms by (simp add: ctl_pubsubPublish_def pubsubPublish_def new_pubsub_def connect_def)

text \<open>Unsubscribing through the API leaves the callbacks in place.\<close>

theorem unsubscribing_does_nothing:
  "on_message (fst (ctl_pubsubUnsubscribe topic (pubsubSubscribe topic cb st))) topic data \<noteq> []"
  by (simp add: ctl_pubsubUnsubscribe_def on_message_def pubsubSubscribe_def callbacks_of_def Let_def)

section \<open>Two nodes\<close>

text \<open>A hash under which two given blobs can be found, and sources that serve them.\<close>

definition two_hash :: "string \<Rightarrow> string \<Rightarrow> string \<Rightarrow> string" where
  "two_hash m c x = replicate 32 (if x = m then CHR ''a'' else if x = c then CHR ''b'' else CHR ''c'')"

lemma two_blobs:
  assumes "d = m \<or> d = c" "m \<noteq> c" "length d < 1000" "\<not> starts_with CHUNKINFO_PROLOGUE d"
  shows "readable wit_config (two_hash m c) [\<lambda>_. Some m, \<lambda>_. Some c] d \<and>
    upload_file_id 1000 (two_hash m c) d = hex_encode (two_hash m c d)"
proof -
  have c: "chunkify 1000 d = [d]" using assms(3) by (intro chunkify_single) (simp add: chunkify_def Let_def)
  have z: "\<not> isZeroStorageId (hex_encode (replicate 32 (CHR ''a'')))"
    "\<not> isZeroStorageId (hex_encode (replicate 32 (CHR ''b'')))" by code_simp+
  have "\<forall>d'. two_hash m c d' = two_hash m c d \<longrightarrow> d' = d" using assms(1,2) by (auto simp: two_hash_def split: if_splits)
  moreover have "\<exists>src \<in> set [\<lambda>_. Some m, \<lambda>_. Some c]. src (hash_id (two_hash m c) d) = Some d" using assms(1) by auto
  ultimately have "served (two_hash m c) [\<lambda>_. Some m, \<lambda>_. Some c] d" by (simp add: served_def)
  moreover have "\<not> isZeroStorageId (hex_encode (two_hash m c d))" using assms(1,2) z by (auto simp: two_hash_def)
  ultimately show ?thesis using c assms(4)
    by (simp add: readable_def storable_def upload_chunks_def upload_file_id_def hash_id_def wit_config_def)
      (simp add: two_hash_def)
qed

definition sealed_text :: string where
  "sealed_text = SIGNATURE_PROLOGUE_OUTER @ replicate 73 (CHR 0xFF) @ [CHR 0x30, CHR ''s''] @ SIGNATURE_PROLOGUE_INNER @
     ''alice'' @ [CHR 0x00] @ replicate 32 (CHR ''c'') @ ''data''"

definition sealed_material :: string where
  "sealed_material = replicate 12 (CHR ''v'') @ replicate 16 (CHR ''t'') @ sealed_text"

lemma sealed_lengths: "length sealed_material < 1000" "length toy_container < 1000"
  "sealed_material \<noteq> toy_container" "\<not> starts_with CHUNKINFO_PROLOGUE sealed_material"
  "\<not> starts_with CHUNKINFO_PROLOGUE toy_container"
  "replicate 64 (CHR ''p'') \<noteq> sealed_material" "replicate 64 (CHR ''p'') \<noteq> toy_container"
  "''h'' \<noteq> sealed_material" "''h'' \<noteq> toy_container"
  by code_simp+

abbreviation seal_hash :: "string \<Rightarrow> string" where
  "seal_hash \<equiv> two_hash sealed_material toy_container"


end
