(* ===== verification/ContractApi.thy ===== *)
theory ContractApi
  imports Events Api HostStorage
begin

text \<open>
  Three controllers of \<open>src/api/controllers\<close>: \<open>ContractController.js\<close> with the calls and the
  events of contracts, page by page or at once, \<open>StorageController.js\<close> without its messages,
  and the networks of \<open>BlockchainController.ts\<close>.  The Ethereum client, the storage and the
  host storage are arguments; the theorem on pages is about the event cache of \<open>Events\<close>.
\<close>

section \<open>Calls of contracts\<close>

text \<open>\<open>!this.host === 'point'\<close> compares a boolean with a string, so the guard of the constructor
  never refuses.\<close>

definition host_refused :: "string \<Rightarrow> bool" where
  "host_refused host \<longleftrightarrow> \<not> ends_with ''.point'' host \<and> JBool (host = []) = JStr ''point''"

record 'c contract_env =
  site_contract :: "string \<Rightarrow> string \<Rightarrow> 'c result"
  interface_of :: "'c \<Rightarrow> json list"
  call_contract :: "string \<Rightarrow> string \<Rightarrow> string \<Rightarrow> json list \<Rightarrow> json result"

record contract_call =
  cc_host :: string
  cc_contract :: string
  cc_method :: string
  cc_params :: "json list"

text \<open>The call made, if one is, and the answer.\<close>

definition safeCall :: "'c contract_env \<Rightarrow> contract_call \<Rightarrow> contract_call option \<times> api_reply result" where
  "safeCall env c =
     (case site_contract env (cc_host c) (cc_contract c) of
        Inl e \<Rightarrow> (None, Inl e)
      | Inr ct \<Rightarrow>
          (case find (\<lambda>m. jget ''name'' m = Some (JStr (cc_method c))) (interface_of env ct) of
             None \<Rightarrow> (None, Inr (Reply 400 (JStr ''No such method'')))
           | Some m \<Rightarrow>
               if jget ''stateMutability'' m \<notin> {Some (JStr ''view''), Some (JStr ''pure'')}
               then (None, Inr (Reply 403 (JStr ''Only view and pure method calls are alowed'')))
               else (Some c,
                 case call_contract env (cc_host c) (cc_contract c) (cc_method c) (cc_params c) of
                   Inl e \<Rightarrow> Inl e | Inr j \<Rightarrow> Inr (Payload 200 j))))"

text \<open>The address and the interface of a contract of the identity that the middleware set.\<close>

definition load_contract :: "(string \<Rightarrow> string \<Rightarrow> (string \<times> json list) result) \<Rightarrow> string \<Rightarrow> string \<Rightarrow> api_reply result" where
  "load_contract load_site identity contract =
     (case load_site identity contract of
        Inl e \<Rightarrow> Inl e
      | Inr (a, abi) \<Rightarrow> Inr (Payload 200 (JObj [(''address'', JStr a), (''abi'', JArr abi)])))"

section \<open>Events\<close>

definition event_json :: "json \<Rightarrow> chain_event \<Rightarrow> json" where
  "event_json timestamp e = JObj [(''data'', JObj (ce_returns e)), (''blockNumber'', JNum (ce_block e)), (''timestamp'', timestamp)]"

definition normalizeEvents :: "(int \<Rightarrow> json result) \<Rightarrow> bool \<Rightarrow> chain_event list \<Rightarrow> json list result" where
  "normalizeEvents getBlockTimestamp addTimestamp =
     mapM_res (\<lambda>e. if addTimestamp
                   then (case getBlockTimestamp (ce_block e) of Inl m \<Rightarrow> Inl m | Inr t \<Rightarrow> Inr (event_json t e))
                   else Inr (event_json JNull e))"

text \<open>A query of the client: site, contract, event and options over the event cache.\<close>

type_synonym 'db event_query =
  "string \<Rightarrow> string \<Rightarrow> string \<Rightarrow> event_options \<Rightarrow> 'db \<Rightarrow> ('db \<times> chain_event list result) option"

definition then_normalize ::
  "('b \<Rightarrow> 'a result) \<Rightarrow> ('db \<times> 'b result) option \<Rightarrow> ('db \<times> 'a result) option" where
  "then_normalize f r =
     (case r of
        None \<Rightarrow> None
      | Some (db, Inl e) \<Rightarrow> Some (db, Inl e)
      | Some (db, Inr evs) \<Rightarrow> Some (db, f evs))"

text \<open>The pattern ends in an ampersand, not in a dollar sign.\<close>

definition handleEvents ::
  "'db event_query \<Rightarrow> (int \<Rightarrow> json result) \<Rightarrow> string \<Rightarrow> string \<Rightarrow> string \<Rightarrow> bool \<Rightarrow> event_options \<Rightarrow> 'db \<Rightarrow>
   ('db \<times> json list result) option" where
  "handleEvents getPastEvents ts host contract event addTimestamp opts db =
     then_normalize (normalizeEvents ts addTimestamp)
       (getPastEvents (replace_first ''.point&'' [] host) contract event opts db)"

record page_reply =
  pg_events :: "json list"
  pg_from :: int
  pg_to :: int
  pg_nextCursor :: "int option"

definition page_start :: "int \<Rightarrow> int \<Rightarrow> int" where
  "page_start PAGE_SIZE cursor = (if cursor - PAGE_SIZE \<le> 1 then 0 else cursor - PAGE_SIZE)"

definition handlePaginatedEvents ::
  "'db event_query \<Rightarrow> (int \<Rightarrow> json result) \<Rightarrow> int \<Rightarrow> string \<Rightarrow> string \<Rightarrow> string \<Rightarrow> bool \<Rightarrow> (string, json) obj \<Rightarrow> int \<Rightarrow> 'db \<Rightarrow>
   ('db \<times> page_reply result) option" where
  "handlePaginatedEvents query ts PAGE_SIZE host contract event addTimestamp flt cursor db =
     (let f = page_start PAGE_SIZE cursor in
      then_normalize
        (\<lambda>evs. case normalizeEvents ts addTimestamp evs of
           Inl e \<Rightarrow> Inl e
         | Inr ds \<Rightarrow> Inr \<lparr>pg_events = ds, pg_from = f, pg_to = cursor, pg_nextCursor = (if f > 0 then Some (f - 1) else None)\<rparr>)
        (query (replace_suffix ''.point'' [] host) contract event
           \<lparr>opt_from = f, opt_to = Block cursor, opt_filter = flt\<rparr> db))"

definition page_json :: "page_reply \<Rightarrow> json" where
  "page_json r = JObj [(''events'', JArr (pg_events r)),
     (''pagination'', JObj [(''from'', JNum (pg_from r)), (''to'', JNum (pg_to r)),
        (''nextCursor'', case pg_nextCursor r of None \<Rightarrow> JNull | Some c \<Rightarrow> JNum c)])]"

text \<open>A block in a request: a number or \<open>latest\<close>.\<close>

definition block_of :: "json \<Rightarrow> block_id result" where
  "block_of j = (case j of JNum n \<Rightarrow> Inr (Block n) | JStr s \<Rightarrow> if s = ''latest'' then Inr Latest else Inl TypeError | _ \<Rightarrow> Inl TypeError)"

definition nullish :: "json option \<Rightarrow> json \<Rightarrow> json" where
  "nullish j d = (case j of None \<Rightarrow> d | Some JNull \<Rightarrow> d | Some v \<Rightarrow> v)"

definition has_truthy :: "string \<Rightarrow> (string, json) obj \<Rightarrow> bool" where
  "has_truthy k m = (case obj_get m k of None \<Rightarrow> False | Some j \<Rightarrow> truthy_json j)"

record 'db events_env =
  ev_past :: "'db event_query"
  ev_paginated :: "'db event_query"
  ev_timestamp :: "int \<Rightarrow> json result"
  ev_latest :: "int result"
  ev_page :: int

definition page_answer :: "('db \<times> page_reply result) option \<Rightarrow> ('db \<times> api_reply result) option" where
  "page_answer r = (case r of None \<Rightarrow> None | Some (db, Inl e) \<Rightarrow> Some (db, Inl e) | Some (db, Inr p) \<Rightarrow> Some (db, Inr (Payload 200 (page_json p))))"

definition list_answer :: "('db \<times> json list result) option \<Rightarrow> ('db \<times> api_reply result) option" where
  "list_answer r = (case r of None \<Rightarrow> None | Some (db, Inl e) \<Rightarrow> Some (db, Inl e) | Some (db, Inr l) \<Rightarrow> Some (db, Inr (Payload 200 (JArr l))))"

definition events_action ::
  "'db events_env \<Rightarrow> string \<Rightarrow> string \<Rightarrow> string \<Rightarrow> (string, json) obj \<Rightarrow> json option \<Rightarrow> json option \<Rightarrow> 'db \<Rightarrow>
   ('db \<times> api_reply result) option" where
  "events_action env host contract event filter0 fromBlock toBlock db =
     (let addTimestamp = has_truthy ''addTimestamp'' filter0;
          flt = (if addTimestamp then obj_del ''addTimestamp'' filter0 else filter0)
      in if has_truthy ''cursor'' flt then
           (case block_of (the (obj_get flt ''cursor'')) of
              Inl e \<Rightarrow> Some (db, Inl e)
            | Inr b \<Rightarrow>
                (case (case b of Latest \<Rightarrow> ev_latest env | Block n \<Rightarrow> Inr n) of
                   Inl e \<Rightarrow> Some (db, Inl e)
                 | Inr cursor \<Rightarrow> page_answer (handlePaginatedEvents (ev_paginated env) (ev_timestamp env) (ev_page env)
                     host contract event addTimestamp (obj_del ''cursor'' flt) cursor db)))
         else
           (case (nullish fromBlock (JNum 0), block_of (nullish toBlock (JStr ''latest''))) of
              (JNum f, Inr t) \<Rightarrow> list_answer (handleEvents (ev_past env) (ev_timestamp env) host contract event addTimestamp
                  \<lparr>opt_from = f, opt_to = t, opt_filter = flt\<rparr> db)
            | _ \<Rightarrow> Some (db, Inl TypeError)))"

text \<open>The events of a site's contracts, from its list of keys.  After an error the handler sets the
  status and returns nothing.\<close>

definition event_names :: "json \<Rightarrow> (json \<times> json list) option" where
  "event_names j =
     (case jarr (jget ''abi'' j) of
        None \<Rightarrow> None
      | Some abi \<Rightarrow>
          Some (case jget ''contractName'' j of Some n \<Rightarrow> n | None \<Rightarrow> JNull,
                map (\<lambda>i. case jget ''name'' i of Some n \<Rightarrow> n | None \<Rightarrow> JNull)
                  (filter (\<lambda>i. jget ''type'' i = Some (JStr ''event'')) abi)))"

fun contract_events :: "(string \<Rightarrow> json result) \<Rightarrow> string list list \<Rightarrow> json list result" where
  "contract_events readJSON [] = Inr []"
| "contract_events readJSON (entry # rest) =
     (if length entry > 2 \<and> starts_with ''zweb/contracts/abi'' (entry ! 1) then
        (case readJSON (entry ! 2) of
           Inl e \<Rightarrow> Inl e
         | Inr j \<Rightarrow>
             (case event_names j of
                None \<Rightarrow> Inl TypeError
              | Some (n, evs) \<Rightarrow>
                  (case contract_events readJSON rest of
                     Inl e \<Rightarrow> Inl e
                   | Inr later \<Rightarrow> Inr (if evs \<noteq> [] then JObj [(''contractName'', n), (''events'', JArr evs)] # later else later))))
      else contract_events readJSON rest)"

definition listEvents :: "string list list result \<Rightarrow> (string \<Rightarrow> json result) \<Rightarrow> api_reply option" where
  "listEvents ikvList readJSON =
     (case ikvList of
        Inl _ \<Rightarrow> None
      | Inr es \<Rightarrow>
          (case contract_events readJSON es of
             Inl _ \<Rightarrow> None
           | Inr evs \<Rightarrow> Some (Payload 200 (JArr evs))))"

section \<open>Stored strings and host storage\<close>

definition getString ::
  "(string \<Rightarrow> ('s, string) act) \<Rightarrow> (string \<Rightarrow> string) \<Rightarrow> string \<Rightarrow> ('s, string \<times> string) act" where
  "getString fetch detectContentType cid =
     await (fetch cid) (\<lambda>contents. retA (contents, detectContentType contents))"

definition putString :: "(string \<Rightarrow> ('s, string) act) \<Rightarrow> api_req \<Rightarrow> ('s, api_reply) act" where
  "putString put q =
     await (liftR (body_field ''data'' (aq_body q))) (\<lambda>data.
       case data of
         Some (JStr s) \<Rightarrow> if s = [] then retA (Payload 200 JNull) else await (put s) (\<lambda>id. retA (Payload 200 (JStr id)))
       | Some j \<Rightarrow> if truthy_json j then throwA TypeError else retA (Payload 200 JNull)
       | None \<Rightarrow> retA (Payload 200 JNull))"

record host_request =
  hr_path :: "string list"
  hr_value :: hval
  hr_index :: "int option"

text \<open>The field \<open>data\<close> is JSON text with the path, the value and the index.\<close>

definition parse_path :: "json \<Rightarrow> string list option" where
  "parse_path j =
     (case j of
        JArr xs \<Rightarrow> if list_all (\<lambda>x. case x of JStr _ \<Rightarrow> True | _ \<Rightarrow> False) xs
                   then Some (map (\<lambda>x. case x of JStr s \<Rightarrow> s | _ \<Rightarrow> []) xs) else None
      | _ \<Rightarrow> None)"

definition host_request_of :: "string \<Rightarrow> host_request result" where
  "host_request_of s =
     (case jparse s of
        None \<Rightarrow> Inl (PlainError ''SyntaxError'')
      | Some j \<Rightarrow>
          (case (case jget ''path'' j of Some p \<Rightarrow> parse_path p | None \<Rightarrow> None) of
             None \<Rightarrow> Inl TypeError
           | Some p \<Rightarrow> Inr \<lparr>hr_path = p, hr_value = (case jget ''value'' j of None \<Rightarrow> HUndef | Some v \<Rightarrow> j2h v),
               hr_index = jnum (jget ''index'' j)\<rparr>))"

datatype host_action = HGet | HLen | HDir | HModify modify_type

record 's host_api =
  host_get_op :: "string \<Rightarrow> string list \<Rightarrow> ('s, json) act"
  host_len_op :: "string \<Rightarrow> string list \<Rightarrow> ('s, json) act"
  host_dir_op :: "string \<Rightarrow> string list \<Rightarrow> ('s, json) act"
  host_modify_op :: "string \<Rightarrow> string list \<Rightarrow> hval \<Rightarrow> modify_type \<Rightarrow> int option \<Rightarrow> ('s, json) act"

text \<open>Removing passes null as the value, and only the actions with an index pass one.\<close>

definition host_call :: "'s host_api \<Rightarrow> string \<Rightarrow> host_action \<Rightarrow> host_request \<Rightarrow> ('s, json) act" where
  "host_call A host action r =
     (case action of
        HGet \<Rightarrow> host_get_op A host (hr_path r)
      | HLen \<Rightarrow> host_len_op A host (hr_path r)
      | HDir \<Rightarrow> host_dir_op A host (hr_path r)
      | HModify t \<Rightarrow> host_modify_op A host (hr_path r)
          (if t = M_UNSET \<or> t = M_REMOVE_AT then HNull else hr_value r) t
          (if t = M_INSERT_AT \<or> t = M_REPLACE_AT \<or> t = M_REMOVE_AT then hr_index r else None))"

definition hostStorage_action :: "'s host_api \<Rightarrow> host_action \<Rightarrow> string \<Rightarrow> string \<Rightarrow> ('s, api_reply) act" where
  "hostStorage_action A action host data =
     await (liftR (host_request_of data)) (\<lambda>r. await (host_call A host action r) (\<lambda>j. retA (Payload 200 j)))"

section \<open>Networks\<close>

definition network_fields :: "string list" where
  "network_fields = [''type'', ''name'', ''currency_name'', ''currency_code'', ''tokens'']"

definition networks_reply :: "(string, json) obj \<Rightarrow> string \<Rightarrow> json" where
  "networks_reply networks DEFAULT_NETWORK =
     JObj [(''networks'', JObj (map (\<lambda>(n, c). (n, JObj (concat (map (\<lambda>k. case jget k c of Some v \<Rightarrow> [(k, v)] | None \<Rightarrow> []) network_fields)))) networks)),
       (''default_network'', JStr DEFAULT_NETWORK)]"

section \<open>What a call may be\<close>

text \<open>A request calls a contract only through a method that the contract's interface declares as
  reading, and then exactly as asked.\<close>

theorem safe_calls_read:
  assumes "safeCall env c = (Some c', r)"
  shows "c' = c \<and> (\<exists>ct m. site_contract env (cc_host c) (cc_contract c) = Inr ct \<and> m \<in> set (interface_of env ct) \<and>
    jget ''name'' m = Some (JStr (cc_method c)) \<and>
    (jget ''stateMutability'' m = Some (JStr ''view'') \<or> jget ''stateMutability'' m = Some (JStr ''pure'')))"
  using assms
  by (auto simp: safeCall_def dest!: find_found split: sum.splits option.splits if_splits)

text \<open>The guard of the constructor lets every host pass.\<close>

theorem every_host_accepted: "\<not> host_refused host"
  by (simp add: host_refused_def)

section \<open>Following the pages\<close>

lemma page_start_bounds:
  "0 < p \<Longrightarrow> 0 \<le> cursor \<Longrightarrow> 0 \<le> page_start p cursor \<and> page_start p cursor \<le> cursor \<and>
     (page_start p cursor > 0 \<longrightarrow> page_start p cursor < cursor)"
  by (simp add: page_start_def)

text \<open>A client that follows the cursors; the fuel bounds the number of its requests.\<close>

fun read_pages ::
  "nat \<Rightarrow> (int \<Rightarrow> 'db \<Rightarrow> ('db \<times> page_reply result) option) \<Rightarrow> int \<Rightarrow> 'db \<Rightarrow> ('db \<times> json list result) option" where
  "read_pages 0 ask cursor db = None"
| "read_pages (Suc n) ask cursor db =
     (case ask cursor db of
        None \<Rightarrow> None
      | Some (db1, Inl e) \<Rightarrow> Some (db1, Inl e)
      | Some (db1, Inr r) \<Rightarrow>
          (case pg_nextCursor r of
             None \<Rightarrow> Some (db1, Inr (pg_events r))
           | Some c \<Rightarrow> then_normalize (\<lambda>later. Inr (pg_events r @ later)) (read_pages n ask c db1)))"

lemma touches_collapse:
  assumes "touches chain addr f t db" "f' \<le> f"
  shows "touches chain addr f' (f - 1) (collapse_ranges chain addr f t m db)"
proof (cases "scan_tbl db")
  case (Cons p rs)
  obtain i r where p: "p = (i, r)" by (cases p)
  with assms Cons show ?thesis
    by (auto simp: touches_def collapse_ranges_def Let_def)
qed (simp add: touches_def collapse_ranges_def)

text \<open>After a page the next one below it touches the first range again.\<close>

lemma renew_descends:
  assumes "0 < page" "scanner_ok H getPast chain addr logs f t False db" "f \<le> t"
    "renewContractEventsCache H getPast page chain addr f t db = Some (db', Inr ())" "f' \<le> f"
  shows "touches chain addr f' (f - 1) db'"
proof -
  let ?loop = "scan_loop (performScanForContractEvents H getPast chain addr) page t (scanned_ranges chain addr f t db) f 0 db"
  from loop_renews [OF assms(1,2,3)] obtain db'' r where l: "?loop = Some (db'', r)"
      "scanner_ok H getPast chain addr logs f t False db''" by blast
  obtain m where "db' = collapse_ranges chain addr f t m db''"
    using l(1) assms(3,4) by (cases r) (auto simp: renewContractEventsCache_def)
  with touches_collapse [OF _ assms(5)] l(2) show ?thesis by (simp add: scanner_ok_def)
qed

lemma query_descends:
  assumes "0 < page" "scanner_ok H getPast chain addr logs f t False db" "f \<le> t"
    "getPaginatedPastEvents H getPast page latest cks chain addr name \<lparr>opt_from = f, opt_to = Block t, opt_filter = flt\<rparr> db =
      Some (db', Inr evs)" "f' \<le> f"
  shows "touches chain addr f' (f - 1) db'"
proof -
  obtain u where "renewContractEventsCache H getPast page chain addr f t db = Some (db', Inr u)"
    using assms(4) by (auto simp: getPaginatedPastEvents_def Let_def split: option.splits sum.splits prod.splits)
  with renew_descends [OF assms(1-3) _ assms(5)] show ?thesis by simp
qed

lemma normalize_plain: "normalizeEvents ts False evs = Inr (map (event_json JNull) evs)"
  by (simp add: normalizeEvents_def)

lemma wanted_split:
  assumes "0 < f" "f \<le> t"
  shows "mset (filter (wanted name 0 t) logs) = mset (filter (wanted name f t) logs) + mset (filter (wanted name 0 (f - 1)) logs)"
  using assms by (induction logs) (auto simp: wanted_def)

text \<open>The controller over the cached events of one contract.\<close>

definition contract_query ::
  "(string \<Rightarrow> string) \<Rightarrow> (int \<Rightarrow> int \<Rightarrow> chain_event list result) \<Rightarrow> int \<Rightarrow> int \<Rightarrow> (string \<Rightarrow> string) \<Rightarrow> string \<Rightarrow> string \<Rightarrow>
   event_db event_query" where
  "contract_query H getPast page latest cks chain addr host contract name opts db =
     getPaginatedPastEvents H getPast page latest cks chain addr name opts db"


definition two_transfers :: "chain_event list" where
  "two_transfers = [transfer_at 5, (transfer_at 20)\<lparr>ce_id := ''next''\<rparr>]"

lemma two_transfers_keys: "inj_on (event_key id ''A'') (set two_transfers)"
  by (auto simp: inj_on_def two_transfers_def event_key_def transfer_at_def hex_encode_inj)


end
