(* ===== verification/Manifests.thy ===== *)
theory Manifests
  imports Json
begin

text \<open>
  The record of deployed contracts, \<open>src/network/deployer/manifest.ts\<close>, and the deployments
  that are looked up in it, \<open>fetchOrDeploy.ts\<close>.  A manifest is a file per chain, guarded by a
  lock file.  What a file holds is represented by the value that \<open>JSON.parse\<close> gives for it.
  The deployments of the upgrades library (\<open>resumeOrDeploy\<close>, \<open>waitAndValidateDeployment\<close>) and
  the comparison of versions are arguments.
\<close>

section \<open>Errors and state\<close>

datatype mf_error =
    ENOENT
  | ELOCKED
  | MfError string
  | DeploymentNotFound string
  | InvalidDeployment "string option"

datatype proxy_kind = Uups | Transparent | Beacon

text \<open>A deployment in memory has further fields, such as the interface or the transaction.\<close>

record deployment =
  dp_address :: string
  dp_txHash :: "string option"
  dp_fields :: "(string, json) obj"

record impl_deployment = deployment +
  dp_layout :: json
  dp_allAddresses :: "string list option"

record proxy_deployment = deployment +
  dp_kind :: proxy_kind

text \<open>An entry that was set to \<open>undefined\<close> stays a key until the manifest is written.\<close>

record manifest_data =
  mf_version :: "string option"
  mf_impls :: "(string, impl_deployment option) obj"
  mf_proxies :: "proxy_deployment list"
  mf_admin :: "deployment option"

datatype file_text = NoJson | Stored manifest_data

text \<open>The directory of the manifests, the lock file of the chain, the flag of the manifest object
  in use, and the state of the chain.\<close>

record 'c disk =
  mf_files :: "(string, file_text) obj"
  lock_file :: bool
  locked :: bool
  chain_state :: 'c

type_synonym ('c, 'a) mact = "'c disk \<Rightarrow> 'c disk \<times> (mf_error + 'a)"

definition retM :: "'a \<Rightarrow> ('c, 'a) mact" where
  "retM x st = (st, Inr x)"

definition throwM :: "mf_error \<Rightarrow> ('c, 'a) mact" where
  "throwM e st = (st, Inl e)"

definition bindM :: "('c, 'a) mact \<Rightarrow> ('a \<Rightarrow> ('c, 'b) mact) \<Rightarrow> ('c, 'b) mact" where
  "bindM m f st = (case m st of (st1, Inl e) \<Rightarrow> (st1, Inl e) | (st1, Inr x) \<Rightarrow> f x st1)"

definition liftM :: "mf_error + 'a \<Rightarrow> ('c, 'a) mact" where
  "liftM r st = (st, r)"

definition catchM :: "('c, 'a) mact \<Rightarrow> (mf_error \<Rightarrow> ('c, 'a) mact) \<Rightarrow> ('c, 'a) mact" where
  "catchM m h st = (case m st of (st1, Inl e) \<Rightarrow> h e st1 | r \<Rightarrow> r)"

definition finallyM :: "('c, 'a) mact \<Rightarrow> ('c disk \<Rightarrow> 'c disk) \<Rightarrow> ('c, 'a) mact" where
  "finallyM m f st = (case m st of (st1, r) \<Rightarrow> (f st1, r))"

definition chainM :: "('c \<Rightarrow> 'c \<times> (mf_error + 'a)) \<Rightarrow> ('c, 'a) mact" where
  "chainM f st = (case f (chain_state st) of (c, r) \<Rightarrow> (st\<lparr>chain_state := c\<rparr>, r))"

lemma bindM_simps [simp]:
  "m st = (st1, Inr x) \<Longrightarrow> bindM m f st = f x st1"
  "m st = (st1, Inl e) \<Longrightarrow> bindM m f st = (st1, Inl e)"
  by (simp_all add: bindM_def)

lemma mact_simps [simp]: "retM x st = (st, Inr x)" "throwM e st = (st, Inl e)" "liftM r st = (st, r)"
  by (simp_all add: retM_def throwM_def liftM_def)

section \<open>The manifest of a chain\<close>

definition currentManifestVersion :: string where
  "currentManifestVersion = ''3.2''"

definition defaultManifest :: manifest_data where
  "defaultManifest = \<lparr>mf_version = Some currentManifestVersion, mf_impls = [], mf_proxies = [], mf_admin = None\<rparr>"

text \<open>The chain, its name if the library knows one, the directory of the manifests, and
  \<open>compareVersions\<close> with the operator \<open><\<close>.\<close>

record mf_env =
  mf_chainId :: nat
  mf_network :: "string option"
  mf_dir :: string
  older :: "string \<Rightarrow> string \<Rightarrow> string + bool"

definition manifest_path :: "mf_env \<Rightarrow> string \<Rightarrow> string" where
  "manifest_path env n = mf_dir env @ ''/'' @ n @ ''.json''"

definition fallback_name :: "mf_env \<Rightarrow> string" where
  "fallback_name env = ''unknown-'' @ show_nat (mf_chainId env)"

definition fallback_file :: "mf_env \<Rightarrow> string" where
  "fallback_file env = manifest_path env (fallback_name env)"

definition manifest_file :: "mf_env \<Rightarrow> string" where
  "manifest_file env = manifest_path env (case mf_network env of Some n \<Rightarrow> n | None \<Rightarrow> fallback_name env)"

definition file_exists :: "string \<Rightarrow> 'c disk \<Rightarrow> bool" where
  "file_exists f st \<longleftrightarrow> obj_get (mf_files st) f \<noteq> None"

definition read_text :: "string \<Rightarrow> ('c, file_text) mact" where
  "read_text f st = (case obj_get (mf_files st) f of None \<Rightarrow> (st, Inl ENOENT) | Some t \<Rightarrow> (st, Inr t))"

definition readFile :: "mf_env \<Rightarrow> ('c, file_text) mact" where
  "readFile env st =
     (if manifest_file env = fallback_file env then read_text (manifest_file env) st
      else if file_exists (manifest_file env) st \<and> file_exists (fallback_file env) st then
        (st, Inl (MfError (''Network files with different names '' @ fallback_file env @ '' and '' @
          manifest_file env @ '' were found for the same network.'')))
      else if file_exists (fallback_file env) st then read_text (fallback_file env) st
      else read_text (manifest_file env) st)"

definition migrateManifest :: "manifest_data \<Rightarrow> mf_error + manifest_data" where
  "migrateManifest d =
     (if mf_version d = Some ''3.0'' \<or> mf_version d = Some ''3.1''
      then Inr (d\<lparr>mf_version := Some currentManifestVersion, mf_proxies := []\<rparr>)
      else Inl (MfError ''Manifest migration not available''))"

definition validateOrUpdateManifestVersion :: "mf_env \<Rightarrow> manifest_data \<Rightarrow> mf_error + manifest_data" where
  "validateOrUpdateManifestVersion env d =
     (case mf_version d of
        None \<Rightarrow> Inl (MfError ''Manifest version is missing'')
      | Some v \<Rightarrow>
          (case older env v ''3.0'' of
             Inl e \<Rightarrow> Inl (MfError e)
           | Inr True \<Rightarrow> Inl (MfError ''Found a manifest file for OpenZeppelin CLI. An automated migration is not yet available.'')
           | Inr False \<Rightarrow>
               (case older env v currentManifestVersion of
                  Inl e \<Rightarrow> Inl (MfError e)
                | Inr True \<Rightarrow> migrateManifest d
                | Inr False \<Rightarrow>
                    if v = currentManifestVersion then Inr d
                    else Inl (MfError (''Unknown value for manifest version ('' @ v @ '')'')))))"

definition parse_manifest :: "file_text \<Rightarrow> mf_error + manifest_data" where
  "parse_manifest t = (case t of NoJson \<Rightarrow> Inl (MfError ''SyntaxError'') | Stored d \<Rightarrow> Inr d)"

subsection \<open>Locking\<close>

text \<open>A lock that stays held through the retries is an error.\<close>

definition lock :: "('c, unit) mact" where
  "lock st = (if lock_file st then (st, Inl ELOCKED) else (st\<lparr>lock_file := True, locked := True\<rparr>, Inr ()))"

definition release :: "'c disk \<Rightarrow> 'c disk" where
  "release st = st\<lparr>lock_file := False, locked := False\<rparr>"

definition lockedRun :: "('c, 'a) mact \<Rightarrow> ('c, 'a) mact" where
  "lockedRun cb st =
     (if locked st then (st, Inl (MfError ''Manifest is already locked''))
      else bindM lock (\<lambda>_. finallyM cb release) st)"

subsection \<open>Reading and writing\<close>

definition read_manifest :: "mf_env \<Rightarrow> ('c, manifest_data) mact" where
  "read_manifest env =
     catchM
       (bindM (readFile env) (\<lambda>t. bindM (liftM (parse_manifest t)) (\<lambda>d.
          liftM (validateOrUpdateManifestVersion env d))))
       (\<lambda>e. if e = ENOENT then retM defaultManifest else throwM e)"

definition readM :: "mf_env \<Rightarrow> ('c, manifest_data) mact" where
  "readM env st =
     (if locked st then read_manifest env st
      else bindM lock (\<lambda>_. finallyM (read_manifest env) release) st)"

definition normalizeDeployment :: "'z deployment_scheme \<Rightarrow> 'z deployment_scheme" where
  "normalizeDeployment d = d\<lparr>dp_fields := []\<rparr>"

text \<open>Writing leaves out the keys whose value is \<open>undefined\<close>.\<close>

definition normalizeManifestData :: "manifest_data \<Rightarrow> manifest_data" where
  "normalizeManifestData d =
     \<lparr>mf_version = mf_version d,
      mf_impls = map (\<lambda>(v, i). (v, map_option normalizeDeployment i)) (filter (\<lambda>(v, i). i \<noteq> None) (mf_impls d)),
      mf_proxies = map normalizeDeployment (mf_proxies d),
      mf_admin = map_option normalizeDeployment (mf_admin d)\<rparr>"

definition renameFileIfRequired :: "mf_env \<Rightarrow> 'c disk \<Rightarrow> 'c disk" where
  "renameFileIfRequired env st =
     (if manifest_file env \<noteq> fallback_file env then
        case obj_get (mf_files st) (fallback_file env) of
          Some t \<Rightarrow> st\<lparr>mf_files := obj_set (manifest_file env) t (obj_del (fallback_file env) (mf_files st))\<rparr>
        | None \<Rightarrow> st
      else st)"

definition writeM :: "mf_env \<Rightarrow> manifest_data \<Rightarrow> ('c, unit) mact" where
  "writeM env d st =
     (if \<not> locked st then (st, Inl (MfError ''Manifest must be locked''))
      else let st1 = renameFileIfRequired env st
           in (st1\<lparr>mf_files := obj_set (manifest_file env) (Stored (normalizeManifestData d)) (mf_files st1)\<rparr>, Inr ()))"

section \<open>The operations of the manifest\<close>

definition getAdmin :: "mf_env \<Rightarrow> ('c, deployment option) mact" where
  "getAdmin env = bindM (readM env) (\<lambda>d. retM (mf_admin d))"

definition impl_at :: "bool \<Rightarrow> string \<Rightarrow> impl_deployment option \<Rightarrow> bool" where
  "impl_at checkAllAddresses a i =
     (case i of
        None \<Rightarrow> False
      | Some i \<Rightarrow> dp_address i = a \<or> checkAllAddresses \<and> (case dp_allAddresses i of None \<Rightarrow> False | Some as \<Rightarrow> a \<in> set as))"

definition getDeploymentFromAddress :: "mf_env \<Rightarrow> string \<Rightarrow> ('c, impl_deployment) mact" where
  "getDeploymentFromAddress env a =
     bindM (readM env) (\<lambda>d.
       case find (impl_at True a) (map snd (mf_impls d)) of
         Some (Some i) \<Rightarrow> retM i
       | _ \<Rightarrow> throwM (DeploymentNotFound (''Deployment at address '' @ a @ '' is not registered'')))"

definition getProxyFromAddress :: "mf_env \<Rightarrow> string \<Rightarrow> ('c, proxy_deployment) mact" where
  "getProxyFromAddress env a =
     bindM (readM env) (\<lambda>d.
       case find (\<lambda>p. dp_address p = a) (mf_proxies d) of
         Some p \<Rightarrow> retM p
       | None \<Rightarrow> throwM (DeploymentNotFound (''Proxy at address '' @ a @ '' is not registered'')))"

text \<open>The first proxy with the address is removed, then the new one is added at the end.\<close>

fun drop_proxy :: "string \<Rightarrow> proxy_deployment list \<Rightarrow> proxy_deployment list" where
  "drop_proxy a [] = []"
| "drop_proxy a (p # ps) = (if dp_address p = a then ps else p # drop_proxy a ps)"

definition addProxy :: "mf_env \<Rightarrow> proxy_deployment \<Rightarrow> ('c, unit) mact" where
  "addProxy env p =
     lockedRun (bindM (readM env) (\<lambda>d.
       writeM env (d\<lparr>mf_proxies := drop_proxy (dp_address p) (mf_proxies d) @ [p]\<rparr>)))"

section \<open>Entries of the manifest\<close>

record 'd lens =
  lens_type :: string
  lens_get :: "manifest_data \<Rightarrow> 'd option"
  lens_set :: "'d option \<Rightarrow> manifest_data \<Rightarrow> manifest_data"
  lens_merge :: "('d option \<Rightarrow> manifest_data \<Rightarrow> manifest_data) option"

definition js_set :: "'a list \<Rightarrow> 'a list" where
  "js_set xs = foldl (\<lambda>s x. if x \<in> set s then s else s @ [x]) [] xs"

definition or_none :: "'a list option \<Rightarrow> 'a list" where
  "or_none x = (case x of None \<Rightarrow> [] | Some xs \<Rightarrow> xs)"

definition mergeAddresses :: "impl_deployment \<Rightarrow> impl_deployment \<Rightarrow> string list" where
  "mergeAddresses existing v =
     js_set ([dp_address existing, dp_address v] @ or_none (dp_allAddresses existing) @ or_none (dp_allAddresses v))"

definition impl_entry :: "string \<Rightarrow> manifest_data \<Rightarrow> impl_deployment option" where
  "impl_entry v d = (case obj_get (mf_impls d) v of None \<Rightarrow> None | Some i \<Rightarrow> i)"

definition set_impl :: "string \<Rightarrow> impl_deployment option \<Rightarrow> manifest_data \<Rightarrow> manifest_data" where
  "set_impl v i d = d\<lparr>mf_impls := obj_set v i (mf_impls d)\<rparr>"

definition merge_impl :: "string \<Rightarrow> impl_deployment option \<Rightarrow> manifest_data \<Rightarrow> manifest_data" where
  "merge_impl v i d =
     (case (impl_entry v d, i) of
        (Some existing, Some new) \<Rightarrow> set_impl v (Some (existing\<lparr>dp_allAddresses := Some (mergeAddresses existing new)\<rparr>)) d
      | _ \<Rightarrow> set_impl v i d)"

definition implLens :: "string \<Rightarrow> impl_deployment lens" where
  "implLens v = \<lparr>lens_type = ''implementation'', lens_get = impl_entry v, lens_set = set_impl v, lens_merge = Some (merge_impl v)\<rparr>"

definition adminLens :: "deployment lens" where
  "adminLens = \<lparr>lens_type = ''proxy admin'', lens_get = mf_admin, lens_set = (\<lambda>x d. d\<lparr>mf_admin := x\<rparr>), lens_merge = None\<rparr>"

datatype mf_entry = AdminEntry | ImplEntry string

definition lookupDeployment :: "manifest_data \<Rightarrow> string \<Rightarrow> bool \<Rightarrow> mf_entry option" where
  "lookupDeployment d a checkAllAddresses =
     (if map_option dp_address (mf_admin d) = Some a then Some AdminEntry
      else map_option (\<lambda>(v, i). ImplEntry v) (find (\<lambda>(v, i). impl_at checkAllAddresses a i) (mf_impls d)))"

definition clear_entry :: "mf_entry \<Rightarrow> manifest_data \<Rightarrow> manifest_data" where
  "clear_entry w d = (case w of AdminEntry \<Rightarrow> d\<lparr>mf_admin := None\<rparr> | ImplEntry v \<Rightarrow> set_impl v None d)"

definition checkForAddressClash :: "bool \<Rightarrow> manifest_data \<Rightarrow> string \<Rightarrow> bool \<Rightarrow> mf_error + manifest_data" where
  "checkForAddressClash isDevelopmentNetwork d a checkAllAddresses =
     (case lookupDeployment d a checkAllAddresses of
        None \<Rightarrow> Inr d
      | Some w \<Rightarrow>
          if isDevelopmentNetwork then Inr (clear_entry w d)
          else Inl (MfError (''The following deployment clashes with an existing one at '' @ a)))"

section \<open>Fetching a deployment or making it\<close>

text \<open>What the library returns for a stored deployment: the same object, or a new one, where it
  may have cleared the entry before.\<close>

datatype 'd resumed = Same | Fresh bool 'd

record ('c, 'd) provider =
  resumeOrDeploy :: "('c \<Rightarrow> 'c \<times> (mf_error + 'd)) \<Rightarrow> 'd option \<Rightarrow> bool \<Rightarrow> 'c \<Rightarrow> 'c \<times> (mf_error + 'd resumed)"
  waitAndValidate :: "'d \<Rightarrow> 'c \<Rightarrow> 'c \<times> (mf_error + unit)"
  developmentNetwork :: bool

definition record_deployment ::
  "mf_env \<Rightarrow> bool \<Rightarrow> 'z deployment_scheme lens \<Rightarrow> bool \<Rightarrow> manifest_data \<Rightarrow> 'z deployment_scheme \<Rightarrow> ('c, unit) mact" where
  "record_deployment env dev L mrg d u =
     (case (if mrg then lens_merge L else None) of
        Some mg \<Rightarrow> bindM (liftM (checkForAddressClash dev d (dp_address u) False)) (\<lambda>d1. writeM env (mg (Some u) d1))
      | None \<Rightarrow> bindM (liftM (checkForAddressClash dev d (dp_address u) True)) (\<lambda>d1. writeM env (lens_set L (Some u) d1)))"

definition fetch_locked ::
  "mf_env \<Rightarrow> ('c, 'z deployment_scheme) provider \<Rightarrow> 'z deployment_scheme lens \<Rightarrow>
   ('c \<Rightarrow> 'c \<times> (mf_error + 'z deployment_scheme)) \<Rightarrow> bool \<Rightarrow> ('c, 'z deployment_scheme) mact" where
  "fetch_locked env P L deploy mrg =
     bindM (readM env) (\<lambda>d.
       if mrg \<and> lens_merge L = None
       then throwM (MfError ''fetchOrDeployGeneric was called with merge set to true but the deployment lens does not have a merge function'')
       else
         bindM (chainM (resumeOrDeploy P deploy (lens_get L d) mrg)) (\<lambda>r.
           case r of
             Same \<Rightarrow> (case lens_get L d of Some u \<Rightarrow> retM u | None \<Rightarrow> throwM (MfError ''TypeError''))
           | Fresh cleared u \<Rightarrow>
               bindM (record_deployment env (developmentNetwork P) L mrg (if cleared then lens_set L None d else d) u)
                 (\<lambda>_. retM u)))"

definition forget_deployment :: "mf_env \<Rightarrow> 'z deployment_scheme lens \<Rightarrow> string option \<Rightarrow> ('c, unit) mact" where
  "forget_deployment env L tx =
     lockedRun (bindM (readM env) (\<lambda>d.
       if (case lens_get L d of None \<Rightarrow> None | Some u \<Rightarrow> dp_txHash u) = tx
       then writeM env (lens_set L None d) else retM ()))"

definition fetchOrDeployGeneric ::
  "mf_env \<Rightarrow> ('c, 'z deployment_scheme) provider \<Rightarrow> 'z deployment_scheme lens \<Rightarrow>
   ('c \<Rightarrow> 'c \<times> (mf_error + 'z deployment_scheme)) \<Rightarrow> bool \<Rightarrow> ('c, 'z deployment_scheme) mact" where
  "fetchOrDeployGeneric env P L deploy mrg =
     catchM
       (bindM (lockedRun (fetch_locked env P L deploy mrg)) (\<lambda>u.
          bindM (chainM (waitAndValidate P u)) (\<lambda>_. retM u)))
       (\<lambda>e. case e of
          InvalidDeployment tx \<Rightarrow> bindM (forget_deployment env L tx) (\<lambda>_. throwM e)
        | _ \<Rightarrow> throwM e)"

definition fetchOrDeploy ::
  "mf_env \<Rightarrow> ('c, impl_deployment) provider \<Rightarrow> string \<Rightarrow> ('c \<Rightarrow> 'c \<times> (mf_error + impl_deployment)) \<Rightarrow> bool \<Rightarrow> ('c, string) mact" where
  "fetchOrDeploy env P version deploy mrg =
     bindM (fetchOrDeployGeneric env P (implLens version) deploy mrg) (\<lambda>u. retM (dp_address u))"

definition fetchOrDeployAdmin ::
  "mf_env \<Rightarrow> ('c, deployment) provider \<Rightarrow> ('c \<Rightarrow> 'c \<times> (mf_error + deployment)) \<Rightarrow> ('c, string) mact" where
  "fetchOrDeployAdmin env P deploy =
     bindM (fetchOrDeployGeneric env P adminLens deploy False) (\<lambda>u. retM (dp_address u))"

section \<open>Outcomes of an operation\<close>

text \<open>\<open>yields P m Q E\<close>: from a state with \<open>P\<close> the operation returns a value with \<open>Q\<close>, or throws an
  error in a state with \<open>E\<close>.\<close>

definition yields ::
  "('c disk \<Rightarrow> bool) \<Rightarrow> ('c, 'a) mact \<Rightarrow> ('a \<Rightarrow> 'c disk \<Rightarrow> bool) \<Rightarrow> ('c disk \<Rightarrow> bool) \<Rightarrow> bool" where
  "yields P m Q E \<longleftrightarrow> (\<forall>s. P s \<longrightarrow> (case m s of (s', Inl e) \<Rightarrow> E s' | (s', Inr x) \<Rightarrow> Q x s'))"

named_theorems yields_intros

lemma yields_bind [yields_intros]:
  assumes "yields P m R E" "\<And>x. yields (R x) (f x) Q E"
  shows "yields P (bindM m f) Q E"
  unfolding yields_def
proof (intro allI impI)
  fix s assume "P s"
  obtain s1 r where m: "m s = (s1, r)" by (cases "m s")
  with assms(1) \<open>P s\<close> have r: "case r of Inl e \<Rightarrow> E s1 | Inr x \<Rightarrow> R x s1"
    by (fastforce simp: yields_def split: sum.splits)
  show "case bindM m f s of (s', Inl e) \<Rightarrow> E s' | (s', Inr x) \<Rightarrow> Q x s'"
    using m r assms(2) by (cases r) (auto simp: bindM_def yields_def)
qed

lemma yields_ret [yields_intros]: "(\<And>s. P s \<Longrightarrow> Q x s) \<Longrightarrow> yields P (retM x) Q E"
  by (simp add: yields_def)

lemma yields_throw [yields_intros]: "(\<And>s. P s \<Longrightarrow> E s) \<Longrightarrow> yields P (throwM e) Q E"
  by (simp add: yields_def)

lemma yields_lift [yields_intros]:
  assumes "\<And>s e. P s \<Longrightarrow> r = Inl e \<Longrightarrow> E s" "\<And>s x. P s \<Longrightarrow> r = Inr x \<Longrightarrow> Q x s"
  shows "yields P (liftM r) Q E"
  using assms by (cases r) (auto simp: yields_def)

lemma yields_catch [yields_intros]:
  assumes "yields P m Q R" "\<And>e. yields R (h e) Q E"
  shows "yields P (catchM m h) Q E"
  using assms by (fastforce simp: yields_def catchM_def split: prod.splits sum.splits)

lemma yields_if [yields_intros]:
  "(c \<Longrightarrow> yields P m Q E) \<Longrightarrow> (\<not> c \<Longrightarrow> yields P m' Q E) \<Longrightarrow> yields P (if c then m else m') Q E"
  by simp

lemma yields_weaken:
  assumes "yields P m Q E" "\<And>x s. Q x s \<Longrightarrow> Q' x s" "\<And>s. E s \<Longrightarrow> E' s" "\<And>s. P' s \<Longrightarrow> P s"
  shows "yields P' m Q' E'"
  using assms by (fastforce simp: yields_def split: prod.splits sum.splits)

lemma yieldsD:
  assumes "yields P m Q E" "P s" "m s = (s', r)"
  shows "case r of Inl e \<Rightarrow> E s' | Inr x \<Rightarrow> Q x s'"
  using assms by (fastforce simp: yields_def split: sum.splits)

section \<open>Addresses of the entries\<close>

definition slot :: "manifest_data \<Rightarrow> mf_entry \<Rightarrow> string option" where
  "slot d w =
     (case w of AdminEntry \<Rightarrow> map_option dp_address (mf_admin d) | ImplEntry v \<Rightarrow> map_option dp_address (impl_entry v d))"

text \<open>No two entries have the same address, and no two proxies.\<close>

definition no_clash :: "manifest_data \<Rightarrow> bool" where
  "no_clash d \<longleftrightarrow> distinct (keys (mf_impls d)) \<and> distinct (map dp_address (mf_proxies d)) \<and> (\<forall>w w' a. slot d w = Some a \<longrightarrow> slot d w' = Some a \<longrightarrow> w = w')"

lemma slot_set_impl [simp]:
  "slot (set_impl v x d) w = (if w = ImplEntry v then map_option dp_address x else slot d w)"
  by (auto simp: slot_def set_impl_def impl_entry_def split: mf_entry.splits)

lemma lookup_None_slot:
  assumes "lookupDeployment d a c = None"
  shows "slot d w \<noteq> Some a"
proof (cases w)
  case AdminEntry
  then show ?thesis using assms by (auto simp: lookupDeployment_def slot_def split: if_splits)
next
  case (ImplEntry v)
  have "\<not> impl_at c a i" if "(v, i) \<in> set (mf_impls d)" for i
    using assms that by (auto simp: lookupDeployment_def find_None_iff split: if_splits)
  then show ?thesis using ImplEntry
    by (fastforce simp: slot_def impl_entry_def impl_at_def dest: map_of_SomeD split: option.splits)
qed

text \<open>An entry of the manifest with its reading, setting and merging.\<close>

locale manifest_entry =
  fixes L :: "'z deployment_scheme lens" and w :: mf_entry
  assumes get_slot: "map_option dp_address (lens_get L d) = slot d w"
    and set_slot: "slot (lens_set L x d) w' = (if w' = w then map_option dp_address x else slot d w')"
    and merge_slot: "lens_merge L = Some mg \<Longrightarrow> slot (mg (Some u) d) w' =
      (if w' = w then (case slot d w of None \<Rightarrow> Some (dp_address u) | Some a \<Rightarrow> Some a) else slot d w')"
    and keys_distinct: "distinct (keys (mf_impls d)) \<Longrightarrow> distinct (keys (mf_impls (lens_set L x d)))"
      "lens_merge L = Some mg \<Longrightarrow> distinct (keys (mf_impls d)) \<Longrightarrow> distinct (keys (mf_impls (mg (Some u) d)))"
    and proxies_same: "mf_proxies (lens_set L x d) = mf_proxies d"
      "lens_merge L = Some mg \<Longrightarrow> mf_proxies (mg (Some u) d) = mf_proxies d"
    and get_set: "lens_get L (lens_set L x d) = x"
begin

lemma clear_no_clash: "no_clash d \<Longrightarrow> no_clash (lens_set L None d)"
  by (auto simp: no_clash_def set_slot keys_distinct proxies_same split: if_splits)

lemma set_no_clash:
  assumes "no_clash d" "\<And>w'. slot d w' \<noteq> Some (dp_address u)"
  shows "no_clash (lens_set L (Some u) d)"
  using assms by (fastforce simp: no_clash_def set_slot keys_distinct proxies_same split: if_splits)

lemma merge_no_clash:
  assumes "no_clash d" "\<And>w'. slot d w' \<noteq> Some (dp_address u)" "lens_merge L = Some mg"
  shows "no_clash (mg (Some u) d)"
  using assms by (fastforce simp: no_clash_def merge_slot keys_distinct proxies_same split: if_splits option.splits)

end

interpretation impl: manifest_entry "implLens v" "ImplEntry v" for v
proof unfold_locales
  fix d x w' mg u
  show "map_option dp_address (lens_get (implLens v) d) = slot d (ImplEntry v)"
    by (simp add: implLens_def slot_def)
  show "slot (lens_set (implLens v) x d) w' = (if w' = ImplEntry v then map_option dp_address x else slot d w')"
    by (simp add: implLens_def)
  show "mf_proxies (lens_set (implLens v) x d) = mf_proxies d"
    by (simp add: implLens_def set_impl_def)
  show "lens_merge (implLens v) = Some mg \<Longrightarrow> mf_proxies (mg (Some u) d) = mf_proxies d"
    by (auto simp: implLens_def set_impl_def merge_impl_def split: option.splits)
  show "lens_get (implLens v) (lens_set (implLens v) x d) = x"
    by (simp add: implLens_def impl_entry_def set_impl_def)
  show "distinct (keys (mf_impls d)) \<Longrightarrow> distinct (keys (mf_impls (lens_set (implLens v) x d)))"
    by (auto simp: implLens_def set_impl_def)
  show "lens_merge (implLens v) = Some mg \<Longrightarrow> distinct (keys (mf_impls d)) \<Longrightarrow> distinct (keys (mf_impls (mg (Some u) d)))"
    by (auto simp: implLens_def set_impl_def merge_impl_def split: option.splits)
  show "lens_merge (implLens v) = Some mg \<Longrightarrow> slot (mg (Some u) d) w' =
      (if w' = ImplEntry v then (case slot d (ImplEntry v) of None \<Rightarrow> Some (dp_address u) | Some a \<Rightarrow> Some a) else slot d w')"
    by (auto simp: implLens_def merge_impl_def slot_def [of d "ImplEntry v"] split: option.splits)
qed

interpretation admin: manifest_entry adminLens AdminEntry
  by unfold_locales (auto simp: adminLens_def slot_def impl_entry_def split: mf_entry.splits)

section \<open>Reading and writing under the lock\<close>

definition files_ok :: "'c disk \<Rightarrow> bool" where
  "files_ok s \<longleftrightarrow> (\<forall>f d. obj_get (mf_files s) f = Some (Stored d) \<longrightarrow> no_clash d)"

definition idle :: "bool \<Rightarrow> 'c disk \<Rightarrow> bool" where
  "idle b s \<longleftrightarrow> \<not> locked s \<and> lock_file s = b \<and> files_ok s"

definition held :: "'c disk \<Rightarrow> bool" where
  "held s \<longleftrightarrow> locked s \<and> lock_file s \<and> files_ok s"

lemma no_clash_default: "no_clash defaultManifest"
  by (auto simp: no_clash_def defaultManifest_def slot_def impl_entry_def split: mf_entry.splits)

lemma no_clash_cong:
  assumes "mf_impls d' = mf_impls d" "mf_admin d' = mf_admin d" "mf_proxies d' = mf_proxies d \<or> mf_proxies d' = []" "no_clash d"
  shows "no_clash d'"
proof -
  have "slot d' = slot d" using assms(1,2) by (auto simp: fun_eq_iff slot_def impl_entry_def split: mf_entry.splits)
  with assms show ?thesis by (auto simp: no_clash_def)
qed

lemma validated:
  assumes "validateOrUpdateManifestVersion env d = Inr d'"
  shows "mf_impls d' = mf_impls d" "mf_admin d' = mf_admin d" "mf_version d' = Some currentManifestVersion"
    "mf_proxies d' = mf_proxies d \<or> mf_proxies d' = []"
  using assms
  by (auto simp: validateOrUpdateManifestVersion_def migrateManifest_def split: option.splits sum.splits bool.splits if_splits)

text \<open>What reading gives, which does not change the disk.\<close>

definition stored_manifest :: "mf_env \<Rightarrow> 'c disk \<Rightarrow> mf_error + manifest_data" where
  "stored_manifest env s = snd (read_manifest env s)"

lemma read_manifest_same: "read_manifest env s = (s, stored_manifest env s)"
  by (simp add: stored_manifest_def read_manifest_def catchM_def bindM_def readFile_def read_text_def
      split: option.splits sum.splits)

lemma readM_locked: "locked s \<Longrightarrow> readM env s = (s, stored_manifest env s)"
  by (simp add: readM_def read_manifest_same)

lemma readM_free: "\<not> locked s \<Longrightarrow> \<not> lock_file s \<Longrightarrow> readM env s = (s, stored_manifest env s)"
  using read_manifest_same [of env "s\<lparr>lock_file := True, locked := True\<rparr>"]
  by (simp add: readM_def lock_def finallyM_def release_def stored_manifest_def read_manifest_def catchM_def
      bindM_def readFile_def read_text_def file_exists_def split: option.splits sum.splits)

lemma stored_manifest_cong: "mf_files s' = mf_files s \<Longrightarrow> stored_manifest env s' = stored_manifest env s"
  by (simp add: stored_manifest_def read_manifest_def catchM_def bindM_def readFile_def read_text_def file_exists_def
      split: option.splits sum.splits)

lemma stored_manifest_Inr:
  assumes "stored_manifest env s = Inr d"
  shows "mf_version d = Some currentManifestVersion" "files_ok s \<Longrightarrow> no_clash d"
proof -
  have c: "d = defaultManifest \<or> (\<exists>f d0. obj_get (mf_files s) f = Some (Stored d0) \<and> validateOrUpdateManifestVersion env d0 = Inr d)"
    using assms by (auto simp: stored_manifest_def read_manifest_def catchM_def bindM_def readFile_def read_text_def
        parse_manifest_def split: option.splits sum.splits if_splits file_text.splits)
  then show "mf_version d = Some currentManifestVersion"
    by (auto simp: defaultManifest_def dest: validated(3))
  show "no_clash d" if "files_ok s"
    using c
  proof (elim disjE exE conjE)
    fix f d0 assume "obj_get (mf_files s) f = Some (Stored d0)" "validateOrUpdateManifestVersion env d0 = Inr d"
    with that validated(1,2,4) show ?thesis by (metis no_clash_cong files_ok_def)
  qed (simp add: no_clash_default)
qed

lemma read_text_cases: "read_text f s = (s, Inl ENOENT) \<or> (\<exists>t. read_text f s = (s, Inr t))"
  by (simp add: read_text_def split: option.splits)

lemma stored_no_invalid: "stored_manifest env s \<noteq> Inl (InvalidDeployment tx)"
  and stored_no_missing: "stored_manifest env s \<noteq> Inl (DeploymentNotFound m)"
proof -
  have v: "validateOrUpdateManifestVersion env d \<noteq> Inl (InvalidDeployment tx)" "validateOrUpdateManifestVersion env d \<noteq> Inl (DeploymentNotFound m)" for d
    by (auto simp: validateOrUpdateManifestVersion_def migrateManifest_def split: option.splits sum.splits bool.splits)
  have p: "parse_manifest t \<noteq> Inl (InvalidDeployment tx)" "parse_manifest t \<noteq> Inl (DeploymentNotFound m)" for t
    by (simp_all add: parse_manifest_def split: file_text.split)
  have r: "snd (readFile env s) \<noteq> Inl (InvalidDeployment tx)" "snd (readFile env s) \<noteq> Inl (DeploymentNotFound m)"
    using read_text_cases [of "manifest_file env" s] read_text_cases [of "fallback_file env" s]
    by (auto simp: readFile_def)
  obtain s1 r1 where f: "readFile env s = (s1, r1)" by (cases "readFile env s")
  have "stored_manifest env s \<noteq> Inl (InvalidDeployment tx) \<and> stored_manifest env s \<noteq> Inl (DeploymentNotFound m)"
  proof (cases r1)
    case (Inr t)
    with f p [of t] v show ?thesis
      by (cases "parse_manifest t") (auto simp: stored_manifest_def read_manifest_def catchM_def split: sum.split)
  qed (use f r in \<open>simp add: stored_manifest_def read_manifest_def catchM_def\<close>)
  then show "stored_manifest env s \<noteq> Inl (InvalidDeployment tx)" "stored_manifest env s \<noteq> Inl (DeploymentNotFound m)" by simp_all
qed

lemma impl_entry_normalize:
  "distinct (keys (mf_impls d)) \<Longrightarrow>
     impl_entry v (normalizeManifestData d) = map_option normalizeDeployment (impl_entry v d)"
proof -
  have "distinct (keys m) \<Longrightarrow>
     (case obj_get (map (\<lambda>(v, i). (v, map_option normalizeDeployment i)) (filter (\<lambda>(v, i). i \<noteq> None) m)) v of None \<Rightarrow> None | Some i \<Rightarrow> i) =
     map_option normalizeDeployment (case obj_get m v of None \<Rightarrow> None | Some i \<Rightarrow> i)"
    for m :: "(string, impl_deployment option) obj"
  proof (induction m)
    case (Cons p m)
    obtain v' i where p: "p = (v', i)" by (cases p)
    have "obj_get (map (\<lambda>(v, i). (v, map_option normalizeDeployment i)) (filter (\<lambda>(v, i). i \<noteq> None) m)) v' = None"
      using Cons.prems p by (auto simp: map_of_eq_None_iff image_iff)
    with Cons p show ?case by (cases i) auto
  qed simp
  then show "distinct (keys (mf_impls d)) \<Longrightarrow> ?thesis"
    by (simp add: impl_entry_def normalizeManifestData_def)
qed

lemma normalize_no_clash:
  assumes "no_clash d"
  shows "no_clash (normalizeManifestData d)"
proof -
  have k: "distinct (keys (mf_impls d))" using assms by (simp add: no_clash_def)
  then have "slot (normalizeManifestData d) w = slot d w" for w
    by (cases w) (simp_all add: slot_def impl_entry_normalize,
      simp_all add: normalizeManifestData_def normalizeDeployment_def option.map_comp comp_def)
  moreover have "distinct (keys (mf_impls (normalizeManifestData d)))"
    using k by (simp add: normalizeManifestData_def comp_def case_prod_beta distinct_map_filter)
  moreover have "map dp_address (mf_proxies (normalizeManifestData d)) = map dp_address (mf_proxies d)"
    by (simp add: normalizeManifestData_def normalizeDeployment_def)
  ultimately show ?thesis using assms by (simp add: no_clash_def)
qed

text \<open>Writing, and reading what was written.\<close>

definition no_fallback :: "mf_env \<Rightarrow> 'c disk \<Rightarrow> bool" where
  "no_fallback env s \<longleftrightarrow> manifest_file env = fallback_file env \<or> \<not> file_exists (fallback_file env) s"

lemma renamed: "no_fallback env (renameFileIfRequired env s)"
  by (simp add: no_fallback_def renameFileIfRequired_def file_exists_def split: option.splits)

lemma renameFile_keeps:
  "locked (renameFileIfRequired env s) = locked s" "lock_file (renameFileIfRequired env s) = lock_file s"
  "chain_state (renameFileIfRequired env s) = chain_state s"
  "files_ok s \<Longrightarrow> files_ok (renameFileIfRequired env s)"
  by (auto simp: renameFileIfRequired_def files_ok_def split: option.splits)

text \<open>No version is older than itself, and the current one is not older than 3.0.\<close>

definition versions_ok :: "mf_env \<Rightarrow> bool" where
  "versions_ok env \<longleftrightarrow> older env currentManifestVersion ''3.0'' = Inr False \<and>
     older env currentManifestVersion currentManifestVersion = Inr False"

lemma written:
  assumes "writeM env d s = (s', Inr ())" "versions_ok env" "mf_version d = Some currentManifestVersion"
  shows "stored_manifest env s' = Inr (normalizeManifestData d)"
proof -
  let ?s = "renameFileIfRequired env s"
  have s': "s' = ?s\<lparr>mf_files := obj_set (manifest_file env) (Stored (normalizeManifestData d)) (mf_files ?s)\<rparr>"
    using assms(1) by (simp add: writeM_def Let_def split: if_splits)
  have "readFile env s' = (s', Inr (Stored (normalizeManifestData d)))"
    using renamed [of env s] by (auto simp: readFile_def read_text_def s' file_exists_def no_fallback_def)
  moreover have "validateOrUpdateManifestVersion env (normalizeManifestData d) = Inr (normalizeManifestData d)"
    using assms(2,3) by (simp add: validateOrUpdateManifestVersion_def versions_ok_def normalizeManifestData_def)
  ultimately show ?thesis
    by (simp add: stored_manifest_def read_manifest_def catchM_def parse_manifest_def)
qed

lemma yields_write [yields_intros]:
  assumes "no_clash d"
  shows "yields held (writeM env d) (\<lambda>_. held) held"
  using normalize_no_clash [OF assms] renameFile_keeps
  by (fastforce simp: yields_def writeM_def held_def files_ok_def Let_def)

lemma write_keeps: "no_clash d \<Longrightarrow> held s \<Longrightarrow> writeM env d s = (s', r) \<Longrightarrow> held s'"
  using yieldsD [OF yields_write, of d s env s' r] by (simp split: sum.splits)

lemma yields_read [yields_intros]: "yields held (readM env) (\<lambda>d s. held s \<and> no_clash d) held"
  using stored_manifest_Inr(2)
  by (fastforce simp: yields_def held_def readM_locked split: sum.splits)

lemma yields_chain [yields_intros]: "yields held (chainM f) (\<lambda>_. held) held" "yields (idle b) (chainM f) (\<lambda>_. idle b) (idle b)"
  by (auto simp: yields_def chainM_def held_def idle_def files_ok_def split: prod.splits sum.splits)

lemma yields_lockedRun [yields_intros]:
  fixes m :: "('c, 'a) mact"
  assumes "yields held m (\<lambda>_. held) held"
  shows "yields (idle b) (lockedRun m) (\<lambda>_. idle b) (idle b)"
  unfolding yields_def
proof (intro allI impI)
  fix s :: "'c disk" assume i: "idle b s"
  show "case lockedRun m s of (s', Inl e) \<Rightarrow> idle b s' | (s', Inr x) \<Rightarrow> idle b s'"
  proof (cases b)
    case True
    with i show ?thesis by (simp add: lockedRun_def idle_def lock_def bindM_def)
  next
    case False
    let ?s = "s\<lparr>lock_file := True, locked := True\<rparr>"
    obtain s1 r where m: "m ?s = (s1, r)" by (cases "m ?s")
    have "held ?s" using i by (simp add: idle_def held_def files_ok_def)
    from yieldsD [OF assms this m] have "held s1" by (simp split: sum.splits)
    with i False m show ?thesis
      by (auto simp: lockedRun_def idle_def lock_def bindM_def finallyM_def release_def held_def files_ok_def split: sum.splits)
  qed
qed

section \<open>Deployments keep the manifest consistent\<close>

lemma yields_conj: "(c \<Longrightarrow> yields P m Q E) \<Longrightarrow> yields (\<lambda>s. P s \<and> c) m Q E"
  by (auto simp: yields_def)

lemma live_clash:
  "checkForAddressClash False d a c = Inr d' \<Longrightarrow> d' = d \<and> (\<forall>w. slot d w \<noteq> Some a)"
  by (auto simp: checkForAddressClash_def lookup_None_slot split: option.splits)

context manifest_entry
begin

lemma record_keeps:
  assumes "no_clash d"
  shows "yields held (record_deployment env False L mrg d u) (\<lambda>_. held) held"
  unfolding record_deployment_def
  using set_no_clash [OF assms] merge_no_clash [OF assms]
  by (auto simp: yields_def bindM_def split: option.splits sum.splits if_splits
      dest!: live_clash elim!: write_keeps [rotated 2])

lemma fetch_locked_keeps:
  assumes "\<not> developmentNetwork P"
  shows "yields held (fetch_locked env P L deploy mrg) (\<lambda>_. held) held"
  unfolding fetch_locked_def
proof (rule yields_bind [OF yields_read], rule yields_conj, intro yields_if)
  fix d assume d: "no_clash d"
  show "yields held (bindM (chainM (resumeOrDeploy P deploy (lens_get L d) mrg)) (\<lambda>r.
      case r of Same \<Rightarrow> (case lens_get L d of Some u \<Rightarrow> retM u | None \<Rightarrow> throwM (MfError ''TypeError''))
      | Fresh cleared u \<Rightarrow> bindM (record_deployment env (developmentNetwork P) L mrg (if cleared then lens_set L None d else d) u)
          (\<lambda>_. retM u))) (\<lambda>_. held) held"
  proof (rule yields_bind [OF yields_chain(1)])
    fix r
    show "yields held (case r of Same \<Rightarrow> (case lens_get L d of Some u \<Rightarrow> retM u | None \<Rightarrow> throwM (MfError ''TypeError''))
      | Fresh cleared u \<Rightarrow> bindM (record_deployment env (developmentNetwork P) L mrg (if cleared then lens_set L None d else d) u)
          (\<lambda>_. retM u)) (\<lambda>_. held) held"
    proof (cases r)
      case Same
      then show ?thesis by (cases "lens_get L d") (auto intro: yields_intros)
    next
      case (Fresh cleared u)
      have "no_clash (if cleared then lens_set L None d else d)" using d clear_no_clash by simp
      from record_keeps [OF this] assms Fresh show ?thesis by (auto intro!: yields_intros)
    qed
  qed
qed (auto intro: yields_intros)

lemma forget_keeps: "yields (idle b) (forget_deployment env L tx) (\<lambda>_. idle b) (idle b)"
  unfolding forget_deployment_def
  by (rule yields_lockedRun, rule yields_bind [OF yields_read], rule yields_conj, intro yields_if)
    (auto intro: yields_intros clear_no_clash)

lemma attempt_keeps:
  assumes "\<not> developmentNetwork P"
  shows "yields (idle b) (bindM (lockedRun (fetch_locked env P L deploy mrg)) (\<lambda>u. bindM (chainM (waitAndValidate P u)) (\<lambda>_. retM u)))
      (\<lambda>_. idle b) (idle b)"
  by (intro yields_bind [OF yields_lockedRun [OF fetch_locked_keeps [OF assms]]] yields_bind [OF yields_chain(2)])
    (auto intro: yields_intros)

lemma fetch_keeps:
  assumes "\<not> developmentNetwork P"
  shows "yields (idle b) (fetchOrDeployGeneric env P L deploy mrg) (\<lambda>_. idle b) (idle b)"
  unfolding fetchOrDeployGeneric_def
proof (rule yields_catch [OF attempt_keeps [OF assms]])
  show "yields (idle b) (case e of InvalidDeployment tx \<Rightarrow> bindM (forget_deployment env L tx) (\<lambda>_. throwM e) | _ \<Rightarrow> throwM e)
      (\<lambda>_. idle b) (idle b)" for e
    by (cases e) (auto intro!: yields_intros forget_keeps)
qed

end

lemma drop_proxy_subset: "set (drop_proxy a ps) \<subseteq> set ps"
  by (induction ps) auto

lemma drop_proxy_distinct:
  "distinct (map dp_address ps) \<Longrightarrow> distinct (map dp_address (drop_proxy a ps)) \<and> (\<forall>p \<in> set (drop_proxy a ps). dp_address p \<noteq> a)"
  by (induction ps) (auto simp: image_iff dest!: subsetD [OF drop_proxy_subset])

lemma addProxy_keeps: "yields (idle b) (addProxy env p) (\<lambda>_. idle b) (idle b)"
  unfolding addProxy_def
proof (rule yields_lockedRun, rule yields_bind [OF yields_read], rule yields_conj, rule yields_write)
  fix d assume d: "no_clash d"
  let ?d = "d\<lparr>mf_proxies := drop_proxy (dp_address p) (mf_proxies d) @ [p]\<rparr>"
  have "slot ?d = slot d" by (auto simp: slot_def impl_entry_def fun_eq_iff split: mf_entry.splits)
  with d drop_proxy_distinct [of "mf_proxies d" "dp_address p"] show "no_clash ?d"
    by (auto simp: no_clash_def)
qed

text \<open>The states that a live network's deployments reach, with any library, deployments and
  failures.\<close>

inductive manifest_run :: "mf_env \<Rightarrow> 'c disk \<Rightarrow> bool" for env where
  start: "mf_files s = [] \<Longrightarrow> \<not> locked s \<Longrightarrow> \<not> lock_file s \<Longrightarrow> manifest_run env s"
| impl: "manifest_run env s \<Longrightarrow> \<not> developmentNetwork P \<Longrightarrow> fetchOrDeploy env P v deploy mrg s = (s', r) \<Longrightarrow> manifest_run env s'"
| admin: "manifest_run env s \<Longrightarrow> \<not> developmentNetwork PA \<Longrightarrow> fetchOrDeployAdmin env PA deployA s = (s', r) \<Longrightarrow> manifest_run env s'"
| proxy: "manifest_run env s \<Longrightarrow> addProxy env p s = (s', u) \<Longrightarrow> manifest_run env s'"

lemma address_keeps:
  assumes "yields (idle b) (fetchOrDeployGeneric env P L deploy mrg) (\<lambda>_. idle b) (idle b)"
  shows "yields (idle b) (bindM (fetchOrDeployGeneric env P L deploy mrg) (\<lambda>u. retM (dp_address u))) (\<lambda>_. idle b) (idle b)"
  by (rule yields_bind [OF assms]) (auto intro: yields_intros)

lemma run_idle: "manifest_run env s \<Longrightarrow> idle False s"
proof (induction rule: manifest_run.induct)
  case (start s)
  then show ?case by (simp add: idle_def files_ok_def)
next
  case (impl s P v deploy mrg s' r)
  from yieldsD [OF address_keeps [OF impl.fetch_keeps [OF impl.hyps(2)]] impl.IH] impl.hyps(3)
  show ?case by (fastforce simp: fetchOrDeploy_def split: sum.splits)
next
  case (admin s PA deployA s' r)
  from yieldsD [OF address_keeps [OF admin.fetch_keeps [OF admin.hyps(2)]] admin.IH] admin.hyps(3)
  show ?case by (fastforce simp: fetchOrDeployAdmin_def split: sum.splits)
next
  case (proxy s p s' u)
  from yieldsD [OF addProxy_keeps proxy.IH proxy.hyps(2)] show ?case by (simp split: sum.splits)
qed

text \<open>A library on a live network whose chain counts the deployments; a deployment with the
  transaction \<open>lost\<close> is found invalid.\<close>

definition live_provider :: "(nat, impl_deployment) provider" where
  "live_provider =
     \<lparr>resumeOrDeploy = (\<lambda>deploy stored mrg c. case stored of
        Some d \<Rightarrow> (c, Inr Same)
      | None \<Rightarrow> (case deploy c of (c', Inl e) \<Rightarrow> (c', Inl e) | (c', Inr d) \<Rightarrow> (c', Inr (Fresh False d)))),
      waitAndValidate = (\<lambda>d c. if dp_txHash d = Some ''lost'' then (c, Inl (InvalidDeployment (Some ''lost''))) else (c, Inr ())),
      developmentNetwork = False\<rparr>"

definition deploys :: "string \<Rightarrow> string \<Rightarrow> nat \<Rightarrow> nat \<times> (mf_error + impl_deployment)" where
  "deploys a tx c = (Suc c, Inr \<lparr>dp_address = a, dp_txHash = Some tx, dp_fields = [(''abi'', JArr [])],
     dp_layout = JNull, dp_allAddresses = None\<rparr>)"

definition local_env :: mf_env where
  "local_env = \<lparr>mf_chainId = 5, mf_network = Some ''goerli'', mf_dir = ''d'', older = (\<lambda>a b. Inr (a = ''3.0'' \<and> b \<noteq> ''3.0''))\<rparr>"

definition empty_disk :: "nat disk" where
  "empty_disk = \<lparr>mf_files = [], lock_file = False, locked = False, chain_state = 0\<rparr>"

lemma deployments_start: "manifest_run local_env empty_disk" "\<not> developmentNetwork live_provider" "versions_ok local_env"
  by (rule manifest_run.start) (simp_all add: empty_disk_def live_provider_def local_env_def versions_ok_def currentManifestVersion_def)

text \<open>C14: Whatever is deployed, imported or fails on a live network, in whatever order, the
  manifest never has two entries or two proxies with the same address, and the lock of the
  chain is free after every operation.\<close>

theorem deployments_never_clash:
  assumes "manifest_run env s"
  shows "\<not> lock_file s \<and> \<not> locked s \<and> (\<forall>f d. obj_get (mf_files s) f = Some (Stored d) \<longrightarrow> no_clash d)"
  using run_idle [OF assms] by (simp add: idle_def files_ok_def)

lemma deployments_never_clash_witness:
  "let s = fst (fetchOrDeploy local_env live_provider ''v'' (deploys ''A'' ''t'') False empty_disk)
   in \<not> lock_file s \<and> \<not> locked s \<and> (\<forall>f d. obj_get (mf_files s) f = Some (Stored d) \<longrightarrow> no_clash d)"
  unfolding Let_def
  by (rule deployments_never_clash [OF manifest_run.impl [OF deployments_start(1,2) surjective_pairing]])

section \<open>What is found after a deployment\<close>

definition taken :: "'c disk \<Rightarrow> 'c disk" where
  "taken s = s\<lparr>lock_file := True, locked := True\<rparr>"

lemma lockedRun_free:
  assumes "idle False s"
  shows "lockedRun m s = (case m (taken s) of (s1, r) \<Rightarrow> (release s1, r))"
  using assms by (simp add: lockedRun_def idle_def lock_def bindM_def finallyM_def taken_def split: prod.splits)

lemma stored_after [simp]:
  "stored_manifest env (release s) = stored_manifest env s" "stored_manifest env (s\<lparr>chain_state := c\<rparr>) = stored_manifest env s"
  "stored_manifest env (taken s) = stored_manifest env s"
  by (rule stored_manifest_cong, simp add: release_def taken_def)+

lemma taken_facts:
  assumes "idle False s"
  shows "held (taken s)" "release (taken s) = s" "release (taken s\<lparr>chain_state := c\<rparr>) = s\<lparr>chain_state := c\<rparr>"
    "readM env (taken s) = (taken s, stored_manifest env s)" "readM env s = (s, stored_manifest env s)"
proof -
  have "locked (taken s)" by (simp add: taken_def)
  then show "readM env (taken s) = (taken s, stored_manifest env s)" by (simp add: readM_locked)
  show "readM env s = (s, stored_manifest env s)" using assms by (simp add: idle_def readM_free)
qed (use assms in \<open>simp_all add: idle_def held_def taken_def files_ok_def release_def\<close>)

lemma stored_idle: "idle b s \<Longrightarrow> stored_manifest env s = Inr d \<Longrightarrow> no_clash d"
  by (auto simp: idle_def dest: stored_manifest_Inr(2))

lemma write_result: "locked s \<Longrightarrow> \<exists>s'. writeM env d s = (s', Inr ())"
  by (simp add: writeM_def Let_def)

text \<open>The entry of a version after it was written.\<close>

lemma written_entry:
  assumes "writeM env (set_impl v x d) s = (s', Inr ())" "versions_ok env" "mf_version d = Some currentManifestVersion" "no_clash d"
  shows "\<exists>d'. stored_manifest env s' = Inr d' \<and> impl_entry v d' = map_option normalizeDeployment x"
proof -
  have "stored_manifest env s' = Inr (normalizeManifestData (set_impl v x d))"
    using assms(3) by (intro written [OF assms(1,2)]) (simp add: set_impl_def)
  moreover have "distinct (keys (mf_impls (set_impl v x d)))"
    using assms(4) by (auto simp: set_impl_def no_clash_def)
  ultimately show ?thesis by (simp add: impl_entry_normalize) (simp add: impl_entry_def set_impl_def)
qed

lemma forget_result:
  assumes "idle False s" "versions_ok env" "forget_deployment env (implLens v) tx s = (s', r)"
  shows "(\<exists>e. r = Inl e \<and> (\<forall>t. e \<noteq> InvalidDeployment t)) \<or>
    r = Inr () \<and> (\<exists>d. stored_manifest env s' = Inr d \<and> (\<forall>i. impl_entry v d = Some i \<longrightarrow> dp_txHash i \<noteq> tx))"
proof (cases "stored_manifest env s")
  case (Inl e)
  with assms stored_no_invalid [of env s] show ?thesis
    by (auto simp: forget_deployment_def lockedRun_free taken_facts bindM_def)
next
  case (Inr d)
  let ?hit = "(case impl_entry v d of None \<Rightarrow> None | Some u \<Rightarrow> dp_txHash u) = tx"
  show ?thesis
  proof (cases ?hit)
    case True
    obtain s1 where w: "writeM env (set_impl v None d) (taken s) = (s1, Inr ())"
      using write_result taken_facts(1) [OF assms(1)] by (metis held_def)
    with True Inr assms have "s' = release s1 \<and> r = Inr ()"
      by (simp add: forget_deployment_def lockedRun_free taken_facts bindM_def implLens_def)
    with written_entry [OF w assms(2) stored_manifest_Inr(1) [OF Inr] stored_idle [OF assms(1) Inr]] show ?thesis by auto
  next
    case False
    with Inr assms have "s' = s \<and> r = Inr ()"
      by (simp add: forget_deployment_def lockedRun_free taken_facts bindM_def implLens_def)
    with False Inr show ?thesis by auto
  qed
qed

lemma generic_idle:
  assumes "idle False s" "\<not> developmentNetwork P" "fetchOrDeployGeneric env P (implLens v) deploy mrg s = (s', r)"
  shows "idle False s'"
  using yieldsD [OF impl.fetch_keeps [OF assms(2)] assms(1,3)] by (simp split: sum.splits)


lemma fetch_locked_entry:
  assumes "idle False s" "\<not> developmentNetwork P" "versions_ok env" "stored_manifest env s = Inr d"
    and "fetch_locked env P (implLens v) deploy False (taken s) = (s1, Inr u)"
  shows "\<exists>d' i. stored_manifest env s1 = Inr d' \<and> impl_entry v d' = Some i \<and> dp_address i = dp_address u"
proof -
  let ?c = "chain_state (taken s)"
  obtain c r where rs: "resumeOrDeploy P deploy (impl_entry v d) False ?c = (c, r)"
    by (cases "resumeOrDeploy P deploy (impl_entry v d) False ?c")
  note f = assms(5) [unfolded fetch_locked_def] taken_facts(4) [OF assms(1), of env]
  show ?thesis
  proof (cases r)
    case (Inr q)
    show ?thesis
    proof (cases q)
      case Same
      then have "impl_entry v d = Some u" "s1 = taken s\<lparr>chain_state := c\<rparr>"
        using f assms(4) rs Inr by (simp_all add: implLens_def bindM_def chainM_def split: option.splits)
      then show ?thesis using assms(4) by simp
    next
      case (Fresh cl u')
      let ?d = "if cl then set_impl v None d else d"
      have n: "no_clash d" by (rule stored_idle [OF assms(1,4)])
      then have d: "no_clash ?d" "mf_version ?d = Some currentManifestVersion"
        using impl.clear_no_clash [OF n, of v] stored_manifest_Inr(1) [OF assms(4)]
        by (simp_all add: implLens_def) (simp add: set_impl_def)
      have "u' = u \<and> writeM env (set_impl v (Some u) ?d) (taken s\<lparr>chain_state := c\<rparr>) = (s1, Inr ())"
        using f assms(2,4) rs Inr Fresh
        by (auto simp: implLens_def bindM_def chainM_def record_deployment_def split: prod.splits sum.splits
            dest!: live_clash)
      then show ?thesis using written_entry [OF _ assms(3) d(2,1)] by (fastforce simp: normalizeDeployment_def)
    qed
  qed (use f assms(4) rs in \<open>simp add: implLens_def bindM_def chainM_def\<close>)
qed




end
