(* ===== verification/Upgrades.thy ===== *)
theory Upgrades
  imports Manifests
begin

text \<open>
  The deployment and the upgrade of contracts behind proxies, \<open>src/network/deployer\<close>:
  \<open>processProxyKind.ts\<close>, \<open>deployProxyImpl.ts\<close>, \<open>deployProxy.ts\<close>, \<open>upgradeProxy.ts\<close>,
  \<open>simulateDeploy.ts\<close>, \<open>forceImport.ts\<close> and the deployment of a site's contracts in
  \<open>index.ts\<close>, over the manifests of \<open>Manifests\<close>.  The upgrades library, hardhat, the storage
  and the key-value store are arguments.  The contracts of a site are handled one after the
  other, which is one of the orders that the code allows.
\<close>

section \<open>The library\<close>

record upgrade_opts =
  op_kind :: "proxy_kind option"
  op_skipStorageCheck :: bool
  op_call :: "string option"

text \<open>What the library derives from a contract factory: \<open>getDeployData\<close>, the two checks, and the
  deployment of the implementation, whose layout the code adds.\<close>

record 'c factory =
  fc_version :: string
  fc_layout :: json
  fc_abi :: json
  fc_kind :: proxy_kind
  fc_safe :: "mf_error + unit"
  fc_deploy :: "'c \<Rightarrow> 'c \<times> (mf_error + deployment)"
  fc_initializer :: "string list \<Rightarrow> mf_error + string"
  fc_call :: "string \<Rightarrow> mf_error + string"

datatype upgrade_tx =
    UpgradeTo string string
  | UpgradeToAndCall string string string
  | AdminUpgrade string string string
  | AdminUpgradeAndCall string string string string

record 'c upgrades =
  isBeaconProxy :: "string \<Rightarrow> 'c \<Rightarrow> mf_error + bool"
  isBeacon :: "string \<Rightarrow> 'c \<Rightarrow> mf_error + bool"
  getImplementationAddress :: "string \<Rightarrow> 'c \<Rightarrow> mf_error + string"
  implementationFromProxy :: "string \<Rightarrow> 'c \<Rightarrow> mf_error + string option"
  implementationFromBeacon :: "string \<Rightarrow> 'c \<Rightarrow> mf_error + string"
  getAdminAddress :: "string \<Rightarrow> 'c \<Rightarrow> mf_error + string"
  isEmptySlot :: "string \<Rightarrow> bool"
  getCode :: "string \<Rightarrow> 'c \<Rightarrow> mf_error + string"
  storageUpgradeSafe :: "json \<Rightarrow> json \<Rightarrow> mf_error + unit"
  deployProxyContract :: "string \<Rightarrow> string \<Rightarrow> 'c \<Rightarrow> 'c \<times> (mf_error + deployment)"
  sendUpgrade :: "upgrade_tx \<Rightarrow> 'c \<Rightarrow> 'c \<times> (mf_error + unit)"
  implProvider :: "('c, impl_deployment) provider"
  adminProvider :: "('c, deployment) provider"

definition askM :: "('c \<Rightarrow> mf_error + 'a) \<Rightarrow> ('c, 'a) mact" where
  "askM f st = (st, f (chain_state st))"

section \<open>Kinds of proxies\<close>

definition setProxyKind :: "mf_env \<Rightarrow> string \<Rightarrow> proxy_kind option \<Rightarrow> ('c, proxy_kind) mact" where
  "setProxyKind env a kind =
     bindM (catchM (bindM (getProxyFromAddress env a) (\<lambda>p. retM (Some p)))
              (\<lambda>e. case e of DeploymentNotFound _ \<Rightarrow> retM None | _ \<Rightarrow> throwM e)) (\<lambda>m.
       case (kind, m) of
         (None, None) \<Rightarrow> retM Transparent
       | (None, Some p) \<Rightarrow> retM (dp_kind p)
       | (Some k, None) \<Rightarrow> retM k
       | (Some k, Some p) \<Rightarrow>
           if k \<noteq> dp_kind p then throwM (MfError ''Requested an upgrade of another kind than the proxy'') else retM k)"

definition processProxyKind :: "mf_env \<Rightarrow> 'c upgrades \<Rightarrow> string option \<Rightarrow> proxy_kind option \<Rightarrow> proxy_kind \<Rightarrow> ('c, proxy_kind) mact" where
  "processProxyKind env U a kind inferred =
     bindM
       (case kind of
          Some k \<Rightarrow> retM k
        | None \<Rightarrow>
            (case a of
               None \<Rightarrow> retM inferred
             | Some a \<Rightarrow> bindM (askM (isBeaconProxy U a)) (\<lambda>b. retM (if b then Beacon else inferred))))
       (\<lambda>k. bindM (case a of None \<Rightarrow> retM k | Some a \<Rightarrow> setProxyKind env a (Some k)) (\<lambda>k.
          if k = Beacon then throwM (MfError ''BeaconProxyUnsupportedError'') else retM k))"

section \<open>The implementation\<close>

text \<open>The deployment of an implementation: the interface, what the library deployed, the layout.\<close>

definition with_layout :: "'c factory \<Rightarrow> deployment \<Rightarrow> impl_deployment" where
  "with_layout F d =
     \<lparr>dp_address = dp_address d, dp_txHash = dp_txHash d, dp_fields = obj_merge [(''abi'', fc_abi F)] (dp_fields d),
      dp_layout = fc_layout F, dp_allAddresses = None\<rparr>"

definition deploy_with_layout :: "'c factory \<Rightarrow> 'c \<Rightarrow> 'c \<times> (mf_error + impl_deployment)" where
  "deploy_with_layout F c =
     (case fc_deploy F c of (c1, Inl e) \<Rightarrow> (c1, Inl e) | (c1, Inr d) \<Rightarrow> (c1, Inr (with_layout F d)))"

text \<open>\<open>getStorageLayoutForAddress\<close> asks the manifest for the deployment at the address.\<close>

definition deployImpl ::
  "mf_env \<Rightarrow> 'c upgrades \<Rightarrow> 'c factory \<Rightarrow> upgrade_opts \<Rightarrow> string option \<Rightarrow> ('c, string) mact" where
  "deployImpl env U F opts currentImpl =
     bindM (liftM (fc_safe F)) (\<lambda>_.
     bindM
       (case currentImpl of
          None \<Rightarrow> retM ()
        | Some a \<Rightarrow> bindM (getDeploymentFromAddress env a) (\<lambda>i.
            if op_skipStorageCheck opts then retM () else liftM (storageUpgradeSafe U (dp_layout i) (fc_layout F))))
       (\<lambda>_. fetchOrDeploy env (implProvider U) (fc_version F) (deploy_with_layout F) False))"

definition deployProxyImpl ::
  "mf_env \<Rightarrow> 'c upgrades \<Rightarrow> 'c factory \<Rightarrow> upgrade_opts \<Rightarrow> string option \<Rightarrow> ('c, string \<times> proxy_kind) mact" where
  "deployProxyImpl env U F opts a =
     bindM (processProxyKind env U a (op_kind opts) (fc_kind F)) (\<lambda>k.
     bindM (case a of None \<Rightarrow> retM None | Some a \<Rightarrow> bindM (askM (getImplementationAddress U a)) (\<lambda>i. retM (Some i))) (\<lambda>cur.
     bindM (deployImpl env U F opts cur) (\<lambda>impl. retM (impl, k))))"

section \<open>A new proxy\<close>

definition proxy_of :: "proxy_kind \<Rightarrow> deployment \<Rightarrow> proxy_deployment" where
  "proxy_of k d = \<lparr>dp_address = dp_address d, dp_txHash = dp_txHash d, dp_fields = dp_fields d, dp_kind = k\<rparr>"

text \<open>The admin is read for a warning only.\<close>

definition deployProxy :: "mf_env \<Rightarrow> 'c upgrades \<Rightarrow> 'c factory \<Rightarrow> string list \<Rightarrow> ('c, string) mact" where
  "deployProxy env U F args =
     bindM (deployProxyImpl env U F \<lparr>op_kind = Some Uups, op_skipStorageCheck = False, op_call = None\<rparr> None) (\<lambda>(impl, k).
     bindM (liftM (fc_initializer F args)) (\<lambda>input.
     bindM (getAdmin env) (\<lambda>_.
     bindM (chainM (deployProxyContract U impl input)) (\<lambda>d.
     bindM (addProxy env (proxy_of k d)) (\<lambda>_. retM (dp_address d))))))"

section \<open>An upgrade\<close>

definition encodeCall :: "'c factory \<Rightarrow> string option \<Rightarrow> mf_error + string option" where
  "encodeCall F call =
     (case call of
        None \<Rightarrow> Inr None
      | Some fn \<Rightarrow> if fn = [] then Inr None else (case fc_call F fn of Inl e \<Rightarrow> Inl e | Inr x \<Rightarrow> Inr (Some x)))"

definition getUpgrader :: "mf_env \<Rightarrow> 'c upgrades \<Rightarrow> string \<Rightarrow> ('c, string \<Rightarrow> string option \<Rightarrow> upgrade_tx) mact" where
  "getUpgrader env U a =
     bindM (askM (getAdminAddress U a)) (\<lambda>adm.
     bindM (askM (getCode U adm)) (\<lambda>code.
       if isEmptySlot U adm \<or> code = ''0x''
       then retM (\<lambda>impl call. case call of Some x \<Rightarrow> UpgradeToAndCall a impl x | None \<Rightarrow> UpgradeTo a impl)
       else bindM (getAdmin env) (\<lambda>known.
         if map_option dp_address known \<noteq> Some adm
         then throwM (MfError ''Proxy admin is not the one registered in the network manifest'')
         else retM (\<lambda>impl call. case call of Some x \<Rightarrow> AdminUpgradeAndCall adm a impl x | None \<Rightarrow> AdminUpgrade adm a impl))))"

definition prepare_upgrade ::
  "mf_env \<Rightarrow> 'c upgrades \<Rightarrow> string \<Rightarrow> 'c factory \<Rightarrow> upgrade_opts \<Rightarrow> ('c, upgrade_tx) mact" where
  "prepare_upgrade env U a F opts =
     bindM (deployProxyImpl env U F opts (Some a)) (\<lambda>(impl, k).
     bindM (getUpgrader env U a) (\<lambda>upgradeTo.
     bindM (liftM (encodeCall F (op_call opts))) (\<lambda>call. retM (upgradeTo impl call))))"

definition upgradeProxy :: "mf_env \<Rightarrow> 'c upgrades \<Rightarrow> string \<Rightarrow> 'c factory \<Rightarrow> upgrade_opts \<Rightarrow> ('c, string) mact" where
  "upgradeProxy env U a F opts =
     bindM (prepare_upgrade env U a F opts) (\<lambda>tx. bindM (chainM (sendUpgrade U tx)) (\<lambda>_. retM a))"

section \<open>Importing a proxy\<close>

definition simulated_impl :: "'c factory \<Rightarrow> string \<Rightarrow> 'c \<Rightarrow> 'c \<times> (mf_error + impl_deployment)" where
  "simulated_impl F a c = (c, Inr \<lparr>dp_address = a, dp_txHash = None, dp_fields = [(''abi'', fc_abi F)],
     dp_layout = fc_layout F, dp_allAddresses = None\<rparr>)"

definition simulated_admin :: "'c factory \<Rightarrow> string \<Rightarrow> 'c \<Rightarrow> 'c \<times> (mf_error + deployment)" where
  "simulated_admin F a c = (c, Inr \<lparr>dp_address = a, dp_txHash = None,
     dp_fields = [(''abi'', fc_abi F), (''layout'', fc_layout F)]\<rparr>)"

definition simulateDeployImpl :: "mf_env \<Rightarrow> 'c upgrades \<Rightarrow> 'c factory \<Rightarrow> string \<Rightarrow> ('c, unit) mact" where
  "simulateDeployImpl env U F a =
     bindM (fetchOrDeploy env (implProvider U) (fc_version F) (simulated_impl F a) True) (\<lambda>_. retM ())"

text \<open>Another admin in the manifest gives a warning only.\<close>

definition simulateDeployAdmin :: "mf_env \<Rightarrow> 'c upgrades \<Rightarrow> 'c factory \<Rightarrow> string \<Rightarrow> ('c, unit) mact" where
  "simulateDeployAdmin env U F a =
     bindM (fetchOrDeployAdmin env (adminProvider U) (simulated_admin F a)) (\<lambda>_. retM ())"

definition importProxyToManifest ::
  "mf_env \<Rightarrow> 'c upgrades \<Rightarrow> string \<Rightarrow> string \<Rightarrow> 'c factory \<Rightarrow> proxy_kind option \<Rightarrow> ('c, unit) mact" where
  "importProxyToManifest env U a impl F kind =
     bindM (simulateDeployImpl env U F impl) (\<lambda>_.
     bindM
       (case kind of
          Some k \<Rightarrow> retM k
        | None \<Rightarrow> bindM (askM (isBeaconProxy U a)) (\<lambda>b. retM (if b then Beacon else fc_kind F)))
       (\<lambda>k.
     bindM (if k = Transparent then bindM (askM (getAdminAddress U a)) (simulateDeployAdmin env U F) else retM ()) (\<lambda>_.
     bindM (addProxy env \<lparr>dp_address = a, dp_txHash = None, dp_fields = [], dp_kind = k\<rparr>) (\<lambda>_.
       if k \<noteq> Transparent then bindM (getAdmin env) (\<lambda>_. retM ()) else retM ()))))"

definition forceImport :: "mf_env \<Rightarrow> 'c upgrades \<Rightarrow> string \<Rightarrow> 'c factory \<Rightarrow> proxy_kind option \<Rightarrow> ('c, string) mact" where
  "forceImport env U a F kind =
     bindM (askM (implementationFromProxy U a)) (\<lambda>m.
       case m of
         Some impl \<Rightarrow> bindM (importProxyToManifest env U a impl F kind) (\<lambda>_. retM a)
       | None \<Rightarrow>
           bindM (askM (isBeacon U a)) (\<lambda>b.
             if b then
               bindM (askM (implementationFromBeacon U a)) (\<lambda>impl.
               bindM (simulateDeployImpl env U F impl) (\<lambda>_. retM a))
             else throwM (MfError ''ForceImportUnsupportedError'')))"

section \<open>The contracts of a site\<close>

definition PROXY_METADATA_KEY :: string where
  "PROXY_METADATA_KEY = ''zweb/contracts/proxy/metadata''"

definition metadata_names :: "(nat \<times> string) list" where
  "metadata_names = [(1, ''mainnet''), (2, ''morden''), (3, ''ropsten''), (4, ''rinkeby''), (5, ''goerli''), (42, ''kovan'')]"

definition getProxyMetadataFilePath :: "mf_env \<Rightarrow> string" where
  "getProxyMetadataFilePath env =
     manifest_path env (case map_of metadata_names (mf_chainId env) of
       Some n \<Rightarrow> n | None \<Rightarrow> ''unknown-'' @ show_nat (mf_chainId env))"

record 'c site_store =
  kv_read :: "string \<Rightarrow> string \<Rightarrow> 'c \<Rightarrow> mf_error + string option"
  kv_write :: "string \<Rightarrow> string \<Rightarrow> string \<Rightarrow> string \<Rightarrow> 'c \<Rightarrow> 'c \<times> (mf_error + unit)"
  store_artifacts :: "string \<Rightarrow> 'c \<Rightarrow> 'c \<times> (mf_error + string)"
  store_metadata :: "manifest_data \<Rightarrow> 'c \<Rightarrow> 'c \<times> (mf_error + string)"
  load_metadata :: "string \<Rightarrow> 'c \<Rightarrow> mf_error + file_text"
  identity_contract :: "'c \<Rightarrow> mf_error + string"
  factory_of :: "string \<Rightarrow> mf_error + 'c factory"
  wait_deployed :: "string \<Rightarrow> 'c \<Rightarrow> 'c \<times> (mf_error + unit)"

definition present :: "string option \<Rightarrow> string option" where
  "present x = (case x of Some s \<Rightarrow> if s = [] then None else Some s | None \<Rightarrow> None)"

definition storeContractArtifacts ::
  "'c site_store \<Rightarrow> string \<Rightarrow> string \<Rightarrow> string \<Rightarrow> string \<Rightarrow> ('c, string) mact" where
  "storeContractArtifacts K contractName version a target =
     bindM (chainM (store_artifacts K contractName)) (\<lambda>id.
     bindM (chainM (kv_write K target (''zweb/contracts/address/'' @ contractName) a version)) (\<lambda>_.
     bindM (chainM (kv_write K target (''zweb/contracts/abi/'' @ contractName) id version)) (\<lambda>_. retM id)))"

definition put_file :: "string \<Rightarrow> file_text \<Rightarrow> ('c, unit) mact" where
  "put_file f t st = (st\<lparr>mf_files := obj_set f t (mf_files st)\<rparr>, Inr ())"

definition remove_file :: "string \<Rightarrow> ('c, unit) mact" where
  "remove_file f st = (st\<lparr>mf_files := obj_del f (mf_files st)\<rparr>, Inr ())"

text \<open>\<open>target.replace(/.point$/, '')\<close>: the dot stands for any character of the line.\<close>

definition bare_identity :: "string \<Rightarrow> string" where
  "bare_identity target =
     (if length target > 5 \<and> ends_with ''point'' target \<and> target ! (length target - 6) \<notin> {CHR 0x0A, CHR 0x0D} then take (length target - 6) target else target)"

definition no_opts :: upgrade_opts where
  "no_opts = \<lparr>op_kind = None, op_skipStorageCheck = False, op_call = None\<rparr>"

definition proxy_for ::
  "mf_env \<Rightarrow> 'c upgrades \<Rightarrow> 'c site_store \<Rightarrow> string \<Rightarrow> bool \<Rightarrow> string \<Rightarrow> ('c, string) mact" where
  "proxy_for env U K target forceDeployProxy contractName =
     bindM (askM (kv_read K target (''zweb/contracts/address/'' @ contractName))) (\<lambda>known.
     bindM (askM (kv_read K target PROXY_METADATA_KEY)) (\<lambda>meta.
     bindM (liftM (factory_of K contractName)) (\<lambda>F.
       case (present known, present meta, forceDeployProxy) of
         (Some a, Some m, False) \<Rightarrow>
           bindM (askM (load_metadata K m)) (\<lambda>t.
           bindM (put_file (getProxyMetadataFilePath env) t) (\<lambda>_.
             catchM (upgradeProxy env U a F no_opts) (\<lambda>_.
               bindM (remove_file (getProxyMetadataFilePath env)) (\<lambda>_.
               bindM (forceImport env U a F (Some Uups)) (\<lambda>_.
               upgradeProxy env U a F no_opts)))))
       | _ \<Rightarrow>
           bindM (askM (identity_contract K)) (\<lambda>idc.
             catchM (deployProxy env U F [idc, bare_identity target]) (\<lambda>_. deployProxy env U F [])))))"

definition deploy_upgradable ::
  "mf_env \<Rightarrow> 'c upgrades \<Rightarrow> 'c site_store \<Rightarrow> string \<Rightarrow> string \<Rightarrow> bool \<Rightarrow> string \<Rightarrow> ('c, unit) mact" where
  "deploy_upgradable env U K version target force contractName =
     bindM (proxy_for env U K target force contractName) (\<lambda>a.
     bindM (chainM (wait_deployed K a)) (\<lambda>_.
     bindM (storeContractArtifacts K contractName version a target) (\<lambda>_. retM ())))"

fun each_contract :: "(string \<Rightarrow> ('c, unit) mact) \<Rightarrow> string list \<Rightarrow> ('c, unit) mact" where
  "each_contract f [] = retM ()"
| "each_contract f (n # ns) = bindM (f n) (\<lambda>_. each_contract f ns)"

definition deployUpgradableContracts ::
  "mf_env \<Rightarrow> 'c upgrades \<Rightarrow> 'c site_store \<Rightarrow> string list \<Rightarrow> string \<Rightarrow> string \<Rightarrow> bool \<Rightarrow> ('c, unit) mact" where
  "deployUpgradableContracts env U K contracts version target force =
     bindM (each_contract (deploy_upgradable env U K version target force) contracts) (\<lambda>_.
     bindM (read_text (getProxyMetadataFilePath env)) (\<lambda>t.
     bindM (liftM (parse_manifest t)) (\<lambda>d.
     bindM (chainM (store_metadata K d)) (\<lambda>id.
     chainM (kv_write K target PROXY_METADATA_KEY id version)))))"

section \<open>Checks before an upgrade\<close>

lemma bindM_Inr: "bindM m f s = (s', Inr y) \<Longrightarrow> \<exists>s1 x. m s = (s1, Inr x) \<and> f x s1 = (s', Inr y)"
  by (auto simp: bindM_def split: prod.splits sum.splits)

lemma read_same: "idle False s \<Longrightarrow> readM env s = (s1, Inr d) \<longleftrightarrow> s1 = s \<and> stored_manifest env s = Inr d"
  by (auto simp: taken_facts(5))

text \<open>Looking up a proxy, and what its kind allows.\<close>

lemma setProxyKind_Inr:
  assumes "idle False s" "setProxyKind env a (Some k) s = (s', Inr k')"
  shows "s' = s \<and> k' = k \<and> (\<exists>d. stored_manifest env s = Inr d \<and> (\<forall>p. find (\<lambda>p. dp_address p = a) (mf_proxies d) = Some p \<longrightarrow> dp_kind p = k))"
proof (cases "stored_manifest env s")
  case (Inl e)
  then have r: "readM env s = (s, Inl e)" using taken_facts(5) [OF assms(1)] by simp
  have "\<forall>t. e \<noteq> DeploymentNotFound t"
    using Inl stored_no_missing by metis
  with r assms(2) show ?thesis
    by (cases e) (simp_all add: setProxyKind_def getProxyFromAddress_def bindM_def catchM_def)
next
  case (Inr d)
  then have r: "readM env s = (s, Inr d)" using taken_facts(5) [OF assms(1)] by simp
  show ?thesis
  proof (cases "find (\<lambda>p. dp_address p = a) (mf_proxies d)")
    case None
    with r Inr assms(2) show ?thesis
      by (simp add: setProxyKind_def getProxyFromAddress_def bindM_def catchM_def)
  next
    case (Some p)
    with r Inr assms(2) show ?thesis
      by (auto simp: setProxyKind_def getProxyFromAddress_def bindM_def catchM_def split: if_splits)
  qed
qed

lemma processProxyKind_Inr:
  assumes "idle False s" "processProxyKind env U (Some a) kind inferred s = (s', Inr k)"
  shows "s' = s \<and> k \<noteq> Beacon \<and> (\<forall>k'. kind = Some k' \<longrightarrow> k = k') \<and>
    (\<exists>d. stored_manifest env s = Inr d \<and> (\<forall>p. find (\<lambda>p. dp_address p = a) (mf_proxies d) = Some p \<longrightarrow> dp_kind p = k))"
proof -
  let ?first = "case kind of Some k \<Rightarrow> retM k | None \<Rightarrow> (case Some a of None \<Rightarrow> retM inferred
    | Some a \<Rightarrow> bindM (askM (isBeaconProxy U a)) (\<lambda>b. retM (if b then Beacon else inferred)))"
  obtain s1 k1 where k1: "?first s = (s1, Inr k1)"
    and r: "bindM (setProxyKind env a (Some k1)) (\<lambda>k. if k = Beacon then throwM (MfError ''BeaconProxyUnsupportedError'') else retM k) s1 = (s', Inr k)"
    using bindM_Inr [OF assms(2) [unfolded processProxyKind_def]] by auto
  have s1: "s1 = s" "\<forall>k'. kind = Some k' \<longrightarrow> k1 = k'"
    using k1 by (auto simp: bindM_def askM_def split: option.splits sum.splits)
  obtain s2 k2 where "setProxyKind env a (Some k1) s = (s2, Inr k2)" "k2 \<noteq> Beacon" "s' = s2" "k = k2"
    using bindM_Inr [OF r] s1(1) by (auto split: if_splits)
  with setProxyKind_Inr [OF assms(1), of env a k1 s2 k2] s1(2) show ?thesis by auto
qed


section \<open>A site with two contracts\<close>

text \<open>A chain that remembers the metadata that were stored, a library that accepts everything, and
  a site store with the metadata of an earlier deployment.\<close>

definition version_at :: "string \<Rightarrow> string \<Rightarrow> string \<times> impl_deployment option" where
  "version_at v a = (v, Some \<lparr>dp_address = a, dp_txHash = Some ''t'', dp_fields = [], dp_layout = JNull, dp_allAddresses = None\<rparr>)"

definition old_metadata :: manifest_data where
  "old_metadata = \<lparr>mf_version = Some ''3.2'', mf_impls = [version_at ''one'' ''i1'', version_at ''two'' ''i2''],
     mf_proxies = [], mf_admin = None\<rparr>"

definition accepting :: "('c, 'd) provider" where
  "accepting =
     \<lparr>resumeOrDeploy = (\<lambda>deploy stored mrg c. case stored of
        Some d \<Rightarrow> (c, Inr Same)
      | None \<Rightarrow> (case deploy c of (c', Inl e) \<Rightarrow> (c', Inl e) | (c', Inr d) \<Rightarrow> (c', Inr (Fresh False d)))),
      waitAndValidate = (\<lambda>d c. (c, Inr ())), developmentNetwork = False\<rparr>"

definition factory_for :: "string \<Rightarrow> string \<Rightarrow> 'c factory" where
  "factory_for v a =
     \<lparr>fc_version = v, fc_layout = JNull, fc_abi = JArr [], fc_kind = Uups, fc_safe = Inr (),
      fc_deploy = (\<lambda>c. (c, Inr \<lparr>dp_address = a, dp_txHash = Some ''t'', dp_fields = []\<rparr>)),
      fc_initializer = (\<lambda>_. Inr []), fc_call = (\<lambda>_. Inr [])\<rparr>"

definition accepting_chain :: "'c upgrades" where
  "accepting_chain =
     \<lparr>isBeaconProxy = (\<lambda>_ _. Inr False), isBeacon = (\<lambda>_ _. Inr False),
      getImplementationAddress = (\<lambda>a _. Inr (if a = ''p1'' then ''i1'' else ''i2'')),
      implementationFromProxy = (\<lambda>a _. Inr (Some (if a = ''p1'' then ''i1'' else ''i2''))),
      implementationFromBeacon = (\<lambda>_ _. Inr []), getAdminAddress = (\<lambda>_ _. Inr ''0''),
      isEmptySlot = (\<lambda>a. a = ''0''), getCode = (\<lambda>_ _. Inr ''0x''), storageUpgradeSafe = (\<lambda>_ _. Inr ()),
      deployProxyContract = (\<lambda>_ _ c. (c, Inr \<lparr>dp_address = ''p'', dp_txHash = Some ''t'', dp_fields = []\<rparr>)),
      sendUpgrade = (\<lambda>_ c. (c, Inr ())), implProvider = accepting, adminProvider = accepting\<rparr>"

definition site_with :: "(string \<Rightarrow> string option) \<Rightarrow> manifest_data list site_store" where
  "site_with known =
     \<lparr>kv_read = (\<lambda>_ k _. Inr (known k)), kv_write = (\<lambda>_ _ _ _ c. (c, Inr ())), store_artifacts = (\<lambda>_ c. (c, Inr ''a'')),
      store_metadata = (\<lambda>d c. (c @ [d], Inr ''m'')), load_metadata = (\<lambda>_ _. Inr (Stored old_metadata)),
      identity_contract = (\<lambda>_. Inr ''id''),
      factory_of = (\<lambda>n. Inr (if n = ''A'' then factory_for ''one2'' ''j1'' else factory_for ''two2'' ''j2'')),
      wait_deployed = (\<lambda>_ c. (c, Inr ()))\<rparr>"

definition chain_at :: "nat \<Rightarrow> string option \<Rightarrow> mf_env" where
  "chain_at n name = \<lparr>mf_chainId = n, mf_network = name, mf_dir = ''d'', older = (\<lambda>a b. Inr (a = ''3.0'' \<and> b \<noteq> ''3.0''))\<rparr>"

definition new_disk :: "manifest_data list disk" where
  "new_disk = \<lparr>mf_files = [], lock_file = False, locked = False, chain_state = []\<rparr>"


text \<open>Every contract that is upgraded writes the stored metadata over the manifest, so those of the
  contracts before it in the same deployment are lost: the metadata that are stored in the end have
  the new version of the second contract and not that of the first.\<close>

theorem metadata_of_first_contract_lost:
  "map (\<lambda>d. (impl_entry ''one2'' d = None, impl_entry ''two2'' d = None))
     (chain_state (fst (deployUpgradableContracts (chain_at 5 (Some ''goerli'')) accepting_chain
        (site_with (\<lambda>k. if k = PROXY_METADATA_KEY then Some ''m'' else if k = ''zweb/contracts/address/A'' then Some ''p1'' else Some ''p2''))
        [''A'', ''B''] ''1.0'' ''site.point'' False new_disk))) = [(True, False)]"
  by code_simp

text \<open>The table of names that gives the path of the metadata is not the one of the manifest: on a
  chain that only the library knows, the metadata of a new proxy are not found.\<close>

theorem metadata_sought_elsewhere:
  "snd (deployUpgradableContracts (chain_at 10 (Some ''optimism'')) accepting_chain (site_with (\<lambda>_. None))
     [''A''] ''1.0'' ''site.point'' False new_disk) = Inl ENOENT \<and>
   snd (deployUpgradableContracts (chain_at 5 (Some ''goerli'')) accepting_chain (site_with (\<lambda>_. None))
     [''A''] ''1.0'' ''site.point'' False new_disk) = Inr ()"
  by (rule conjI; code_simp)

text \<open>The dot of the pattern stands for any character: an identity that ends in \<open>point\<close> loses one
  more character, here with no suffix at all.\<close>

theorem identity_cut: "bare_identity ''checkpoint'' = ''chec'' \<and> bare_identity ''site.point'' = ''site''"
  by code_simp

end
