(* ===== verification/Spec2Isabelle.thy ===== *)
theory Spec2Isabelle
  imports Prelude Caches Cookies Util Models Storage Streaming Directory Rpc
    Envelope Signatures Container Sequencer HostStorage HostLaws Progress Uploader
    Events Identity KeyValue Blockchain Proxy ProxyApi Deployer Solana Renderer Wallet Api Registration
    Messages Pubsub ContractApi Manifests Upgrades
begin

text \<open>
  Verification of the Point Network node (JavaScript and TypeScript under \<open>src/\<close>).

  The program.  A node serves the decentralised web to the browser of its user.
  Files are cut into chunks, addressed by the hash of their content and exchanged
  with storage gateways (\<open>client/storage\<close>); a small SQL database remembers chunks,
  files, events and scanned block ranges (\<open>db/models\<close>).  A proxy
  (\<open>client/proxy\<close>) answers the browser: it maps a host to an identity, the identity
  to the root directory that it published as a key-value pair on the blockchain
  (\<open>network/providers/ethereum.js\<close>), and a path to a file or template of that
  directory; templates are rendered by \<open>client/zweb/renderer\<close>.  The deployer
  (\<open>client/zweb/deployer\<close>) uploads a site and publishes its keys.  Identities come
  from the Point contract, the Ethereum Name Service or the Solana Name Service
  (\<open>name_service\<close>, \<open>network/providers/solana.ts\<close>).  The wallet and the RPC
  handlers (\<open>wallet\<close>, \<open>rpc\<close>, \<open>permissions\<close>) keep transactions until the user
  confirms them.  Applications store encrypted data through \<open>client/encryption.ts\<close>
  and \<open>client/hostStorage.ts\<close>.

  Theories, in the order of their imports.

  \<^item> \<open>Prelude\<close>: strings, results, lists and slices of JavaScript; the collections
    of simplification rules.  \<open>Codec\<close>, \<open>Json\<close>: hex, decimal and JSON text with
    their round trips.  \<open>Async\<close>: sequencing of asynchronous functions over a state.
  \<^item> \<open>Caches\<close> (\<open>util/cacheFactory.ts\<close>, \<open>util/queue.ts\<close>): the expiring cache,
    bounded on every run and a map with expiry; the queue is a list.
  \<^item> \<open>Cookies\<close> (\<open>util/cookieString.ts\<close>, \<open>name_service/registry.ts\<close>).
  \<^item> \<open>Util\<close> (\<open>util\<close>): local paths below a root, Merkle trees, gzip prologue, log
    stream, contract imports, directory size.
  \<^item> \<open>Models\<close> (\<open>db/models\<close>, \<open>client/storage/callbacks.ts\<close>): rows, updates and
    their event hooks, retries, queues of callbacks.
  \<^item> \<open>Storage\<close> (\<open>client/storage/index.ts\<close>, \<open>chunk\<close>): upload and download of
    files, chunk info, verification of chunks.  \<open>Streaming\<close>: responses with ranges
    and the chunk stream.  \<open>Directory\<close>: directories over the blob reader.
  \<^item> \<open>Progress\<close>, \<open>Uploader\<close> (\<open>client/storage/progress.ts\<close>, \<open>uploader.ts\<close>): the
    progress of uploads and the loop with its pool of workers.
  \<^item> \<open>Envelope\<close>, \<open>Signatures\<close>, \<open>Container\<close> (\<open>client/encryption.ts\<close>): encrypted
    and signed blobs, the encryption container.
  \<^item> \<open>HostStorage\<close>, \<open>HostLaws\<close>, \<open>Sequencer\<close> (\<open>client/hostStorage.ts\<close>): the tree
    of trackers, what its operations promise, and their order.
  \<^item> \<open>Events\<close>, \<open>KeyValue\<close>, \<open>Blockchain\<close> (\<open>network/providers/ethereum.js\<close>,
    \<open>util/cache.ts\<close>): the cache of contract events, the key-value store with
    versions and copy instructions, the rest of the client.
  \<^item> \<open>Identity\<close> (\<open>name_service\<close>): the identity of the user over its cache.
  \<^item> \<open>Proxy\<close>, \<open>ProxyApi\<close> (\<open>client/proxy\<close>, \<open>util/sanitizeSVG.ts\<close>): hosts, sites,
    routes, files, the local API and the storage handlers.
  \<^item> \<open>Deployer\<close> (\<open>client/zweb/deployer/index.js\<close>), \<open>Renderer\<close>
    (\<open>client/zweb/renderer\<close>, \<open>network/keyvalue.js\<close>), \<open>Solana\<close>, \<open>Wallet\<close>
    (\<open>wallet\<close>), \<open>Rpc\<close> (\<open>rpc/rpc-handlers.ts\<close>, \<open>permissions\<close>).
  \<^item> \<open>Api\<close> (\<open>api/server.ts\<close>, \<open>api/api_routes.js\<close>, \<open>api/middleware\<close>): the table of
    routes and the guards before every controller.  \<open>Registration\<close>
    (\<open>api/controllers/IdentityController.js\<close>), \<open>ContractApi\<close> (the controllers of
    contracts, of the storage and of the networks), \<open>Messages\<close>
    (\<open>client/encryptIdentityUtils.js\<close> and its handlers in \<open>WalletController.js\<close>).
  \<^item> \<open>Manifests\<close>, \<open>Upgrades\<close> (\<open>network/deployer\<close>): the record of deployed contracts
    with its lock, deployments looked up in it, proxies and their upgrades.
  \<^item> \<open>Pubsub\<close> (the messages of \<open>client/storage/ipfs.ts\<close> and of
    \<open>StorageController.js\<close>): sockets, callbacks, framing, and the way of a message
    from one node to another through \<open>Signatures\<close> and \<open>Storage\<close>.
  A definition has the name of the function it translates.  State that the code
  keeps in module variables, objects or the database is a record that the
  definitions take and return; an exception is the left value of a result.

  Interfaces.  \<open>blob_reader\<close> (a stored blob is read back under its id), extended by
  \<open>blob_store\<close>, is what directories, envelopes and node messages need of the
  storage layer;
  \<open>enc_store\<close> is what host storage needs of the envelopes; \<open>range_scanner\<close> is what
  the paginated queries need of a scan; \<open>manifest_entry\<close> is what a deployment needs of
  an entry of the manifest; \<open>expiring_store\<close> and \<open>permission_storer\<close>
  are the contracts of the cache and of the permission store.  Each is interpreted on
  the model's own operations in the theory that provides them.

  What the lemmas show.  Storage: what is uploaded is read back, what is read was
  verified, also through directories, streams and ranges.  Caches (expiring cache,
  events, identities, key-value pairs): answers agree with a specification without
  cache, or the exact circumstances in which they do not are a theorem.  Security:
  confinement to a site's root, tokens and routes, consent of the user to a
  registration, authorisation of deployments, envelopes and messages bound to their
  host, transactions sent once and as stored.  Processes: callbacks
  in order, workers within their limit, operations one at a time, chunks of a stream
  in order, as invariants of step relations or of runs.  Several theorems exhibit
  a fault of the code at a concrete input; they are named after what goes wrong.

  Bounds and fuel.  Loops that may not end are partial functions: the pages of a
  scan (they end exactly for a positive page size, \<open>renewal_returns\<close>), copy
  instructions of the key-value store (a chain is followed to its end, a cycle never
  returns) and lists of keys read until one is missing.  Fuel: paths of a
  directory (the number of segments is enough, \<open>uploaded_tree_navigable\<close>), trackers
  of the host storage and JSON text (their depth, the length of the text),
  containers (the depth of the text), and the parents of a file in the progress,
  where the theorems hold for every fuel because running out is an exception like
  any other.  The 50000 iterations of a contract list are the code's own bound.

  Representation.  Strings are UTF-8 byte lists, so are buffers; \<open>toString\<close> of
  arbitrary bytes is an argument where it matters.  Objects are association lists
  in insertion order; that integer-like keys come first in JavaScript, and that
  names such as \<open>constructor\<close> are found on \<open>Object.prototype\<close>, is not modelled.
  Progress values are exact fractions instead of floating point.  Numbers are
  unbounded integers where the code's stay far below \<open>2 ^ 53\<close>.  A cached promise is
  its outcome.  The clock is an argument, one value per call.  Concurrent operations
  are interleaved at their awaits where the code relies on the order (upload loop,
  chunk stream, sequential operations) and run to completion elsewhere.  A query
  that expects one row gives the first, as SQLite does.  Errors of the database
  are left out.

  Parameters.  Hash and signature functions, ciphers, zlib, gateways, web3, ethers,
  solc, hardhat with its upgrades library, git, Twig, the Solana libraries, the file system and the network
  are arguments; what is assumed of them is named in the hypotheses (a cipher
  decrypts what it encrypted, a signature verifies under its key, a digest does not
  collide on the given strings) and shown satisfiable by a witness.

  Not modelled: the explorer's user interface (\<open>internal\<close>), migrations, tests and
  scripts; the start-up code, the web sockets of the API, certificates and worker
  threads, which are input and output without state of their own; Fastify's matching
  of paths; the transport to the gateways and the IPFS node
  (\<open>client/storage/ipfs.ts\<close> but for its messages); the download of npm packages for
  the compiler; the display of transaction inputs
  (\<open>rpc/decode.ts\<close>), which only calls an ABI decoder; the variants for local
  development.
\<close>

end
